theory Spec2Isabelle
  imports Complex_Main "HOL-Library.While_Combinator"
begin

section \<open>The RMHD derivative operator of rmhd.c\<close>

text \<open>
  A shallow embedding of \<^verbatim>\<open>src/rmhd.c\<close>. Conventions:
  \<^item> a C \<^verbatim>\<open>double\<close> is a \<^typ>\<open>real\<close>: rounding, infinities and NaN are outside the model.
    The one division whose zero divisor the properties below depend on, that of
    \<^verbatim>\<open>harmonic_mean\<close>, is guarded: the model returns \<open>Inl DivisionByZero\<close> where the C
    program computes \<^verbatim>\<open>0.0/0.0\<close>. Every other division is HOL's total division; the
    theorems that depend on a quotient's value assume its divisor nonzero;
  \<^item> a \<^verbatim>\<open>double *\<close> into a grid-sized buffer is an array \<^typ>\<open>int \<Rightarrow> real\<close> (offset to
    value) together with the offset the pointer stands at; an 8-component state vector
    handed to a point routine is a \<^typ>\<open>real list\<close> of its 8 values;
  \<^item> the process-wide globals (\<^verbatim>\<open>lib_state\<close>, \<^verbatim>\<open>libopstate\<close>, \<^verbatim>\<open>dimension\<close>,
    \<^verbatim>\<open>stride\<close>, the grid spacings, the function pointer \<^verbatim>\<open>slope_limiter\<close>, the scratch
    buffers) are the fields of one record that every routine takes and returns;
  \<^item> the mode selectors of \<^verbatim>\<open>struct LibraryState\<close> and the global \<^verbatim>\<open>dimension\<close> are
    datatypes with the values the source's enums and assignments give them (1, 2 and 3
    for \<^verbatim>\<open>dimension\<close>), so the \<^verbatim>\<open>default:\<close> labels have no counterpart;
  \<^item> memory that the C code reads before writing it (a fresh \<^verbatim>\<open>malloc\<close>) is a parameter;
  \<^item> \<^verbatim>\<open>printf\<close> output is not modelled.
\<close>

subsection \<open>Indices into a state vector\<close>

definition ddd :: nat where "ddd = 0"
definition tau :: nat where "tau = 1"
definition Sx :: nat where "Sx = 2"
definition Sy :: nat where "Sy = 3"
definition Sz :: nat where "Sz = 4"
definition Bx :: nat where "Bx = 5"
definition By :: nat where "By = 6"
definition Bz :: nat where "Bz = 7"

definition rho :: nat where "rho = 0"
definition pre :: nat where "pre = 1"
definition vx :: nat where "vx = 2"
definition vy :: nat where "vy = 3"
definition vz :: nat where "vz = 4"

lemmas idx_defs = ddd_def tau_def Sx_def Sy_def Sz_def Bx_def By_def Bz_def
  rho_def pre_def vx_def vy_def vz_def

subsection \<open>Modes and the library state\<close>

datatype RiemannSolverMode = RiemannSolver_HLL | RiemannSolver_HLLC

datatype ReconstructMode =
  Reconstruct_PiecewiseConstant | Reconstruct_PLM3Velocity | Reconstruct_PLM4Velocity

datatype SlopeLimiterMode =
  SlopeLimiter_Minmod | SlopeLimiter_MonotizedCentral | SlopeLimiter_HarmonicMean

datatype QuarticSolverMode =
  QuarticSolver_Exact | QuarticSolver_Approx1 | QuarticSolver_Approx2 | QuarticSolver_None

datatype LibraryOperationMode = LibraryOperation_Alive | LibraryOperation_Dead

datatype axis = Dim1 | Dim2 | Dim3

text \<open>The three functions the pointer \<^verbatim>\<open>slope_limiter\<close> is ever set to.\<close>

datatype limiter_fn = Ptr_plm_minmod | Ptr_MC_limiter | Ptr_harmonic_mean

datatype error = DivisionByZero | NullFunctionPointer | LoopDiverges

record LibraryState =
  cons_to_prim_iter :: int
  cons_to_prim_use_estimate :: int
  cons_to_prim_verbose :: int
  max_lambda :: real
  adiabatic_gamma :: real
  plm_theta :: real
  mode_riemann_solver :: RiemannSolverMode
  mode_reconstruct :: ReconstructMode
  mode_slope_limiter :: SlopeLimiterMode
  mode_quartic_solver :: QuarticSolverMode

type_synonym array = "int \<Rightarrow> real"

record engine =
  lib_state :: LibraryState
  libopstate :: LibraryOperationMode
  quiet :: int
  dimension :: axis
  stride :: "int list"
  dx :: real
  dy :: real
  dz :: real
  cons_to_prim_last_W :: real
  slope_limiter :: "limiter_fn option"
  PrimitiveArray :: array
  FluxInterArray_x :: array
  FluxInterArray_y :: array
  FluxInterArray_z :: array
  lib_ux :: array
  lib_uy :: array
  lib_uz :: array

text \<open>The initialiser of \<^verbatim>\<open>lib_state\<close>.\<close>

definition lib_state_init :: LibraryState where
  "lib_state_init =
     \<lparr> cons_to_prim_iter = 0, cons_to_prim_use_estimate = 0, cons_to_prim_verbose = 0,
       max_lambda = 0, adiabatic_gamma = 14 / 10, plm_theta = 2,
       mode_riemann_solver = RiemannSolver_HLL,
       mode_reconstruct = Reconstruct_PLM4Velocity,
       mode_slope_limiter = SlopeLimiter_Minmod,
       mode_quartic_solver = QuarticSolver_Exact \<rparr>"

text \<open>\<^verbatim>\<open>stride[dimension]\<close>.\<close>

fun dim_index :: "axis \<Rightarrow> nat" where
  "dim_index Dim1 = 1"
| "dim_index Dim2 = 2"
| "dim_index Dim3 = 3"

definition stride_dim :: "engine \<Rightarrow> int" where
  "stride_dim st = stride st ! dim_index (dimension st)"

text \<open>The 8 values at a pointer into an array, and the array after storing 8 values there.\<close>

definition cell :: "array \<Rightarrow> int \<Rightarrow> real list" where
  "cell A i = map (\<lambda>k. A (i + int k)) [0..<8]"

definition store_cell :: "array \<Rightarrow> int \<Rightarrow> real list \<Rightarrow> array" where
  "store_cell A i v = (\<lambda>j. if i \<le> j \<and> j < i + 8 then v ! nat (j - i) else A j)"

subsection \<open>Arithmetic helpers\<close>

definition sign :: "real \<Rightarrow> real" where
  "sign x = (if x > 0 then 1 else 0) - (if x < 0 then 1 else 0)"

definition max2 :: "real \<Rightarrow> real \<Rightarrow> real" where
  "max2 a b = (if a > b then a else b)"

definition max3 :: "real \<Rightarrow> real \<Rightarrow> real \<Rightarrow> real" where
  "max3 a b c = (let ab = (if a > b then a else b) in if ab > c then ab else c)"

definition min3 :: "real \<Rightarrow> real \<Rightarrow> real \<Rightarrow> real" where
  "min3 a b c = (let ab = (if a < b then a else b) in if ab < c then ab else c)"

text \<open>\<^verbatim>\<open>invert_2by2_matrix\<close>: the matrix \<open>((a00, a01), (a10, a11))\<close> and its inverse.\<close>

definition invert_2by2_matrix ::
  "(real \<times> real) \<times> (real \<times> real) \<Rightarrow> (real \<times> real) \<times> (real \<times> real)" where
  "invert_2by2_matrix A =
     (case A of ((a00, a01), (a10, a11)) \<Rightarrow>
        let det = a00 * a11 - a10 * a01
        in ((a11 / det, - a01 / det), (- a10 / det, a00 / det)))"

subsection \<open>Slope limiters\<close>

definition plm_minmod :: "LibraryState \<Rightarrow> real \<Rightarrow> real \<Rightarrow> real \<Rightarrow> real" where
  "plm_minmod ls ul u0 ur =
     (let a = plm_theta ls * (u0 - ul);
          b = (1 / 2) * (ur - ul);
          c = plm_theta ls * (ur - u0)
      in (1 / 4) * abs (sign a + sign b) * (sign a + sign c) * min3 (abs a) (abs b) (abs c))"

definition MC_limiter :: "real \<Rightarrow> real \<Rightarrow> real \<Rightarrow> real" where
  "MC_limiter ul u0 ur =
     (let qp = ur - u0;
          qm = u0 - ul;
          si = (1 / 2) * (sign qp + sign qm)
      in si * min3 (2 * abs qp) (2 * abs qm) ((1 / 2) * (ur - ul)))"

text \<open>
  \<^verbatim>\<open>harmonic_mean\<close> divides by \<^verbatim>\<open>qp+qm\<close> with no test; the model says where that
  divisor is zero.
\<close>

definition harmonic_mean :: "real \<Rightarrow> real \<Rightarrow> real \<Rightarrow> error + real" where
  "harmonic_mean ul u0 ur =
     (let qp = ur - u0;
          qm = u0 - ul
      in if qp + qm = 0 then Inl DivisionByZero
         else Inr (2 * max2 0 (qp * qm) / (qp + qm)))"

text \<open>A call through the pointer \<^verbatim>\<open>slope_limiter\<close>, which is null until \<^verbatim>\<open>set_state\<close> runs.\<close>

definition call_slope_limiter :: "engine \<Rightarrow> real \<Rightarrow> real \<Rightarrow> real \<Rightarrow> error + real" where
  "call_slope_limiter st ul u0 ur =
     (case slope_limiter st of
        None \<Rightarrow> Inl NullFunctionPointer
      | Some Ptr_plm_minmod \<Rightarrow> Inr (plm_minmod (lib_state st) ul u0 ur)
      | Some Ptr_MC_limiter \<Rightarrow> Inr (MC_limiter ul u0 ur)
      | Some Ptr_harmonic_mean \<Rightarrow> harmonic_mean ul u0 ur)"

subsection \<open>Adiabatic equation of state\<close>

definition eos_pre :: "LibraryState \<Rightarrow> real \<Rightarrow> real \<Rightarrow> real" where
  "eos_pre ls Rho Sie = Sie * (Rho * (adiabatic_gamma ls - 1))"

definition eos_sie :: "LibraryState \<Rightarrow> real \<Rightarrow> real \<Rightarrow> real" where
  "eos_sie ls Rho Pre = Pre / (Rho * (adiabatic_gamma ls - 1))"

definition eos_cs2 :: "LibraryState \<Rightarrow> real \<Rightarrow> real \<Rightarrow> real" where
  "eos_cs2 ls Rho Pre =
     (let e = eos_sie ls Rho Pre in adiabatic_gamma ls * Pre / (Pre + Rho + Rho * e))"

subsection \<open>Configuration\<close>

definition set_state :: "engine \<Rightarrow> LibraryState \<Rightarrow> engine" where
  "set_state st state =
     st\<lparr> lib_state := state,
         slope_limiter :=
           (case mode_slope_limiter state of
              SlopeLimiter_Minmod \<Rightarrow> Some Ptr_plm_minmod
            | SlopeLimiter_MonotizedCentral \<Rightarrow> Some Ptr_MC_limiter
            | SlopeLimiter_HarmonicMean \<Rightarrow> Some Ptr_harmonic_mean) \<rparr>"

definition get_state :: "engine \<Rightarrow> LibraryState" where
  "get_state st = lib_state st"

subsection \<open>Primitive to conserved\<close>

text \<open>The source's \<^verbatim>\<open>e_\<close>, \<^verbatim>\<open>p_\<close>, \<^verbatim>\<open>h_\<close> are \<open>e_tot\<close>, \<open>p_tot\<close>, \<open>h_tot\<close> here.\<close>

definition prim_to_cons_point :: "engine \<Rightarrow> real list \<Rightarrow> real list" where
  "prim_to_cons_point st P =
     (let v2 = P ! vx * P ! vx + P ! vy * P ! vy + P ! vz * P ! vz;
          B2 = P ! Bx * P ! Bx + P ! By * P ! By + P ! Bz * P ! Bz;
          Bv = P ! Bx * P ! vx + P ! By * P ! vy + P ! Bz * P ! vz;
          W2 = 1 / (1 - v2);
          W = sqrt W2;
          b0 = W * Bv;
          b2 = (B2 + b0 * b0) / W2;
          bx = (P ! Bx + b0 * W * P ! vx) / W;
          by = (P ! By + b0 * W * P ! vy) / W;
          bz = (P ! Bz + b0 * W * P ! vz) / W;
          e = eos_sie (lib_state st) (P ! rho) (P ! pre);
          p = P ! pre;
          e_tot = e + (1 / 2) * b2 / P ! rho;
          p_tot = p + (1 / 2) * b2;
          h_tot = 1 + e_tot + p_tot / P ! rho;
          U_ddd = P ! rho * W
      in [ U_ddd,
           P ! rho * h_tot * W2 - p_tot - b0 * b0 - U_ddd,
           P ! rho * h_tot * W2 * P ! vx - b0 * bx,
           P ! rho * h_tot * W2 * P ! vy - b0 * by,
           P ! rho * h_tot * W2 * P ! vz - b0 * bz,
           P ! Bx, P ! By, P ! Bz ])"

subsection \<open>Routines of the repository that rmhd.c calls and does not define\<close>

text \<open>
  \<^verbatim>\<open>new_QuarticEquation\<close>, \<^verbatim>\<open>solve_quartic_equation\<close>, \<^verbatim>\<open>solve_quartic_approx1\<close>,
  \<^verbatim>\<open>solve_quartic_approx2\<close>, \<^verbatim>\<open>hllc_flux\<close> and \<^verbatim>\<open>hllc_set_dimension\<close> are only declared
  in rmhd.c. They are parameters here: the exact solver maps the five coefficients
  \<open>(d4, d3, d2, d1, d0)\<close> handed to \<^verbatim>\<open>new_QuarticEquation\<close> to its return value and the
  contents it leaves in \<open>r1, r2, r3, r4, nr12, nr34\<close>; an approximate solver maps the
  coefficients and the value at its pointer argument to the value it leaves there;
  \<^verbatim>\<open>hllc_flux\<close> maps the globals, the two primitive states and the interface speed to
  the star state and the flux it writes.
\<close>

record quartic_roots =
  nr :: int
  r1 :: real
  r2 :: real
  r3 :: real
  r4 :: real
  nr12 :: int
  nr34 :: int

type_synonym quartic = "real \<times> real \<times> real \<times> real \<times> real"

record externals =
  solve_quartic_equation :: "quartic \<Rightarrow> quartic_roots"
  solve_quartic_approx1 :: "quartic \<Rightarrow> real \<Rightarrow> real"
  solve_quartic_approx2 :: "quartic \<Rightarrow> real \<Rightarrow> real"
  hllc_flux :: "engine \<Rightarrow> real list \<Rightarrow> real list \<Rightarrow> real \<Rightarrow> real list \<times> real list"

subsection \<open>Flux and signal speeds of one state\<close>

text \<open>The flux vector written by the first \<^verbatim>\<open>switch (dimension)\<close>.\<close>

definition rmhd_flux :: "engine \<Rightarrow> real list \<Rightarrow> real list \<Rightarrow> real list" where
  "rmhd_flux st U P =
     (let v2 = P ! vx * P ! vx + P ! vy * P ! vy + P ! vz * P ! vz;
          B2 = P ! Bx * P ! Bx + P ! By * P ! By + P ! Bz * P ! Bz;
          Bv = P ! Bx * P ! vx + P ! By * P ! vy + P ! Bz * P ! vz;
          W = 1 / sqrt (1 - v2);
          W2 = W * W;
          b0 = W * Bv;
          b2 = (B2 + b0 * b0) / W2;
          bx = (P ! Bx + b0 * W * P ! vx) / W;
          by = (P ! By + b0 * W * P ! vy) / W;
          bz = (P ! Bz + b0 * W * P ! vz) / W;
          p = P ! pre;
          p_tot = p + (1 / 2) * b2
      in case dimension st of
           Dim1 \<Rightarrow>
             [ U ! ddd * P ! vx,
               U ! tau * P ! vx - b0 * P ! Bx / W + p_tot * P ! vx,
               U ! Sx * P ! vx - bx * P ! Bx / W + p_tot,
               U ! Sy * P ! vx - by * P ! Bx / W,
               U ! Sz * P ! vx - bz * P ! Bx / W,
               0,
               P ! vx * P ! By - P ! vy * P ! Bx,
               P ! vx * P ! Bz - P ! vz * P ! Bx ]
         | Dim2 \<Rightarrow>
             [ U ! ddd * P ! vy,
               U ! tau * P ! vy - b0 * P ! By / W + p_tot * P ! vy,
               U ! Sx * P ! vy - bx * P ! By / W,
               U ! Sy * P ! vy - by * P ! By / W + p_tot,
               U ! Sz * P ! vy - bz * P ! By / W,
               P ! vy * P ! Bx - P ! vx * P ! By,
               0,
               P ! vy * P ! Bz - P ! vz * P ! By ]
         | Dim3 \<Rightarrow>
             [ U ! ddd * P ! vz,
               U ! tau * P ! vz - b0 * P ! Bz / W + p_tot * P ! vz,
               U ! Sx * P ! vz - bx * P ! Bz / W,
               U ! Sy * P ! vz - by * P ! Bz / W,
               U ! Sz * P ! vz - bz * P ! Bz / W + p_tot,
               P ! vz * P ! Bx - P ! vx * P ! Bz,
               P ! vz * P ! By - P ! vy * P ! Bz,
               0 ])"

text \<open>The coefficients \<open>(A4, A3, A2, A1, A0)\<close> handed to \<^verbatim>\<open>new_QuarticEquation\<close>.\<close>

definition rmhd_quartic :: "engine \<Rightarrow> real list \<Rightarrow> quartic" where
  "rmhd_quartic st P =
     (let v2 = P ! vx * P ! vx + P ! vy * P ! vy + P ! vz * P ! vz;
          B2 = P ! Bx * P ! Bx + P ! By * P ! By + P ! Bz * P ! Bz;
          Bv = P ! Bx * P ! vx + P ! By * P ! vy + P ! Bz * P ! vz;
          W = 1 / sqrt (1 - v2);
          W2 = W * W;
          b0 = W * Bv;
          b2 = (B2 + b0 * b0) / W2;
          bx = (P ! Bx + b0 * W * P ! vx) / W;
          by = (P ! By + b0 * W * P ! vy) / W;
          bz = (P ! Bz + b0 * W * P ! vz) / W;
          e = eos_sie (lib_state st) (P ! rho) (P ! pre);
          h = 1 + e + P ! pre / P ! rho;
          vi = (case dimension st of Dim1 \<Rightarrow> P ! vx | Dim2 \<Rightarrow> P ! vy | Dim3 \<Rightarrow> P ! vz);
          bi = (case dimension st of Dim1 \<Rightarrow> bx | Dim2 \<Rightarrow> by | Dim3 \<Rightarrow> bz);
          W4 = W2 * W2;
          cs2 = eos_cs2 (lib_state st) (P ! rho) (P ! pre);
          V2 = vi * vi;
          V3 = vi * V2;
          V4 = vi * V3;
          K = P ! rho * h * (1 / cs2 - 1) * W4;
          L = - (P ! rho * h + b2 / cs2) * W2;
          A4 = K - L - b0 * b0;
          A3 = - 4 * K * vi + L * vi * 2 + 2 * b0 * bi;
          A2 = 6 * K * V2 + L * (1 - V2) + b0 * b0 - bi * bi;
          A1 = - 4 * K * V3 - L * vi * 2 - 2 * b0 * bi;
          A0 = K * V4 + L * V2 + bi * bi
      in (A4, A3, A2, A1, A0))"

text \<open>The pair \<open>(ap, am)\<close> left by \<^verbatim>\<open>switch (lib_state.mode_quartic_solver)\<close>.\<close>

definition quartic_bounds :: "externals \<Rightarrow> engine \<Rightarrow> quartic \<Rightarrow> real \<times> real" where
  "quartic_bounds ext st q =
     (case mode_quartic_solver (lib_state st) of
        QuarticSolver_Exact \<Rightarrow>
          (let r = solve_quartic_equation ext q;
               ap12 = (if r1 r > r2 r then r1 r else r2 r);
               ap34 = (if r3 r > r4 r then r3 r else r4 r);
               am12 = (if r1 r < r2 r then r1 r else r2 r);
               am34 = (if r3 r < r4 r then r3 r else r4 r)
           in ( if nr r = 2 then (if nr12 r = 2 then ap12 else ap34)
                else (if ap12 > ap34 then ap12 else ap34),
                if nr r = 2 then (if nr12 r = 2 then am12 else am34)
                else (if am12 < am34 then am12 else am34) ))
      | QuarticSolver_Approx1 \<Rightarrow>
          (solve_quartic_approx1 ext q 1, solve_quartic_approx1 ext q (- 1))
      | QuarticSolver_Approx2 \<Rightarrow>
          (solve_quartic_approx2 ext q 1, solve_quartic_approx2 ext q (- 1))
      | QuarticSolver_None \<Rightarrow> (1, - 1))"

text \<open>\<^verbatim>\<open>rmhd_flux_and_eval\<close> returns \<open>(F, ap, am)\<close>.\<close>

definition rmhd_flux_and_eval ::
  "externals \<Rightarrow> engine \<Rightarrow> real list \<Rightarrow> real list \<Rightarrow> real list \<times> real \<times> real" where
  "rmhd_flux_and_eval ext st U P =
     (let F = rmhd_flux st U P;
          (ap, am) = quartic_bounds ext st (rmhd_quartic st P)
      in if abs ap > 1 \<or> abs am > 1 then (F, 1, - 1) else (F, ap, am))"

subsection \<open>The HLL Riemann solver\<close>

text \<open>
  \<^verbatim>\<open>hll_flux\<close> returns the globals (it raises \<^verbatim>\<open>lib_state.max_lambda\<close>) and the contents
  of \<^verbatim>\<open>U\<close> and \<^verbatim>\<open>F\<close>; \<open>U0\<close> and \<open>F0\<close> are what they held at the call, which is what they
  hold after it when none of the three guards is true.
\<close>

definition hll_flux ::
  "externals \<Rightarrow> engine \<Rightarrow> real list \<Rightarrow> real list \<Rightarrow> real list \<Rightarrow> real list \<Rightarrow> real \<Rightarrow>
     engine \<times> real list \<times> real list" where
  "hll_flux ext st pl pr U0 F0 s =
     (let Pl = pl; Pr = pr;
          Ul = prim_to_cons_point st Pl;
          Ur = prim_to_cons_point st Pr;
          (Fl, epl, eml) = rmhd_flux_and_eval ext st Ul Pl;
          (Fr, epr, emr) = rmhd_flux_and_eval ext st Ur Pr;
          ap = (if epl > epr then epl else epr);
          am = (if eml < emr then eml else emr);
          ml = (if abs am < abs ap then abs ap else abs am);
          st' = (if max_lambda (lib_state st) < ml
                 then st\<lparr>lib_state := (lib_state st)\<lparr>max_lambda := ml\<rparr>\<rparr> else st);
          U_hll = map (\<lambda>i. (ap * Ur ! i - am * Ul ! i + (Fl ! i - Fr ! i)) / (ap - am)) [0..<8];
          F_hll = map (\<lambda>i. (ap * Fl ! i - am * Fr ! i + ap * am * (Ur ! i - Ul ! i)) / (ap - am))
                    [0..<8];
          U = (if s \<le> am then map (\<lambda>i. Ul ! i) [0..<8]
               else if am < s \<and> s \<le> ap then map (\<lambda>i. U_hll ! i) [0..<8]
               else if ap < s then map (\<lambda>i. Ur ! i) [0..<8]
               else U0);
          F = (if s \<le> am then map (\<lambda>i. Fl ! i) [0..<8]
               else if am < s \<and> s \<le> ap then map (\<lambda>i. F_hll ! i) [0..<8]
               else if ap < s then map (\<lambda>i. Fr ! i) [0..<8]
               else F0)
      in (st', U, F))"

subsection \<open>Reconstruction\<close>

text \<open>Sequencing of fallible steps: the first error is the result.\<close>

definition bind_err :: "error + 'a \<Rightarrow> ('a \<Rightarrow> error + 'b) \<Rightarrow> error + 'b" where
  "bind_err m f = (case m of Inl e \<Rightarrow> Inl e | Inr x \<Rightarrow> f x)"

fun map_err :: "('a \<Rightarrow> error + 'b) \<Rightarrow> 'a list \<Rightarrow> error + 'b list" where
  "map_err f [] = Inr []"
| "map_err f (x # xs) =
     bind_err (f x) (\<lambda>y. bind_err (map_err f xs) (\<lambda>ys. Inr (y # ys)))"

text \<open>
  \<^verbatim>\<open>reconstruct_use_3vel\<close>: \<open>P\<close> is the primitive array and \<open>i0\<close> the offset of \<^verbatim>\<open>P0\<close>
  in it. The result is \<open>(Pl, Pr)\<close>; each loop round computes \<^verbatim>\<open>Pr[i]\<close>, then \<^verbatim>\<open>Pl[i]\<close>.
\<close>

definition reconstruct_use_3vel ::
  "engine \<Rightarrow> array \<Rightarrow> int \<Rightarrow> error + (real list \<times> real list)" where
  "reconstruct_use_3vel st P i0 =
     (let S = stride_dim st; T = 2 * S
      in bind_err
           (map_err (\<lambda>i.
              bind_err (call_slope_limiter st (P (i0 + int i)) (P (i0 + S + int i))
                          (P (i0 + T + int i))) (\<lambda>sr.
              bind_err (call_slope_limiter st (P (i0 - S + int i)) (P (i0 + int i))
                          (P (i0 + S + int i))) (\<lambda>sl.
              Inr (P (i0 + int i) + (1 / 2) * sl, P (i0 + S + int i) - (1 / 2) * sr))))
              [0..<8])
           (\<lambda>lr. Inr (map fst lr, map snd lr)))"

text \<open>
  \<^verbatim>\<open>reconstruct_use_4vel\<close>: \<open>iu\<close> is the offset of the pointers \<^verbatim>\<open>ux\<close>, \<^verbatim>\<open>uy\<close>, \<^verbatim>\<open>uz\<close>
  in the 4-velocity arrays. Slots \<^verbatim>\<open>rho\<close>, \<^verbatim>\<open>pre\<close>, \<^verbatim>\<open>Bx\<close>, \<^verbatim>\<open>By\<close>, \<^verbatim>\<open>Bz\<close> come from the
  loop, which calls \<^verbatim>\<open>plm_minmod\<close> by name; slots \<^verbatim>\<open>vx\<close>, \<^verbatim>\<open>vy\<close>, \<^verbatim>\<open>vz\<close> from the
  4-velocities limited through the pointer.
\<close>

definition reconstruct_use_4vel ::
  "engine \<Rightarrow> array \<Rightarrow> int \<Rightarrow> array \<Rightarrow> array \<Rightarrow> array \<Rightarrow> int \<Rightarrow>
     error + (real list \<times> real list)" where
  "reconstruct_use_4vel st P i0 ux uy uz iu =
     (let S = stride_dim st; T = 2 * S;
          U = stride_dim st div 8; V = 2 * U;
          Pr_loop = (\<lambda>i. P (i0 + S + int i)
                       - (1 / 2) * plm_minmod (lib_state st) (P (i0 + int i))
                           (P (i0 + S + int i)) (P (i0 + T + int i)));
          Pl_loop = (\<lambda>i. P (i0 + int i)
                       + (1 / 2) * plm_minmod (lib_state st) (P (i0 - S + int i))
                           (P (i0 + int i)) (P (i0 + S + int i)))
      in bind_err (call_slope_limiter st (ux iu) (ux (iu + U)) (ux (iu + V))) (\<lambda>sxr.
         bind_err (call_slope_limiter st (ux (iu - U)) (ux iu) (ux (iu + U))) (\<lambda>sxl.
         bind_err (call_slope_limiter st (uy iu) (uy (iu + U)) (uy (iu + V))) (\<lambda>syr.
         bind_err (call_slope_limiter st (uy (iu - U)) (uy iu) (uy (iu + U))) (\<lambda>syl.
         bind_err (call_slope_limiter st (uz iu) (uz (iu + U)) (uz (iu + V))) (\<lambda>szr.
         bind_err (call_slope_limiter st (uz (iu - U)) (uz iu) (uz (iu + U))) (\<lambda>szl.
           let ux_r = ux (iu + U) - (1 / 2) * sxr;
               ux_l = ux iu + (1 / 2) * sxl;
               uy_r = uy (iu + U) - (1 / 2) * syr;
               uy_l = uy iu + (1 / 2) * syl;
               uz_r = uz (iu + U) - (1 / 2) * szr;
               uz_l = uz iu + (1 / 2) * szl;
               Wr = sqrt (1 + ux_r * ux_r + uy_r * uy_r + uz_r * uz_r);
               Wl = sqrt (1 + ux_l * ux_l + uy_l * uy_l + uz_l * uz_l)
           in Inr ([ Pl_loop rho, Pl_loop pre, ux_l / Wl, uy_l / Wl, uz_l / Wl,
                     Pl_loop Bx, Pl_loop By, Pl_loop Bz ],
                   [ Pr_loop rho, Pr_loop pre, ux_r / Wr, uy_r / Wr, uz_r / Wr,
                     Pr_loop Bx, Pr_loop By, Pr_loop Bz ]))))))))"

subsection \<open>Conserved to primitive\<close>

definition PRES_FLOOR :: real where "PRES_FLOOR = 1 / 10 ^ 10"
definition ERROR_TOLR :: real where "ERROR_TOLR = 1 / 10 ^ 6"
definition NEWTON_MAX_ITER :: int where "NEWTON_MAX_ITER = 25"
definition bigZ :: real where "bigZ = 10 ^ 20"
definition bigW :: real where "bigW = 10 ^ 12"
definition smlZ :: real where "smlZ = 0"
definition smlW :: real where "smlW = 1"

text \<open>
  The variables the \<^verbatim>\<open>while\<close> loop of \<^verbatim>\<open>cons_to_prim_point\<close> changes; \<open>returned\<close> is set
  where the loop body executes \<^verbatim>\<open>return 1\<close>.
\<close>

record newton =
  use_pres_floor :: bool
  soln_found :: bool
  n_iter :: int
  Z_var :: real
  W_var :: real
  returned :: bool

text \<open>The values \<^verbatim>\<open>W\<close> and \<^verbatim>\<open>Z\<close> start from, and restart from with the pressure floor.\<close>

definition newton_W_start :: "engine \<Rightarrow> real list \<Rightarrow> real list \<Rightarrow> real" where
  "newton_W_start st U P =
     (let D = U ! ddd;
          S2 = U ! Sx * U ! Sx + U ! Sy * U ! Sy + U ! Sz * U ! Sz;
          est = cons_to_prim_use_estimate (lib_state st);
          v2 = P ! vx * P ! vx + P ! vy * P ! vy + P ! vz * P ! vz;
          W_guess = 1 / sqrt (1 - v2)
      in if est \<noteq> 0 then sqrt (S2 / (D * D) + 1) else W_guess)"

definition newton_Z_start :: "engine \<Rightarrow> real list \<Rightarrow> real list \<Rightarrow> real" where
  "newton_Z_start st U P =
     (let D = U ! ddd;
          est = cons_to_prim_use_estimate (lib_state st);
          v2 = P ! vx * P ! vx + P ! vy * P ! vy + P ! vz * P ! vz;
          h_guess = 1 + eos_sie (lib_state st) (P ! rho) (P ! pre) + P ! pre / P ! rho;
          W_guess = 1 / sqrt (1 - v2);
          W = newton_W_start st U P
      in if est \<noteq> 0 then D * W else P ! rho * h_guess * W_guess * W_guess)"

definition newton_start :: "engine \<Rightarrow> real list \<Rightarrow> real list \<Rightarrow> newton" where
  "newton_start st U P =
     \<lparr> use_pres_floor = False, soln_found = False, n_iter = 0,
       Z_var = newton_Z_start st U P, W_var = newton_W_start st U P, returned = False \<rparr>"

text \<open>
  The arithmetic of one round of the loop, from the loop variables at its start:
  \<open>(Pre, dZ, dW, Z_new, W_new)\<close> with \<open>Z_new\<close>, \<open>W_new\<close> after the four clamps.
\<close>

definition newton_update ::
  "engine \<Rightarrow> real list \<Rightarrow> newton \<Rightarrow> real \<times> real \<times> real \<times> real \<times> real" where
  "newton_update st U s =
     (let gamf = (adiabatic_gamma (lib_state st) - 1) / adiabatic_gamma (lib_state st);
          D = U ! ddd;
          Tau = U ! tau;
          S2 = U ! Sx * U ! Sx + U ! Sy * U ! Sy + U ! Sz * U ! Sz;
          B2 = U ! Bx * U ! Bx + U ! By * U ! By + U ! Bz * U ! Bz;
          BS = U ! Bx * U ! Sx + U ! By * U ! Sy + U ! Bz * U ! Sz;
          BS2 = BS * BS;
          Z = Z_var s; W = W_var s;
          Z2 = Z * Z; Z3 = Z * Z2; W2 = W * W; W3 = W * W2;
          Pre = (if use_pres_floor s then PRES_FLOOR else (D / W) * (Z / (D * W) - 1) * gamf);
          f1 = - S2 + (Z + B2) * (Z + B2) * (W2 - 1) / W2 - (2 * Z + B2) * BS2 / Z2;
          f2 = - Tau + Z + B2 - Pre - (1 / 2) * B2 / W2 - (1 / 2) * BS2 / Z2 - D;
          df1dZ = 2 * (B2 + Z) * (BS2 * W2 + (W2 - 1) * Z3) / (W2 * Z3);
          df1dW = 2 * (B2 + Z) * (B2 + Z) / W3;
          df2dZ = 1 + BS2 / Z3 - gamf / W2;
          df2dW = B2 / W3 + (2 * Z - D * W) / W3 * gamf;
          G = invert_2by2_matrix ((df1dZ, df1dW), (df2dZ, df2dW));
          dZ = fst (fst G) * f1 + snd (fst G) * f2;
          dW = fst (snd G) * f1 + snd (snd G) * f2;
          Z_new = Z - dZ;
          W_new = W - dW;
          Z_new = (if Z_new > smlZ then Z_new else - Z_new);
          Z_new = (if Z_new < bigZ then Z_new else Z);
          W_new = (if W_new > smlW then W_new else smlW);
          W_new = (if W_new < bigW then W_new else bigW)
      in (Pre, dZ, dW, Z_new, W_new))"

text \<open>The test \<^verbatim>\<open>fabs(dZ/Z) + fabs(dW/W) < ERROR_TOLR\<close> of the round that starts at \<open>s\<close>.\<close>

definition newton_tolerance_met :: "engine \<Rightarrow> real list \<Rightarrow> newton \<Rightarrow> bool" where
  "newton_tolerance_met st U s =
     (case newton_update st U s of (Pre, dZ, dW, Z_new, W_new) \<Rightarrow>
        abs (dZ / Z_new) + abs (dW / W_new) < ERROR_TOLR)"

definition newton_Pre :: "engine \<Rightarrow> real list \<Rightarrow> newton \<Rightarrow> real" where
  "newton_Pre st U s = fst (newton_update st U s)"

text \<open>One round of the loop.\<close>

definition newton_body :: "engine \<Rightarrow> real list \<Rightarrow> real list \<Rightarrow> newton \<Rightarrow> newton" where
  "newton_body st U P s =
     (case newton_update st U s of (Pre, dZ, dW, Z_new, W_new) \<Rightarrow>
        let s1 = s\<lparr>Z_var := Z_new, W_var := W_new\<rparr>;
            s2 = (if abs (dZ / Z_new) + abs (dW / W_new) < ERROR_TOLR
                  then (if Pre \<ge> PRES_FLOOR then s1\<lparr>soln_found := True\<rparr>
                        else s1\<lparr>n_iter := 0, use_pres_floor := True,
                                W_var := newton_W_start st U P,
                                Z_var := newton_Z_start st U P\<rparr>)
                  else s1)
        in if n_iter s2 = NEWTON_MAX_ITER
           then (if Pre < PRES_FLOOR
                 then s2\<lparr>n_iter := 0, use_pres_floor := True,
                         W_var := newton_W_start st U P,
                         Z_var := newton_Z_start st U P\<rparr>
                 else s2\<lparr>n_iter := n_iter s2 + 1, returned := True\<rparr>)
           else s2\<lparr>n_iter := n_iter s2 + 1\<rparr>)"

text \<open>
  The loop \<^verbatim>\<open>while (!soln_found)\<close>, left also by \<^verbatim>\<open>return 1\<close>; \<open>None\<close> if it never
  ends.
\<close>

definition newton_loop :: "engine \<Rightarrow> real list \<Rightarrow> real list \<Rightarrow> newton option" where
  "newton_loop st U P =
     while_option (\<lambda>s. \<not> soln_found s \<and> \<not> returned s) (newton_body st U P)
       (newton_start st U P)"

text \<open>
  \<^verbatim>\<open>cons_to_prim_point\<close> returns its \<^verbatim>\<open>int\<close>, the contents of \<^verbatim>\<open>P\<close> and the globals.
\<close>

definition cons_to_prim_point ::
  "engine \<Rightarrow> real list \<Rightarrow> real list \<Rightarrow> error + (int \<times> real list \<times> engine)" where
  "cons_to_prim_point st U P =
     (case newton_loop st U P of
        None \<Rightarrow> Inl LoopDiverges
      | Some s \<Rightarrow>
          if returned s then Inr (1, P, st)
          else
            let gamf = (adiabatic_gamma (lib_state st) - 1) / adiabatic_gamma (lib_state st);
                D = U ! ddd;
                B2 = U ! Bx * U ! Bx + U ! By * U ! By + U ! Bz * U ! Bz;
                BS = U ! Bx * U ! Sx + U ! By * U ! Sy + U ! Bz * U ! Sz;
                Z = Z_var s; W = W_var s;
                b0 = BS * W / Z;
                P' = [ D / W,
                       (if use_pres_floor s then PRES_FLOOR
                        else (D / W) * (Z / (D * W) - 1) * gamf),
                       (U ! Sx + b0 * U ! Bx / W) / (Z + B2),
                       (U ! Sy + b0 * U ! By / W) / (Z + B2),
                       (U ! Sz + b0 * U ! Bz / W) / (Z + B2),
                       U ! Bx, U ! By, U ! Bz ];
                st' = st\<lparr> lib_state := (lib_state st)
                            \<lparr>cons_to_prim_iter :=
                               cons_to_prim_iter (lib_state st) + n_iter s\<rparr>,
                          cons_to_prim_last_W := W \<rparr>
            in Inr (0, P', st'))"

subsection \<open>Loops over a grid\<close>

text \<open>
  \<^verbatim>\<open>for (i = lo; i < hi; i += step) body\<close>. Every loop of the source steps by 1 or by 8;
  the test \<open>0 < step\<close> only makes the function total.
\<close>

function for_loop :: "int \<Rightarrow> int \<Rightarrow> int \<Rightarrow> (int \<Rightarrow> 's \<Rightarrow> 's) \<Rightarrow> 's \<Rightarrow> 's" where
  "for_loop i hi step body s =
     (if i < hi \<and> 0 < step then for_loop (i + step) hi step body (body i s) else s)"
  by pat_completeness auto
termination
  by (relation "measure (\<lambda>(i, hi, step, body, s). nat (hi - i))") auto

declare for_loop.simps [simp del]

text \<open>
  \<^verbatim>\<open>cons_to_prim_array\<close>. \<open>Pext\<close> is \<open>None\<close> when the pointer \<^verbatim>\<open>P\<close> is \<^verbatim>\<open>PrimitiveArray\<close>
  itself and the caller's array otherwise. The result is the failure count, the
  contents of \<^verbatim>\<open>P\<close> and the globals; in the first case the contents of \<^verbatim>\<open>P\<close> are
  those of \<^verbatim>\<open>PrimitiveArray\<close>.
\<close>

definition cons_to_prim_cell ::
  "int \<Rightarrow> array \<Rightarrow> int \<times> array \<times> engine \<Rightarrow> error + (int \<times> array \<times> engine)" where
  "cons_to_prim_cell i U x =
     (case x of (failures, P, st) \<Rightarrow>
        bind_err (cons_to_prim_point st (cell U i) (cell P i)) (\<lambda>(r, Pi, st1).
          let P1 = store_cell P i Pi
          in if mode_reconstruct (lib_state st1) = Reconstruct_PLM4Velocity \<and>
                libopstate st1 = LibraryOperation_Alive
             then
               let W = cons_to_prim_last_W st1
               in Inr (failures + r, P1,
                       st1\<lparr> lib_ux := (lib_ux st1)(i div 8 := W * Pi ! vx),
                            lib_uy := (lib_uy st1)(i div 8 := W * Pi ! vy),
                            lib_uz := (lib_uz st1)(i div 8 := W * Pi ! vz) \<rparr>)
             else Inr (failures + r, P1, st1)))"

definition cons_to_prim_array ::
  "engine \<Rightarrow> array \<Rightarrow> array option \<Rightarrow> int \<Rightarrow> error + (int \<times> array \<times> engine)" where
  "cons_to_prim_array st U Pext N =
     (let P0 = (case Pext of
                  None \<Rightarrow> PrimitiveArray st
                | Some A \<Rightarrow>
                    if libopstate st = LibraryOperation_Alive
                    then (\<lambda>j. if 0 \<le> j \<and> j < stride st ! 0 then PrimitiveArray st j else A j)
                    else A)
      in bind_err
           (for_loop 0 (N * 8) 8 (\<lambda>i x. bind_err x (cons_to_prim_cell i U)) (Inr (0, P0, st)))
           (\<lambda>(failures, P, st1).
              Inr (failures, P,
                   case Pext of None \<Rightarrow> st1\<lparr>PrimitiveArray := P\<rparr> | Some A \<Rightarrow> st1)))"

definition prim_to_cons_array :: "engine \<Rightarrow> array \<Rightarrow> array \<Rightarrow> int \<Rightarrow> array" where
  "prim_to_cons_array st P U N =
     for_loop 0 (N * 8) 8 (\<lambda>i U1. store_cell U1 i (prim_to_cons_point st (cell P i))) U"

subsection \<open>Memory read before it is written\<close>

text \<open>
  The local array \<^verbatim>\<open>U_star\<close> of \<^verbatim>\<open>Fiph\<close>, the buffers \<^verbatim>\<open>constraint_transport_2d\<close> and
  \<^verbatim>\<open>constraint_transport_3d\<close> take from \<^verbatim>\<open>malloc\<close>, and the buffers \<^verbatim>\<open>initialize\<close> takes
  from \<^verbatim>\<open>malloc\<close> hold whatever the memory held; these contents are parameters.
\<close>

record garbage =
  mem_U_star :: "real list"
  mem_FxBy :: array
  mem_FxBz :: array
  mem_FyBz :: array
  mem_FyBx :: array
  mem_FzBx :: array
  mem_FzBy :: array
  mem_PrimitiveArray :: array
  mem_FluxInterArray_x :: array
  mem_FluxInterArray_y :: array
  mem_FluxInterArray_z :: array
  mem_lib_ux :: array
  mem_lib_uy :: array
  mem_lib_uz :: array

subsection \<open>Lifecycle\<close>

text \<open>
  \<^verbatim>\<open>initialize\<close>; \<^verbatim>\<open>Nx - 2*Ng\<close> is an \<^verbatim>\<open>int\<close> converted to \<^verbatim>\<open>double\<close> for the division.
  \<^verbatim>\<open>finalize\<close> frees the buffers, whose contents the record keeps.
\<close>

definition initialize ::
  "garbage \<Rightarrow> engine \<Rightarrow> array \<Rightarrow> int \<Rightarrow> int \<Rightarrow> int \<Rightarrow> real \<Rightarrow> real \<Rightarrow> real \<Rightarrow> int \<Rightarrow> engine" where
  "initialize gb st P Nx Ny Nz Lx Ly Lz q =
     (let Ng = 2 :: int
      in st\<lparr> quiet := q,
             libopstate := LibraryOperation_Alive,
             stride := [Nx * Ny * Nz * 8, Ny * Nz * 8, Nz * 8, 8],
             dimension := Dim1,
             dx := Lx / real_of_int (Nx - 2 * Ng),
             dy := Ly / real_of_int (Ny - 2 * Ng),
             dz := Lz / real_of_int (Nz - 2 * Ng),
             PrimitiveArray :=
               (\<lambda>j. if 0 \<le> j \<and> j < Nx * Ny * Nz * 8 then P j else mem_PrimitiveArray gb j),
             FluxInterArray_x := mem_FluxInterArray_x gb,
             FluxInterArray_y := mem_FluxInterArray_y gb,
             FluxInterArray_z := mem_FluxInterArray_z gb,
             lib_ux := mem_lib_ux gb,
             lib_uy := mem_lib_uy gb,
             lib_uz := mem_lib_uz gb \<rparr>)"

definition finalize :: "engine \<Rightarrow> engine" where
  "finalize st = st\<lparr>libopstate := LibraryOperation_Dead\<rparr>"

subsection \<open>The interface-flux sweep\<close>

text \<open>One round of the main loop of \<^verbatim>\<open>Fiph\<close>, on the globals and the flux array.\<close>

definition Fiph_cell ::
  "externals \<Rightarrow> garbage \<Rightarrow> array \<Rightarrow> int \<Rightarrow> engine \<times> array \<Rightarrow> error + (engine \<times> array)" where
  "Fiph_cell ext gb P i x =
     (case x of (st, F) \<Rightarrow>
        let S = stride_dim st
        in bind_err
             (case mode_reconstruct (lib_state st) of
                Reconstruct_PiecewiseConstant \<Rightarrow> Inr (cell P i, cell P (i + S))
              | Reconstruct_PLM3Velocity \<Rightarrow> reconstruct_use_3vel st P i
              | Reconstruct_PLM4Velocity \<Rightarrow>
                  reconstruct_use_4vel st P i (lib_ux st) (lib_uy st) (lib_uz st) (i div 8))
             (\<lambda>(Pl, Pr).
                case mode_riemann_solver (lib_state st) of
                  RiemannSolver_HLL \<Rightarrow>
                    (case hll_flux ext st Pl Pr (mem_U_star gb) (cell F i) 0 of
                       (st', U_star, Fi) \<Rightarrow> Inr (st', store_cell F i Fi))
                | RiemannSolver_HLLC \<Rightarrow>
                    (case hllc_flux ext st Pl Pr 0 of
                       (U_star, Fi) \<Rightarrow> Inr (st, store_cell F i Fi))))"

text \<open>\<^verbatim>\<open>Fiph\<close> returns the globals and the contents of \<^verbatim>\<open>F\<close>.\<close>

definition Fiph ::
  "externals \<Rightarrow> garbage \<Rightarrow> engine \<Rightarrow> array \<Rightarrow> array \<Rightarrow> error + (engine \<times> array)" where
  "Fiph ext gb st P F =
     (let S = stride_dim st;
          F1 = for_loop 0 S 1 (\<lambda>i F. F(i := 0)) F
      in bind_err
           (for_loop S (stride st ! 0 - S * 2) 8 (\<lambda>i x. bind_err x (Fiph_cell ext gb P i))
              (Inr (st, F1)))
           (\<lambda>(st', F2).
              Inr (st', for_loop (stride st ! 0 - S * 2) (stride st ! 0) 1 (\<lambda>i F. F(i := 0)) F2)))"

subsection \<open>Constrained transport\<close>

text \<open>
  The seven-sample average \<^verbatim>\<open>(2*F[0]+F[a]+F[-a]-G[0]-G[b]-G[-a]-G[b-a])*0.125\<close> with
  \<^verbatim>\<open>F\<close> and \<^verbatim>\<open>G\<close> the arrays \<open>A\<close> and \<open>B\<close> at offsets \<open>iA\<close> and \<open>iB\<close>.
\<close>

definition ct_average :: "array \<Rightarrow> int \<Rightarrow> array \<Rightarrow> int \<Rightarrow> int \<Rightarrow> int \<Rightarrow> real" where
  "ct_average A iA B iB a b =
     (2 * A iA + A (iA + a) + A (iA - a) - B iB - B (iB + b) - B (iB - a) - B (iB + b - a))
       * (1 / 8)"

definition constraint_transport_2d ::
  "garbage \<Rightarrow> engine \<Rightarrow> array \<Rightarrow> array \<Rightarrow> array \<times> array" where
  "constraint_transport_2d gb st Fx Fy =
     (let sx = stride st ! 1; sy = stride st ! 2;
          (FxBy, FyBx) =
            for_loop sx (stride st ! 0 - sx) 8
              (\<lambda>i (FxBy, FyBx).
                 ( FxBy(i div 8 := ct_average Fx (int By + i) Fy (int Bx + i) sy sx),
                   FyBx(i div 8 := ct_average Fy (int Bx + i) Fx (int By + i) sx sy) ))
              (mem_FxBy gb, mem_FyBx gb)
      in for_loop 0 (stride st ! 0) 8
           (\<lambda>i (Fx, Fy).
              ( Fx(i + int Bx := 0, i + int By := FxBy (i div 8)),
                Fy(i + int Bx := FyBx (i div 8), i + int By := 0) ))
           (Fx, Fy))"

definition constraint_transport_3d ::
  "garbage \<Rightarrow> engine \<Rightarrow> array \<Rightarrow> array \<Rightarrow> array \<Rightarrow> array \<times> array \<times> array" where
  "constraint_transport_3d gb st Fx Fy Fz =
     (let sx = stride st ! 1; sy = stride st ! 2; sz = stride st ! 3;
          (FxBy, FyBx, FyBz, FzBy, FzBx, FxBz) =
            for_loop sx (stride st ! 0 - sx) 8
              (\<lambda>i (FxBy, FyBx, FyBz, FzBy, FzBx, FxBz).
                 ( FxBy(i div 8 := ct_average Fx (int By + i) Fy (int Bx + i) sy sx),
                   FyBx(i div 8 := ct_average Fy (int Bx + i) Fx (int By + i) sx sy),
                   FyBz(i div 8 := ct_average Fy (int Bz + i) Fz (int By + i) sz sy),
                   FzBy(i div 8 := ct_average Fz (int By + i) Fy (int Bz + i) sy sz),
                   FzBx(i div 8 := ct_average Fz (int Bx + i) Fx (int Bz + i) sx sz),
                   FxBz(i div 8 := ct_average Fx (int Bz + i) Fz (int Bx + i) sz sx) ))
              (mem_FxBy gb, mem_FyBx gb, mem_FyBz gb, mem_FzBy gb, mem_FzBx gb, mem_FxBz gb)
      in for_loop 0 (stride st ! 0) 8
           (\<lambda>i (Fx, Fy, Fz).
              ( Fx(i + int Bx := 0, i + int By := FxBy (i div 8), i + int Bz := FxBz (i div 8)),
                Fy(i + int Bx := FyBx (i div 8), i + int By := 0, i + int Bz := FyBz (i div 8)),
                Fz(i + int Bx := FzBx (i div 8), i + int By := FzBy (i div 8), i + int Bz := 0) ))
           (Fx, Fy, Fz))"

subsection \<open>The derivative entry points\<close>

text \<open>
  Each returns its \<^verbatim>\<open>int\<close>, the contents of \<^verbatim>\<open>L\<close> and the globals. \<^verbatim>\<open>P\<close> is
  \<^verbatim>\<open>PrimitiveArray\<close> and \<^verbatim>\<open>F\<close>, \<^verbatim>\<open>G\<close>, \<^verbatim>\<open>H\<close> are the three flux buffers, which are
  written in place; \<^verbatim>\<open>L\<close> is the caller's array.

  The loops of these functions, of \<^verbatim>\<open>Fiph\<close> and of the constraint transport do not depend
  on the values they compute. Where a slope-limiter call divides by zero the C program
  carries values that are no numbers through the rest of the call and its loops run as
  ever; the model does not follow such values. An entry of \<^verbatim>\<open>L\<close> is \<open>Some x\<close> for the number
  \<open>x\<close> and \<open>None\<close> for a value that is no number or that the model does not follow: after a
  division by zero in a sweep the sweeps that remain are skipped, the last loop stores
  \<open>None\<close> at every index it assigns, and the globals are \<open>None\<close>. The last loop divides by
  \<^verbatim>\<open>dx\<close>, \<^verbatim>\<open>dy\<close>, \<^verbatim>\<open>dz\<close>, and stores \<open>None\<close> where one of them is zero. A call through the
  null limiter pointer stops the call.
\<close>

type_synonym partial_array = "int \<Rightarrow> real option"

definition not_followed ::
  "engine \<Rightarrow> int \<Rightarrow> array \<Rightarrow> int \<times> partial_array \<times> engine option" where
  "not_followed st failures L =
     (failures,
      for_loop (stride st ! 1) (stride st ! 0) 1 (\<lambda>i L. L(i := None)) (\<lambda>j. Some (L j)),
      None)"

definition sweep ::
  "error + (engine \<times> array) \<Rightarrow> (engine \<times> array \<Rightarrow> error + 'a) \<Rightarrow> 'a \<Rightarrow> error + 'a" where
  "sweep m f nan =
     (case m of
        Inr x \<Rightarrow> f x
      | Inl DivisionByZero \<Rightarrow> Inr nan
      | Inl NullFunctionPointer \<Rightarrow> Inl NullFunctionPointer
      | Inl LoopDiverges \<Rightarrow> Inl LoopDiverges)"

definition dUdt_1d ::
  "externals \<Rightarrow> garbage \<Rightarrow> engine \<Rightarrow> array \<Rightarrow> array \<Rightarrow>
     error + (int \<times> partial_array \<times> engine option)" where
  "dUdt_1d ext gb st U L =
     (if libopstate st = LibraryOperation_Dead then Inr (1, (\<lambda>j. Some (L j)), Some st)
      else
        bind_err (cons_to_prim_array st U None (stride st ! 0 div 8)) (\<lambda>(failures, P, st1).
        sweep (Fiph ext gb (st1\<lparr>dimension := Dim1\<rparr>) P
                 (FluxInterArray_x (st1\<lparr>dimension := Dim1\<rparr>))) (\<lambda>(st2, F).
          let st3 = st2\<lparr>FluxInterArray_x := F\<rparr>;
              S = stride_dim st3
          in Inr (failures,
                  for_loop S (stride st3 ! 0) 1
                    (\<lambda>i L. L(i := if dx st3 = 0 then None
                                    else Some (- (F i - F (i - S)) / dx st3)))
                    (\<lambda>j. Some (L j)),
                  Some st3))
          (not_followed st1 failures L)))"

definition dUdt_2d ::
  "externals \<Rightarrow> garbage \<Rightarrow> engine \<Rightarrow> array \<Rightarrow> array \<Rightarrow>
     error + (int \<times> partial_array \<times> engine option)" where
  "dUdt_2d ext gb st U L =
     (if libopstate st = LibraryOperation_Dead then Inr (1, (\<lambda>j. Some (L j)), Some st)
      else
        let sx = stride st ! 1; sy = stride st ! 2
        in
        bind_err (cons_to_prim_array st U None (stride st ! 0 div 8)) (\<lambda>(failures, P, st1).
        sweep (Fiph ext gb (st1\<lparr>dimension := Dim1\<rparr>) P
                 (FluxInterArray_x (st1\<lparr>dimension := Dim1\<rparr>))) (\<lambda>(st2, F).
        sweep (Fiph ext gb (st2\<lparr>dimension := Dim2\<rparr>) P
                 (FluxInterArray_y (st2\<lparr>dimension := Dim2\<rparr>))) (\<lambda>(st3, G).
          let (F, G) = constraint_transport_2d gb st3 F G;
              st4 = st3\<lparr>FluxInterArray_x := F, FluxInterArray_y := G\<rparr>
          in Inr (failures,
                  for_loop sx (stride st4 ! 0) 1
                    (\<lambda>i L. L(i := if dx st4 = 0 \<or> dy st4 = 0 then None
                                    else Some (- (F i - F (i - sx)) / dx st4
                                               - (G i - G (i - sy)) / dy st4)))
                    (\<lambda>j. Some (L j)),
                  Some st4))
          (not_followed st1 failures L))
          (not_followed st1 failures L)))"

definition dUdt_3d ::
  "externals \<Rightarrow> garbage \<Rightarrow> engine \<Rightarrow> array \<Rightarrow> array \<Rightarrow>
     error + (int \<times> partial_array \<times> engine option)" where
  "dUdt_3d ext gb st U L =
     (if libopstate st = LibraryOperation_Dead then Inr (1, (\<lambda>j. Some (L j)), Some st)
      else
        let sx = stride st ! 1; sy = stride st ! 2; sz = stride st ! 3
        in
        bind_err (cons_to_prim_array st U None (stride st ! 0 div 8)) (\<lambda>(failures, P, st1).
        sweep (Fiph ext gb (st1\<lparr>dimension := Dim1\<rparr>) P
                 (FluxInterArray_x (st1\<lparr>dimension := Dim1\<rparr>))) (\<lambda>(st2, F).
        sweep (Fiph ext gb (st2\<lparr>dimension := Dim2\<rparr>) P
                 (FluxInterArray_y (st2\<lparr>dimension := Dim2\<rparr>))) (\<lambda>(st3, G).
        sweep (Fiph ext gb (st3\<lparr>dimension := Dim3\<rparr>) P
                 (FluxInterArray_z (st3\<lparr>dimension := Dim3\<rparr>))) (\<lambda>(st4, H).
          let (F, G, H) = constraint_transport_3d gb st4 F G H;
              st5 = st4\<lparr>FluxInterArray_x := F, FluxInterArray_y := G, FluxInterArray_z := H\<rparr>
          in Inr (failures,
                  for_loop sx (stride st5 ! 0) 1
                    (\<lambda>i L. L(i := if dx st5 = 0 \<or> dy st5 = 0 \<or> dz st5 = 0 then None
                                    else Some (- (F i - F (i - sx)) / dx st5
                                               - (G i - G (i - sy)) / dy st5
                                               - (H i - H (i - sz)) / dz st5)))
                    (\<lambda>j. Some (L j)),
                  Some st5))
          (not_followed st1 failures L))
          (not_followed st1 failures L))
          (not_followed st1 failures L)))"

text \<open>The two signal-speed bounds \<^verbatim>\<open>ap\<close> and \<^verbatim>\<open>am\<close> that \<^verbatim>\<open>hll_flux\<close> forms.\<close>

definition hll_ap :: "externals \<Rightarrow> engine \<Rightarrow> real list \<Rightarrow> real list \<Rightarrow> real" where
  "hll_ap ext st pl pr =
     (let epl = fst (snd (rmhd_flux_and_eval ext st (prim_to_cons_point st pl) pl));
          epr = fst (snd (rmhd_flux_and_eval ext st (prim_to_cons_point st pr) pr))
      in if epl > epr then epl else epr)"

definition hll_am :: "externals \<Rightarrow> engine \<Rightarrow> real list \<Rightarrow> real list \<Rightarrow> real" where
  "hll_am ext st pl pr =
     (let eml = snd (snd (rmhd_flux_and_eval ext st (prim_to_cons_point st pl) pl));
          emr = snd (snd (rmhd_flux_and_eval ext st (prim_to_cons_point st pr) pr))
      in if eml < emr then eml else emr)"

section \<open>Example inputs\<close>

text \<open>
  The globals as the C program starts with them: \<^verbatim>\<open>lib_state\<close> from its initialiser,
  everything else zero, the function pointer null. The buffer pointers are null as
  well; the record holds all-zero arrays for them.
\<close>

definition engine_start :: engine where
  "engine_start =
     \<lparr> lib_state = lib_state_init, libopstate = LibraryOperation_Dead, quiet = 0,
       dimension = Dim1, stride = [0, 0, 0, 0], dx = 0, dy = 0, dz = 0,
       cons_to_prim_last_W = 0, slope_limiter = None,
       PrimitiveArray = (\<lambda>_. 0), FluxInterArray_x = (\<lambda>_. 0), FluxInterArray_y = (\<lambda>_. 0),
       FluxInterArray_z = (\<lambda>_. 0), lib_ux = (\<lambda>_. 0), lib_uy = (\<lambda>_. 0), lib_uz = (\<lambda>_. 0) \<rparr>"

text \<open>Stand-ins for the routines rmhd.c does not define, for inputs that never call them.\<close>

definition ext_unused :: externals where
  "ext_unused =
     \<lparr> solve_quartic_equation =
         (\<lambda>q. \<lparr>nr = 0, r1 = 0, r2 = 0, r3 = 0, r4 = 0, nr12 = 0, nr34 = 0\<rparr>),
       solve_quartic_approx1 = (\<lambda>q x. x),
       solve_quartic_approx2 = (\<lambda>q x. x),
       hllc_flux = (\<lambda>st pl pr s. (pl, pr)) \<rparr>"

text \<open>A quartic solver whose roots are faster than light.\<close>

definition ext_fast :: externals where
  "ext_fast =
     \<lparr> solve_quartic_equation =
         (\<lambda>q. \<lparr>nr = 4, r1 = - 3, r2 = 2, r3 = 0, r4 = 1 / 2, nr12 = 2, nr34 = 2\<rparr>),
       solve_quartic_approx1 = (\<lambda>q x. x),
       solve_quartic_approx2 = (\<lambda>q x. x),
       hllc_flux = (\<lambda>st pl pr s. (pl, pr)) \<rparr>"

text \<open>The default configuration with the trivial signal-speed bound, set by \<^verbatim>\<open>set_state\<close>.\<close>

definition hll_example_state :: engine where
  "hll_example_state =
     set_state engine_start (lib_state_init\<lparr>mode_quartic_solver := QuarticSolver_None\<rparr>)"

text \<open>Configurations with the other two limiters, on a grid whose cells are 8 apart.\<close>

definition mc_example_state :: engine where
  "mc_example_state =
     (set_state engine_start
        (lib_state_init\<lparr>mode_slope_limiter := SlopeLimiter_MonotizedCentral\<rparr>))
       \<lparr>stride := [32, 8, 8, 8]\<rparr>"

definition harmonic_example_state :: engine where
  "harmonic_example_state =
     (set_state engine_start
        (lib_state_init\<lparr>mode_slope_limiter := SlopeLimiter_HarmonicMean\<rparr>))
       \<lparr>stride := [32, 8, 8, 8]\<rparr>"

text \<open>Four cells whose density falls 4, 3, 2, 1 and whose other slots are zero.\<close>

definition falling_density :: array where
  "falling_density = (\<lambda>j. if j mod 8 = 0 then 4 - real_of_int (j div 8) else 0)"

text \<open>A 4-velocity array at rest.\<close>

definition at_rest :: array where
  "at_rest = (\<lambda>j. 0)"

text \<open>Two states at rest that differ in density.\<close>

definition hll_left :: "real list" where
  "hll_left = [1, 1, 0, 0, 0, 0, 0, 0]"

definition hll_right :: "real list" where
  "hll_right = [2, 1, 0, 0, 0, 0, 0, 0]"

text \<open>
  Auxiliary notions for the Newton loop: a measure that every round decreases; a
  conserved state at rest without magnetic field; and the clamp of \<open>Z_new\<close>.
\<close>

definition newton_measure :: "newton \<Rightarrow> nat" where
  "newton_measure s = (if use_pres_floor s then 0 else 28) + nat (27 - n_iter s)"

definition static_cons :: "real \<Rightarrow> real \<Rightarrow> real list" where
  "static_cons D T = [D, T, 0, 0, 0, 0, 0, 0]"

definition static_Zn :: "real \<Rightarrow> real \<Rightarrow> real" where
  "static_Zn Z dZ =
     (let Zn = Z - dZ; Zn = (if Zn > 0 then Zn else - Zn) in if Zn < bigZ then Zn else Z)"

text \<open>The default configuration with the fresh estimate switched on.\<close>

definition est_state :: engine where
  "est_state = set_state engine_start (lib_state_init\<lparr>cons_to_prim_use_estimate := 1\<rparr>)"

text \<open>
  A hot gas at rest: density 1, pressure \<open>10^20\<close>. Its conserved form is \<open>hot_cons\<close>.
  \<open>stuck fl n\<close> are the loop variables the inversion of \<open>hot_cons\<close> never leaves.
\<close>

definition hot_state :: "real list" where
  "hot_state = [1, 10 ^ 20, 0, 0, 0, 0, 0, 0]"

definition hot_cons :: "real list" where
  "hot_cons = static_cons 1 (25 * 10 ^ 19)"

definition stuck :: "bool \<Rightarrow> int \<Rightarrow> newton" where
  "stuck fl n = \<lparr> use_pres_floor = fl, soln_found = False, n_iter = n, Z_var = 1, W_var = 1,
                  returned = False \<rparr>"

text \<open>
  Cold dust at rest, \<open>D = 2 * 10^-7\<close> and \<open>tau = 0\<close>, with adiabatic index \<open>7/4\<close> and the
  fresh estimate: \<open>cb_round j\<close> are the loop variables at the start of round \<open>j\<close> of the
  pressure-floor phase, \<open>cb_last\<close> those after 25 rounds of the loop in all.
\<close>

definition cb_state :: engine where
  "cb_state = set_state engine_start
     (lib_state_init\<lparr>cons_to_prim_use_estimate := 1, adiabatic_gamma := 7 / 4\<rparr>)"

definition cb_cons :: "real list" where
  "cb_cons = static_cons (2 / 10 ^ 7) 0"

definition cb_guess :: "real list" where
  "cb_guess = [1, 1, 0, 0, 0, 0, 0, 0]"

definition cb_Z :: "nat \<Rightarrow> real" where
  "cb_Z j = 2 / 10 ^ 7 + PRES_FLOOR * (1 - (- 3 / 4) ^ j)"

definition cb_round :: "nat \<Rightarrow> newton" where
  "cb_round j = \<lparr> use_pres_floor = True, soln_found = False, n_iter = int j + 1,
                  Z_var = cb_Z j, W_var = 1, returned = False \<rparr>"

definition cb_last :: newton where
  "cb_last =
     (newton_body cb_state cb_cons cb_guess ^^ 25) (newton_start cb_state cb_cons cb_guess)"

text \<open>Memory that holds zeros wherever the program reads it before writing it.\<close>

definition zero_memory :: garbage where
  "zero_memory =
     \<lparr> mem_U_star = [0, 0, 0, 0, 0, 0, 0, 0],
       mem_FxBy = (\<lambda>_. 0), mem_FxBz = (\<lambda>_. 0), mem_FyBz = (\<lambda>_. 0), mem_FyBx = (\<lambda>_. 0),
       mem_FzBx = (\<lambda>_. 0), mem_FzBy = (\<lambda>_. 0), mem_PrimitiveArray = (\<lambda>_. 0),
       mem_FluxInterArray_x = (\<lambda>_. 0), mem_FluxInterArray_y = (\<lambda>_. 0),
       mem_FluxInterArray_z = (\<lambda>_. 0),
       mem_lib_ux = (\<lambda>_. 0), mem_lib_uy = (\<lambda>_. 0), mem_lib_uz = (\<lambda>_. 0) \<rparr>"

text \<open>The fields the inversion pass changes.\<close>

definition touch :: "engine \<Rightarrow> int \<Rightarrow> real \<Rightarrow> array \<Rightarrow> array \<Rightarrow> array \<Rightarrow> engine" where
  "touch st it w ux uy uz =
     st\<lparr> lib_state := (lib_state st)\<lparr>cons_to_prim_iter := it\<rparr>, cons_to_prim_last_W := w,
         lib_ux := ux, lib_uy := uy, lib_uz := uz \<rparr>"

text \<open>The outcome of the inversion of one cell that does not depend on the fields above.\<close>

definition invert :: "engine \<Rightarrow> real list \<Rightarrow> real list \<Rightarrow> int \<times> real list \<times> int \<times> real" where
  "invert st U P =
     (case cons_to_prim_point st U P of
        Inr (r, P', st') \<Rightarrow>
          (r, P', cons_to_prim_iter (lib_state st') - cons_to_prim_iter (lib_state st),
           cons_to_prim_last_W st')
      | Inl e \<Rightarrow> (1, P, 0, cons_to_prim_last_W st))"

definition array_guess :: "engine \<Rightarrow> array option \<Rightarrow> array" where
  "array_guess st Pext =
     (case Pext of
        None \<Rightarrow> PrimitiveArray st
      | Some A \<Rightarrow>
          if libopstate st = LibraryOperation_Alive
          then (\<lambda>j. if 0 \<le> j \<and> j < stride st ! 0 then PrimitiveArray st j else A j)
          else A)"

definition pass_inv ::
  "engine \<Rightarrow> array \<Rightarrow> array \<Rightarrow> int \<Rightarrow> int \<Rightarrow> error + (int \<times> array \<times> engine) \<Rightarrow> bool" where
  "pass_inv st U P0 N i x =
     (i mod 8 = 0 \<and> 0 \<le> i \<and> i \<le> 8 * max N 0 \<and>
      (\<exists>f P it w ux uy uz. x = Inr (f, P, touch st it w ux uy uz) \<and>
         (\<forall>j. i \<le> j \<longrightarrow> P j = P0 j) \<and>
         f = (\<Sum>c = 0..<nat (i div 8).
                fst (invert st (cell U (8 * int c)) (cell P0 (8 * int c))))))"

definition lam :: "engine \<Rightarrow> real \<Rightarrow> engine" where
  "lam st m = st\<lparr>lib_state := (lib_state st)\<lparr>max_lambda := m\<rparr>\<rparr>"

definition interface_flux :: "externals \<Rightarrow> engine \<Rightarrow> array \<Rightarrow> int \<Rightarrow> error + real list" where
  "interface_flux ext st P i =
     bind_err
       (case mode_reconstruct (lib_state st) of
          Reconstruct_PiecewiseConstant \<Rightarrow> Inr (cell P i, cell P (i + stride_dim st))
        | Reconstruct_PLM3Velocity \<Rightarrow> reconstruct_use_3vel st P i
        | Reconstruct_PLM4Velocity \<Rightarrow>
            reconstruct_use_4vel st P i (lib_ux st) (lib_uy st) (lib_uz st) (i div 8))
       (\<lambda>(Pl, Pr).
          case mode_riemann_solver (lib_state st) of
            RiemannSolver_HLL \<Rightarrow> Inr (snd (snd (hll_flux ext st Pl Pr [] [] 0)))
          | RiemannSolver_HLLC \<Rightarrow> Inr (snd (hllc_flux ext st Pl Pr 0)))"

definition sweep_array :: "(int \<Rightarrow> real list) \<Rightarrow> array \<Rightarrow> int \<Rightarrow> int \<Rightarrow> array" where
  "sweep_array g F1 S i =
     (\<lambda>j. if S \<le> j \<and> j < i then g (j - j mod 8) ! nat (j mod 8) else F1 j)"

definition sweep_inv ::
  "engine \<Rightarrow> (int \<Rightarrow> real list) \<Rightarrow> array \<Rightarrow> int \<Rightarrow> int \<Rightarrow> int \<Rightarrow> error + (engine \<times> array) \<Rightarrow> bool" where
  "sweep_inv st g F1 S hi i x =
     (i mod 8 = 0 \<and> S \<le> i \<and> i \<le> max S hi \<and>
      (\<exists>m. x = Inr (lam st m, sweep_array g F1 S i)))"

definition weak_inv :: "engine \<Rightarrow> error + (engine \<times> array) \<Rightarrow> bool" where
  "weak_inv st x = (\<forall>st' F. x = Inr (st', F) \<longrightarrow> (\<exists>m. st' = lam st m))"

text \<open>
  Configurations whose reconstruction cannot fail: piecewise constant, or a limiter that
  does not divide.
\<close>

definition limiter_total :: "engine \<Rightarrow> bool" where
  "limiter_total st =
     (mode_reconstruct (lib_state st) = Reconstruct_PiecewiseConstant \<or>
      slope_limiter st = Some Ptr_plm_minmod \<or> slope_limiter st = Some Ptr_MC_limiter)"

definition total_inv :: "engine \<Rightarrow> error + (engine \<times> array) \<Rightarrow> bool" where
  "total_inv st x = (\<exists>m F. x = Inr (lam st m, F))"

text \<open>
  What a derivative entry point leaves at one index of \<^verbatim>\<open>L\<close>, what it returns, and the
  globals it leaves.
\<close>

definition output_at ::
  "error + (int \<times> partial_array \<times> engine option) \<Rightarrow> int \<Rightarrow> real option" where
  "output_at res j = (case res of Inl e \<Rightarrow> None | Inr (r, L, so) \<Rightarrow> L j)"

definition failures_of :: "error + (int \<times> partial_array \<times> engine option) \<Rightarrow> int option" where
  "failures_of res = (case res of Inl e \<Rightarrow> None | Inr (r, L, so) \<Rightarrow> Some r)"

definition globals_of ::
  "error + (int \<times> partial_array \<times> engine option) \<Rightarrow> engine option" where
  "globals_of res = (case res of Inl e \<Rightarrow> None | Inr (r, L, so) \<Rightarrow> so)"

definition returns :: "error + (int \<times> partial_array \<times> engine option) \<Rightarrow> bool" where
  "returns res = (case res of Inl e \<Rightarrow> False | Inr x \<Rightarrow> True)"

text \<open>
  The expressions the last loops of \<^verbatim>\<open>dUdt_1d\<close>, \<^verbatim>\<open>dUdt_2d\<close> and \<^verbatim>\<open>dUdt_3d\<close> store in \<^verbatim>\<open>L[i]\<close>,
  over the flux buffers, the strides and the cell sizes of the globals \<open>s\<close>.
\<close>

definition stored_1d :: "engine \<Rightarrow> int \<Rightarrow> real option" where
  "stored_1d s i =
     (if dx s = 0 then None
      else Some (- (FluxInterArray_x s i - FluxInterArray_x s (i - stride s ! 1)) / dx s))"

definition stored_2d :: "engine \<Rightarrow> int \<Rightarrow> real option" where
  "stored_2d s i =
     (if dx s = 0 \<or> dy s = 0 then None
      else Some (- (FluxInterArray_x s i - FluxInterArray_x s (i - stride s ! 1)) / dx s
                 - (FluxInterArray_y s i - FluxInterArray_y s (i - stride s ! 2)) / dy s))"

definition stored_3d :: "engine \<Rightarrow> int \<Rightarrow> real option" where
  "stored_3d s i =
     (if dx s = 0 \<or> dy s = 0 \<or> dz s = 0 then None
      else Some (- (FluxInterArray_x s i - FluxInterArray_x s (i - stride s ! 1)) / dx s
                 - (FluxInterArray_y s i - FluxInterArray_y s (i - stride s ! 2)) / dy s
                 - (FluxInterArray_z s i - FluxInterArray_z s (i - stride s ! 3)) / dz s))"

text \<open>
  Configurations in which no call goes through the null limiter pointer: \<^verbatim>\<open>set_state\<close> has
  run, or the reconstruction is piecewise constant.
\<close>

definition limiter_set :: "engine \<Rightarrow> bool" where
  "limiter_set st =
     (slope_limiter st \<noteq> None \<or>
      mode_reconstruct (lib_state st) = Reconstruct_PiecewiseConstant)"

text \<open>A result that is a value, or the error of a division by zero.\<close>

definition value_or_division :: "error + 'a \<Rightarrow> bool" where
  "value_or_division m = (case m of Inr x \<Rightarrow> True | Inl e \<Rightarrow> e = DivisionByZero)"

text \<open>The array whose every cell holds the 8 values \<open>q\<close>, and the array of ones.\<close>

definition uniform_field :: "real list \<Rightarrow> array" where
  "uniform_field q = (\<lambda>j. q ! nat (j mod 8))"

definition ones :: array where
  "ones = (\<lambda>j. 1)"

text \<open>
  A 1D grid of 10 cells with 2 guard cells on either side, of length 1, initialised with
  the gas at rest of density 1 and pressure 1, and the conserved field of that gas.
\<close>

definition rest_state :: "real list" where
  "rest_state = [1, 1, 0, 0, 0, 0, 0, 0]"

definition rest_grid :: engine where
  "rest_grid = initialize zero_memory est_state (uniform_field rest_state) 14 1 1 1 1 1 1"

definition rest_cons :: array where
  "rest_cons = uniform_field (prim_to_cons_point est_state rest_state)"

text \<open>
  The inversion pass over a uniform field: after the cells below \<open>i\<close>, no failure, the
  primitive array holds \<open>q\<close> in each of them and the 4-velocity arrays \<open>wq\<close> times the
  velocity of \<open>q\<close>.
\<close>

definition uniform_inv ::
  "engine \<Rightarrow> array \<Rightarrow> real list \<Rightarrow> real \<Rightarrow> int \<Rightarrow> int \<Rightarrow> error + (int \<times> array \<times> engine) \<Rightarrow> bool" where
  "uniform_inv st P0 q wq N i x =
     (i mod 8 = 0 \<and> 0 \<le> i \<and> i \<le> 8 * max N 0 \<and>
      (\<exists>P it w ux uy uz. x = Inr (0, P, touch st it w ux uy uz) \<and>
         (\<forall>j. i \<le> j \<longrightarrow> P j = P0 j) \<and>
         (\<forall>j. 0 \<le> j \<and> j < i \<longrightarrow> P j = q ! nat (j mod 8)) \<and>
         (mode_reconstruct (lib_state st) = Reconstruct_PLM4Velocity \<and>
          libopstate st = LibraryOperation_Alive \<longrightarrow>
            (\<forall>c. 0 \<le> c \<and> 8 * c < i \<longrightarrow>
               ux c = wq * q ! vx \<and> uy c = wq * q ! vy \<and> uz c = wq * q ! vz))))"

text \<open>
  The state both sides of an interface get when the primitive cells around it all hold
  \<open>q\<close> and the 4-velocity arrays hold \<open>a\<close>, \<open>b\<close>, \<open>c\<close>.
\<close>

definition flat_state :: "engine \<Rightarrow> real list \<Rightarrow> real \<Rightarrow> real \<Rightarrow> real \<Rightarrow> real list" where
  "flat_state st q a b c =
     (if mode_reconstruct (lib_state st) = Reconstruct_PLM4Velocity
      then [ q ! rho, q ! pre,
             a / sqrt (1 + a * a + b * b + c * c),
             b / sqrt (1 + a * a + b * b + c * c),
             c / sqrt (1 + a * a + b * b + c * c),
             q ! Bx, q ! By, q ! Bz ]
      else q)"

text \<open>
  What the flux sweeps need of the globals and the primitive array: the HLL solver, a
  reconstruction that cannot fail, every cell of the grid holding \<open>q\<close>, and (for the
  4-velocity reconstruction) uniform 4-velocity arrays.
\<close>

definition uniform_grid :: "engine \<Rightarrow> array \<Rightarrow> real list \<Rightarrow> bool" where
  "uniform_grid st P q =
     (mode_riemann_solver (lib_state st) = RiemannSolver_HLL \<and> limiter_total st \<and>
      stride st ! 0 mod 8 = 0 \<and> length q = 8 \<and>
      (\<forall>j. 0 \<le> j \<and> j < stride st ! 0 \<longrightarrow> P j = q ! nat (j mod 8)) \<and>
      (mode_reconstruct (lib_state st) = Reconstruct_PLM4Velocity \<longrightarrow>
         (\<exists>a b c. \<forall>k. 0 \<le> k \<and> 8 * k < stride st ! 0 \<longrightarrow>
            lib_ux st k = a \<and> lib_uy st k = b \<and> lib_uz st k = c)))"

text \<open>
  A loop over the cells \<open>lo, lo + 8, \<dots>\<close> whose round \<open>i\<close> writes the indices \<open>j\<close> with
  \<open>K j\<close> and \<open>own j = i\<close>.
\<close>

definition writes_inv ::
  "(int \<Rightarrow> bool) \<Rightarrow> (int \<Rightarrow> int) \<Rightarrow> (int \<Rightarrow> 'a) \<Rightarrow> (int \<Rightarrow> 'a) \<Rightarrow> int \<Rightarrow> int \<Rightarrow> int \<Rightarrow> (int \<Rightarrow> 'a) \<Rightarrow> bool" where
  "writes_inv K own v A0 lo hi i B =
     (i mod 8 = 0 \<and> (i = lo \<or> i - 8 < hi) \<and>
      B = (\<lambda>j. if K j \<and> lo \<le> own j \<and> own j < i \<and> own j mod 8 = 0 then v j else A0 j))"

text \<open>
  What the constraint transport stores for cell \<open>i\<close> in the slot of one field component:
  the average it formed in its first loop, or, outside the range of that loop, what the
  buffer held.
\<close>

definition ct_value ::
  "array \<Rightarrow> array \<Rightarrow> int \<Rightarrow> array \<Rightarrow> int \<Rightarrow> int \<Rightarrow> int \<Rightarrow> engine \<Rightarrow> int \<Rightarrow> real" where
  "ct_value mem A ka B kb a b st i =
     (if stride st ! 1 \<le> i \<and> i < stride st ! 0 - stride st ! 1
      then ct_average A (ka + i) B (kb + i) a b else mem (i div 8))"

text \<open>An array whose entries between \<open>lo\<close> and \<open>hi\<close> depend on the slot only.\<close>

definition uniform_on :: "array \<Rightarrow> int \<Rightarrow> int \<Rightarrow> (int \<Rightarrow> real) \<Rightarrow> bool" where
  "uniform_on A lo hi h = (\<forall>j. lo \<le> j \<and> j < hi \<longrightarrow> A j = h (j mod 8))"

text \<open>Every cell of the first \<open>n\<close> entries of \<open>A\<close> holds the 8 values \<open>u\<close>.\<close>

definition uniform_cells :: "array \<Rightarrow> int \<Rightarrow> real list \<Rightarrow> bool" where
  "uniform_cells A n u = (\<forall>c. 0 \<le> c \<and> 8 * c < n \<longrightarrow> cell A (8 * c) = u)"

text \<open>
  The 1D grid of 10 cells with 2 guard cells on either side filled with the hot gas at rest
  (density 1, pressure \<open>10^20\<close>), and the conserved field of that gas.
\<close>

definition hot_grid :: engine where
  "hot_grid = initialize zero_memory est_state (uniform_field hot_state) 14 1 1 1 1 1 1"

definition hot_field :: array where
  "hot_field = uniform_field (prim_to_cons_point est_state hot_state)"

section \<open>Properties\<close>

subsection \<open>Shapes and sequencing\<close>

lemma upt_8: "[0..<8] = [0, 1, 2, 3, 4, 5, 6, 7]"
  by (simp add: upt_rec)

lemma map_nth_8: "length xs = 8 \<Longrightarrow> map (\<lambda>i. xs ! i) [0..<8] = xs"
  by (metis map_nth)

lemma length_prim_to_cons_point [simp]: "length (prim_to_cons_point st P) = 8"
  by (simp add: prim_to_cons_point_def Let_def)

lemma length_rmhd_flux [simp]: "length (rmhd_flux st U P) = 8"
  by (simp add: rmhd_flux_def Let_def split: axis.splits)

lemma fst_rmhd_flux_and_eval [simp]:
  "fst (rmhd_flux_and_eval ext st U P) = rmhd_flux st U P"
  by (simp add: rmhd_flux_and_eval_def Let_def split: prod.splits)

lemma bind_err_Inr: "bind_err m f = Inr y \<Longrightarrow> \<exists>x. m = Inr x \<and> f x = Inr y"
  by (cases m) (auto simp: bind_err_def)

subsection \<open>The harmonic-mean limiter\<close>

lemma harmonic_mean_error_iff: "(harmonic_mean ul u0 ur = Inl DivisionByZero) = (ur = ul)"
  by (auto simp: harmonic_mean_def Let_def)

lemma harmonic_mean_value:
  "ur \<noteq> ul \<Longrightarrow>
   harmonic_mean ul u0 ur = Inr (2 * max2 0 ((ur - u0) * (u0 - ul)) / (ur - ul))"
  by (auto simp: harmonic_mean_def Let_def)

lemma reconstruct_use_3vel_harmonic_flat:
  assumes "slope_limiter st = Some Ptr_harmonic_mean"
    and "P (i0 + 2 * stride_dim st) = P i0"
  shows "reconstruct_use_3vel st P i0 = Inl DivisionByZero"
proof -
  have u: "[0..<8] = 0 # [1..<8]" by (simp add: upt_conv_Cons)
  have h: "harmonic_mean (P i0) (P (i0 + stride_dim st)) (P (i0 + 2 * stride_dim st))
             = Inl DivisionByZero"
    using assms(2) by (simp add: harmonic_mean_error_iff)
  show ?thesis
    unfolding reconstruct_use_3vel_def Let_def u
    using assms(1) h by (simp add: bind_err_def call_slope_limiter_def)
qed

lemma reconstruct_use_4vel_harmonic_flat:
  assumes "slope_limiter st = Some Ptr_harmonic_mean"
    and "ux (iu + 2 * (stride_dim st div 8)) = ux iu"
  shows "reconstruct_use_4vel st P i0 ux uy uz iu = Inl DivisionByZero"
proof -
  have "harmonic_mean (ux iu) (ux (iu + stride_dim st div 8))
          (ux (iu + 2 * (stride_dim st div 8))) = Inl DivisionByZero"
    using assms(2) by (simp add: harmonic_mean_error_iff)
  then show ?thesis
    using assms(1) unfolding reconstruct_use_4vel_def Let_def
    by (simp add: bind_err_def call_slope_limiter_def)
qed

lemma slope_limiter_harmonic_example [simp]:
  "slope_limiter harmonic_example_state = Some Ptr_harmonic_mean"
  by (simp add: harmonic_example_state_def set_state_def lib_state_init_def)

text \<open>
  C10. \<^verbatim>\<open>harmonic_mean\<close> is not total: its result is
  \<open>2 * max2 0 ((ur - u0) * (u0 - ul)) / ((ur - u0) + (u0 - ul))\<close>, the divisor is
  \<open>ur - ul\<close> and nothing guards it, so the guarded model returns the error exactly on
  the stencils with \<open>ur = ul\<close> (every flat stencil among them); and with this limiter
  configured the error is reached through \<^verbatim>\<open>reconstruct_use_3vel\<close> on every stencil
  whose first slot agrees two cells apart.
\<close>

theorem harmonic_mean_not_total:
  "((harmonic_mean ul u0 ur = Inl DivisionByZero) = (ur = ul)) \<and>
   (ur \<noteq> ul \<longrightarrow>
      harmonic_mean ul u0 ur = Inr (2 * max2 0 ((ur - u0) * (u0 - ul)) / (ur - ul))) \<and>
   harmonic_mean a a a = Inl DivisionByZero \<and>
   (mode_slope_limiter ls = SlopeLimiter_HarmonicMean \<and>
      P (i0 + 2 * stride_dim (set_state st ls)) = P i0 \<longrightarrow>
      reconstruct_use_3vel (set_state st ls) P i0 = Inl DivisionByZero)"
proof -
  have "mode_slope_limiter ls = SlopeLimiter_HarmonicMean \<Longrightarrow>
        slope_limiter (set_state st ls) = Some Ptr_harmonic_mean"
    by (simp add: set_state_def)
  then show ?thesis
    using harmonic_mean_error_iff [of ul u0 ur] harmonic_mean_error_iff [of a a a]
      harmonic_mean_value [of ur ul u0]
      reconstruct_use_3vel_harmonic_flat [of "set_state st ls" P i0]
    by blast
qed

theorem harmonic_mean_not_total_witness:
  "(4::real) \<noteq> 0 \<and> harmonic_mean 0 1 4 = Inr (3 / 2) \<and>
   mode_slope_limiter (lib_state_init\<lparr>mode_slope_limiter := SlopeLimiter_HarmonicMean\<rparr>)
     = SlopeLimiter_HarmonicMean \<and>
   (\<lambda>j. 1 :: real) (8 + 2 * stride_dim (set_state engine_start
        (lib_state_init\<lparr>mode_slope_limiter := SlopeLimiter_HarmonicMean\<rparr>))) = (\<lambda>j. 1 :: real) 8 \<and>
   reconstruct_use_3vel (set_state engine_start
        (lib_state_init\<lparr>mode_slope_limiter := SlopeLimiter_HarmonicMean\<rparr>)) (\<lambda>j. 1) 8
     = Inl DivisionByZero"
  using harmonic_mean_not_total [of 0 1 4 1
      "lib_state_init\<lparr>mode_slope_limiter := SlopeLimiter_HarmonicMean\<rparr>" "\<lambda>j. 1" 8 engine_start]
  by (simp add: max2_def)

subsection \<open>Signal-speed bounds\<close>

text \<open>
  C6. For every conserved/primitive pair and axis the bounds \<open>(ap, am)\<close> returned by
  \<^verbatim>\<open>rmhd_flux_and_eval\<close> lie within \<open>[-1, 1]\<close>: when either bound left by the selected
  quartic-solver strategy exceeds 1 in magnitude the pair is replaced by \<open>ap = 1\<close>,
  \<open>am = -1\<close>, and otherwise the strategy's pair is returned.
\<close>

theorem rmhd_flux_and_eval_bounds:
  "(case rmhd_flux_and_eval ext st U P of (F, ap, am) \<Rightarrow>
      - 1 \<le> am \<and> am \<le> 1 \<and> - 1 \<le> ap \<and> ap \<le> 1 \<and>
      (case quartic_bounds ext st (rmhd_quartic st P) of (rp, rm) \<Rightarrow>
         (abs rp > 1 \<or> abs rm > 1 \<longrightarrow> ap = 1 \<and> am = - 1) \<and>
         (\<not> (abs rp > 1 \<or> abs rm > 1) \<longrightarrow> ap = rp \<and> am = rm)))"
  by (auto simp: rmhd_flux_and_eval_def Let_def split: prod.splits)

theorem rmhd_flux_and_eval_bounds_witness:
  "quartic_bounds ext_fast engine_start (rmhd_quartic engine_start hll_left) = (2, - 3) \<and>
   abs (2 :: real) > 1 \<and>
   snd (rmhd_flux_and_eval ext_fast engine_start hll_left hll_left) = (1, - 1) \<and>
   quartic_bounds ext_unused hll_example_state (rmhd_quartic hll_example_state hll_left)
     = (1, - 1) \<and>
   \<not> (abs (1 :: real) > 1 \<or> abs (- 1 :: real) > 1) \<and>
   snd (rmhd_flux_and_eval ext_unused hll_example_state hll_left hll_left) = (1, - 1)"
proof -
  have a: "quartic_bounds ext_fast engine_start q = (2, - 3)" for q
    by (simp add: quartic_bounds_def ext_fast_def engine_start_def lib_state_init_def Let_def)
  have b: "quartic_bounds ext_unused hll_example_state q = (1, - 1)" for q
    by (simp add: quartic_bounds_def hll_example_state_def set_state_def lib_state_init_def)
  show ?thesis
    using rmhd_flux_and_eval_bounds [of ext_fast engine_start hll_left hll_left]
      rmhd_flux_and_eval_bounds [of ext_unused hll_example_state hll_left hll_left]
    by (auto simp: a b split: prod.splits)
qed

subsection \<open>The HLL three-branch rule\<close>

lemma hll_flux_branches:
  "snd (hll_flux ext st pl pr U0 F0 s) =
     (let Ul = prim_to_cons_point st pl; Ur = prim_to_cons_point st pr;
          Fl = rmhd_flux st Ul pl; Fr = rmhd_flux st Ur pr;
          ap = hll_ap ext st pl pr; am = hll_am ext st pl pr
      in if s \<le> am then (Ul, Fl)
         else if s \<le> ap then
           (map (\<lambda>i. (ap * Ur ! i - am * Ul ! i + (Fl ! i - Fr ! i)) / (ap - am)) [0..<8],
            map (\<lambda>i. (ap * Fl ! i - am * Fr ! i + ap * am * (Ur ! i - Ul ! i)) / (ap - am))
              [0..<8])
         else (Ur, Fr))"
proof -
  obtain Fl epl eml where
    l: "rmhd_flux_and_eval ext st (prim_to_cons_point st pl) pl = (Fl, epl, eml)"
    by (cases "rmhd_flux_and_eval ext st (prim_to_cons_point st pl) pl") auto
  obtain Fr epr emr where
    r: "rmhd_flux_and_eval ext st (prim_to_cons_point st pr) pr = (Fr, epr, emr)"
    by (cases "rmhd_flux_and_eval ext st (prim_to_cons_point st pr) pr") auto
  have Fl: "Fl = rmhd_flux st (prim_to_cons_point st pl) pl"
    using l fst_rmhd_flux_and_eval [of ext st "prim_to_cons_point st pl" pl] by simp
  have Fr: "Fr = rmhd_flux st (prim_to_cons_point st pr) pr"
    using r fst_rmhd_flux_and_eval [of ext st "prim_to_cons_point st pr" pr] by simp
  have m: "map (\<lambda>i. prim_to_cons_point st pl ! i) [0..<8] = prim_to_cons_point st pl"
    "map (\<lambda>i. prim_to_cons_point st pr ! i) [0..<8] = prim_to_cons_point st pr"
    "map (\<lambda>i. Fl ! i) [0..<8] = Fl" "map (\<lambda>i. Fr ! i) [0..<8] = Fr"
    by (simp_all add: map_nth_8 Fl Fr)
  show ?thesis
    unfolding hll_flux_def hll_ap_def hll_am_def Let_def l r prod.case fst_conv snd_conv m
    using Fl Fr by auto
qed

lemma hll_example_speeds:
  "hll_ap ext hll_example_state pl pr = 1" "hll_am ext hll_example_state pl pr = - 1"
  by (simp_all add: hll_ap_def hll_am_def rmhd_flux_and_eval_def quartic_bounds_def
      hll_example_state_def set_state_def lib_state_init_def Let_def)

lemma hll_example_cons:
  "prim_to_cons_point hll_example_state hll_left = [1, 5 / 2, 0, 0, 0, 0, 0, 0]"
  "prim_to_cons_point hll_example_state hll_right = [2, 5 / 2, 0, 0, 0, 0, 0, 0]"
  by (simp_all add: prim_to_cons_point_def hll_example_state_def set_state_def
      lib_state_init_def engine_start_def eos_sie_def idx_defs Let_def hll_left_def
      hll_right_def)

lemma hll_example_flux:
  "rmhd_flux hll_example_state [1, 5 / 2, 0, 0, 0, 0, 0, 0] hll_left = [0, 0, 1, 0, 0, 0, 0, 0]"
  "rmhd_flux hll_example_state [2, 5 / 2, 0, 0, 0, 0, 0, 0] hll_right = [0, 0, 1, 0, 0, 0, 0, 0]"
  by (simp_all add: rmhd_flux_def hll_example_state_def set_state_def lib_state_init_def
      engine_start_def idx_defs Let_def hll_left_def hll_right_def)

text \<open>
  C1, as the code has it. With \<open>ap\<close> the larger of the two right-going bounds and \<open>am\<close>
  the smaller of the two left-going bounds, \<^verbatim>\<open>hll_flux\<close> returns the left conserved state
  and left flux when \<open>s \<le> am\<close>, the closed-form HLL average
  \<open>U_hll = (ap*Ur - am*Ul + Fl - Fr)/(ap - am)\<close>,
  \<open>F_hll = (ap*Fl - am*Fr + ap*am*(Ur - Ul))/(ap - am)\<close> when \<open>am < s \<le> ap\<close>, and the
  right state and flux when \<open>ap < s\<close>: an interface speed equal to the right bound
  selects the average, not the right state. The three cases cover every \<open>s\<close>, so the
  previous contents \<open>U0\<close>, \<open>F0\<close> never survive.
\<close>

theorem hll_flux_three_branch_rule:
  "snd (hll_flux ext st pl pr U0 F0 s) =
     (let Ul = prim_to_cons_point st pl; Ur = prim_to_cons_point st pr;
          Fl = rmhd_flux st Ul pl; Fr = rmhd_flux st Ur pr;
          ap = hll_ap ext st pl pr; am = hll_am ext st pl pr
      in if s \<le> am then (Ul, Fl)
         else if am < s \<and> s \<le> ap then
           (map (\<lambda>i. (ap * Ur ! i - am * Ul ! i + (Fl ! i - Fr ! i)) / (ap - am)) [0..<8],
            map (\<lambda>i. (ap * Fl ! i - am * Fr ! i + ap * am * (Ur ! i - Ul ! i)) / (ap - am))
              [0..<8])
         else (Ur, Fr))"
  by (simp add: hll_flux_branches Let_def)

theorem hll_flux_three_branch_rule_witness:
  "snd (hll_flux ext_unused hll_example_state hll_left hll_right [] [] (- 1))
     = ([1, 5 / 2, 0, 0, 0, 0, 0, 0], [0, 0, 1, 0, 0, 0, 0, 0]) \<and>
   snd (hll_flux ext_unused hll_example_state hll_left hll_right [] [] 0)
     = ([3 / 2, 5 / 2, 0, 0, 0, 0, 0, 0], [- 1 / 2, 0, 1, 0, 0, 0, 0, 0]) \<and>
   snd (hll_flux ext_unused hll_example_state hll_left hll_right [] [] 2)
     = ([2, 5 / 2, 0, 0, 0, 0, 0, 0], [0, 0, 1, 0, 0, 0, 0, 0])"
  using hll_flux_three_branch_rule [of ext_unused hll_example_state hll_left hll_right "[]" "[]" "- 1"]
    hll_flux_three_branch_rule [of ext_unused hll_example_state hll_left hll_right "[]" "[]" 0]
    hll_flux_three_branch_rule [of ext_unused hll_example_state hll_left hll_right "[]" "[]" 2]
  by (simp add: Let_def hll_example_speeds hll_example_cons hll_example_flux upt_8)

text \<open>
  C1 as stated fails at \<open>s = ap\<close>: with the trivial bounds \<open>am = -1\<close>, \<open>ap = 1\<close> and
  interface speed 1, at the right bound, the output state is the HLL average, whose
  density is \<open>3/2\<close>, and not the right conserved state, whose density is 2.
\<close>

theorem hll_flux_right_bound_counterexample:
  "hll_ap ext_unused hll_example_state hll_left hll_right \<le> 1 \<and>
   fst (snd (hll_flux ext_unused hll_example_state hll_left hll_right [] [] 1))
     = [3 / 2, 5 / 2, 0, 0, 0, 0, 0, 0] \<and>
   prim_to_cons_point hll_example_state hll_right = [2, 5 / 2, 0, 0, 0, 0, 0, 0] \<and>
   fst (snd (hll_flux ext_unused hll_example_state hll_left hll_right [] [] 1))
     \<noteq> prim_to_cons_point hll_example_state hll_right"
  by (simp add: hll_flux_branches Let_def hll_example_speeds hll_example_cons hll_example_flux
      upt_8)

subsection \<open>4-velocity reconstruction\<close>

lemma reconstruct_use_4vel_total:
  assumes "slope_limiter st = Some Ptr_plm_minmod \<or> slope_limiter st = Some Ptr_MC_limiter"
  shows "\<exists>Pl Pr. reconstruct_use_4vel st P i0 ux uy uz iu = Inr (Pl, Pr)"
  using assms unfolding reconstruct_use_4vel_def Let_def
  by (auto simp: bind_err_def call_slope_limiter_def)

lemma reconstruct_use_4vel_scalar_slots:
  assumes "reconstruct_use_4vel st P i0 ux uy uz iu = Inr (Pl, Pr)"
    and "k = rho \<or> k = pre \<or> k = Bx \<or> k = By \<or> k = Bz"
  shows "Pl ! k = P (i0 + int k)
           + (1 / 2) * plm_minmod (lib_state st) (P (i0 - stride_dim st + int k))
               (P (i0 + int k)) (P (i0 + stride_dim st + int k)) \<and>
         Pr ! k = P (i0 + stride_dim st + int k)
           - (1 / 2) * plm_minmod (lib_state st) (P (i0 + int k))
               (P (i0 + stride_dim st + int k)) (P (i0 + 2 * stride_dim st + int k))"
  using assms unfolding reconstruct_use_4vel_def Let_def
  by (auto dest!: bind_err_Inr simp: idx_defs)

lemma mc_example_fields [simp]:
  "slope_limiter mc_example_state = Some Ptr_MC_limiter"
  "stride_dim mc_example_state = 8"
  "plm_theta (lib_state mc_example_state) = 2"
  "mode_slope_limiter (lib_state mc_example_state) = SlopeLimiter_MonotizedCentral"
  by (simp_all add: mc_example_state_def set_state_def stride_dim_def engine_start_def
      lib_state_init_def)

lemma harmonic_example_fields [simp]:
  "stride_dim harmonic_example_state = 8"
  by (simp_all add: harmonic_example_state_def set_state_def stride_dim_def engine_start_def
      lib_state_init_def)

lemma falling_density_values [simp]:
  "falling_density 0 = 4" "falling_density 8 = 3" "falling_density 16 = 2"
  "falling_density 24 = 1" "j mod 8 \<noteq> 0 \<Longrightarrow> falling_density j = 0"
  by (simp_all add: falling_density_def)

lemma mc_example_limiters:
  "MC_limiter 4 3 2 = 1" "MC_limiter 3 2 1 = 1" "MC_limiter 0 0 0 = 0"
  "plm_minmod (lib_state mc_example_state) 4 3 2 = - 1"
  "plm_minmod (lib_state mc_example_state) 3 2 1 = - 1"
  "plm_minmod (lib_state mc_example_state) 0 0 0 = 0"
  by (simp_all add: MC_limiter_def plm_minmod_def sign_def min3_def Let_def)

lemma mc_example_4vel:
  "reconstruct_use_4vel mc_example_state falling_density 8 at_rest at_rest at_rest 1
     = Inr ([5 / 2, 0, 0, 0, 0, 0, 0, 0], [5 / 2, 0, 0, 0, 0, 0, 0, 0])"
  by (simp add: reconstruct_use_4vel_def at_rest_def mc_example_limiters
      call_slope_limiter_def bind_err_def idx_defs Let_def)

lemma mc_example_3vel:
  "reconstruct_use_3vel mc_example_state falling_density 8
     = Inr ([7 / 2, 0, 0, 0, 0, 0, 0, 0], [3 / 2, 0, 0, 0, 0, 0, 0, 0])"
  by (simp add: reconstruct_use_3vel_def upt_8 mc_example_limiters
      call_slope_limiter_def bind_err_def Let_def)

text \<open>
  C2 at a failing input. With the harmonic-mean limiter configured and the cached
  4-velocities at rest, every limited triple is \<open>(0, 0, 0)\<close>: \<^verbatim>\<open>harmonic_mean\<close> computes
  \<^verbatim>\<open>2*max(0, 0)/(0 + 0)\<close>, zero over zero, so the three velocity lines of
  \<^verbatim>\<open>reconstruct_use_4vel\<close> carry no number and no velocity below 1 comes out. The two other
  limiters return 0 on the same triple, and with one of them configured the same call
  returns interface velocities 0.
\<close>

theorem reconstruct_use_4vel_harmonic_at_rest:
  "slope_limiter harmonic_example_state = Some Ptr_harmonic_mean \<and>
   call_slope_limiter harmonic_example_state 0 0 0 = Inl DivisionByZero \<and>
   reconstruct_use_4vel harmonic_example_state falling_density 8 at_rest at_rest at_rest 1
     = Inl DivisionByZero \<and>
   call_slope_limiter mc_example_state 0 0 0 = Inr 0 \<and>
   plm_minmod (lib_state harmonic_example_state) 0 0 0 = 0 \<and>
   reconstruct_use_4vel mc_example_state falling_density 8 at_rest at_rest at_rest 1
     = Inr ([5 / 2, 0, 0, 0, 0, 0, 0, 0], [5 / 2, 0, 0, 0, 0, 0, 0, 0])"
proof -
  have "reconstruct_use_4vel harmonic_example_state falling_density 8 at_rest at_rest at_rest 1
     = Inl DivisionByZero"
    by (rule reconstruct_use_4vel_harmonic_flat) (simp_all add: at_rest_def)
  then show ?thesis
    by (simp add: mc_example_4vel mc_example_limiters call_slope_limiter_def harmonic_mean_def
        plm_minmod_def min3_def)
qed

text \<open>
  C3 at a failing input. With \<^verbatim>\<open>MC_limiter\<close> configured and a density falling 4, 3, 2, 1
  along the axis, \<^verbatim>\<open>reconstruct_use_3vel\<close> limits the density with the configured limiter
  (\<open>MC_limiter 4 3 2 = 1\<close>, left interface density \<open>3 + 1/2 = 7/2\<close>), and
  \<^verbatim>\<open>reconstruct_use_4vel\<close> limits it with \<^verbatim>\<open>plm_minmod\<close> whatever is configured
  (\<open>plm_minmod 4 3 2 = -1\<close>, left interface density \<open>3 - 1/2 = 5/2\<close>).
\<close>

theorem reconstruct_use_4vel_fixed_limiter:
  "mode_slope_limiter (lib_state mc_example_state) = SlopeLimiter_MonotizedCentral \<and>
   call_slope_limiter mc_example_state 4 3 2 = Inr 1 \<and>
   plm_minmod (lib_state mc_example_state) 4 3 2 = - 1 \<and>
   reconstruct_use_3vel mc_example_state falling_density 8
     = Inr ([7 / 2, 0, 0, 0, 0, 0, 0, 0], [3 / 2, 0, 0, 0, 0, 0, 0, 0]) \<and>
   reconstruct_use_4vel mc_example_state falling_density 8 at_rest at_rest at_rest 1
     = Inr ([5 / 2, 0, 0, 0, 0, 0, 0, 0], [5 / 2, 0, 0, 0, 0, 0, 0, 0])"
  by (simp add: mc_example_4vel mc_example_3vel mc_example_limiters call_slope_limiter_def)

subsection \<open>The Newton loop of the inversion\<close>

lemma newton_update_floor:
  "use_pres_floor s \<Longrightarrow> newton_update st U s = (Pre, dZ, dW, Zn, Wn) \<Longrightarrow> Pre = PRES_FLOOR"
  by (simp add: newton_update_def Let_def)

lemma newton_body_decreases:
  assumes "n_iter s \<le> 25 \<or> returned s" "\<not> soln_found s \<and> \<not> returned s"
  shows "(n_iter (newton_body st U P s) \<le> 25 \<or> returned (newton_body st U P s)) \<and>
         newton_measure (newton_body st U P s) < newton_measure s"
proof -
  obtain Pre dZ dW Zn Wn where u: "newton_update st U s = (Pre, dZ, dW, Zn, Wn)"
    by (cases "newton_update st U s") auto
  have fl: "use_pres_floor s \<Longrightarrow> Pre = PRES_FLOOR"
    using newton_update_floor [OF _ u] by simp
  from assms have n: "n_iter s \<le> 25" by auto
  show ?thesis
    using n fl unfolding newton_body_def u prod.case Let_def newton_measure_def NEWTON_MAX_ITER_def
    by (auto split: if_splits)
qed

lemma newton_loop_terminates: "\<exists>s. newton_loop st U P = Some s"
  unfolding newton_loop_def
  by (rule measure_while_option_Some
        [where P = "\<lambda>s. n_iter s \<le> 25 \<or> returned s" and f = newton_measure])
     (use newton_body_decreases in \<open>auto simp: newton_start_def\<close>)

lemma cons_to_prim_point_returns:
  "\<exists>r P' st'. cons_to_prim_point st U P = Inr (r, P', st') \<and> (r = 0 \<or> r = 1)"
  using newton_loop_terminates [of st U P]
  by (auto simp: cons_to_prim_point_def Let_def)

lemma cons_to_prim_point_failure_frame:
  "cons_to_prim_point st U P = Inr (r, P', st') \<Longrightarrow> r \<noteq> 0 \<Longrightarrow> P' = P \<and> st' = st \<and> r = 1"
  by (auto simp: cons_to_prim_point_def Let_def split: option.splits if_splits)

lemma static_cons_nth [simp]:
  "static_cons D T ! ddd = D" "static_cons D T ! tau = T"
  "static_cons D T ! Sx = 0" "static_cons D T ! Sy = 0" "static_cons D T ! Sz = 0"
  "static_cons D T ! Bx = 0" "static_cons D T ! By = 0" "static_cons D T ! Bz = 0"
  by (simp_all add: static_cons_def idx_defs)

lemma newton_update_static:
  assumes W: "W_var s = 1" and Z: "Z_var s \<noteq> 0" and D: "D \<noteq> 0"
    and g: "adiabatic_gamma (lib_state st) = g" "g \<noteq> 0"
    and Pre: "Pre = (if use_pres_floor s then PRES_FLOOR else (Z_var s - D) * ((g - 1) / g))"
    and dZ: "dZ = g * (Z_var s - T - Pre - D)"
  shows "newton_update st (static_cons D T) s = (Pre, dZ, 0, static_Zn (Z_var s) dZ, 1)"
proof -
  have gamf: "1 - (g - 1) / g = 1 / g" using g by (simp add: field_simps)
  have "(D / 1) * (Z_var s / (D * 1) - 1) = Z_var s - D"
    using D by (simp add: field_simps)
  then have P0: "(D / 1) * (Z_var s / (D * 1) - 1) * ((g - 1) / g) = (Z_var s - D) * ((g - 1) / g)"
    by simp
  have G: "invert_2by2_matrix ((0, 2 * Z_var s * Z_var s), (1 / g, c)) 
        = ((- (c * g / (2 * Z_var s * Z_var s)), g), (1 / (2 * Z_var s * Z_var s), 0))" for c
    using Z g by (simp add: invert_2by2_matrix_def Let_def field_simps)
  show ?thesis
    using D Z g(2)
    unfolding newton_update_def Let_def static_cons_nth W g
    apply (simp add: gamf G P0 static_Zn_def smlZ_def smlW_def bigW_def Let_def del: One_nat_def)
    apply (simp add: Pre dZ P0 algebra_simps)
    done
qed

lemma est_state_fields [simp]:
  "adiabatic_gamma (lib_state est_state) = 7 / 5"
  "cons_to_prim_use_estimate (lib_state est_state) = 1"
  by (simp_all add: est_state_def set_state_def lib_state_init_def)

lemma prim_to_cons_static:
  assumes "r \<noteq> 0" "adiabatic_gamma (lib_state st) \<noteq> 1"
  shows "prim_to_cons_point st [r, p, 0, 0, 0, 0, 0, 0]
           = static_cons r (p / (adiabatic_gamma (lib_state st) - 1))"
  using assms
  by (simp add: prim_to_cons_point_def static_cons_def eos_sie_def idx_defs Let_def field_simps)

lemma newton_start_static:
  assumes "cons_to_prim_use_estimate (lib_state st) \<noteq> 0" "D \<noteq> 0"
  shows "newton_W_start st (static_cons D T) P = 1" "newton_Z_start st (static_cons D T) P = D"
  using assms by (simp_all add: newton_W_start_def newton_Z_start_def Let_def)

lemma hot_cons: "prim_to_cons_point est_state hot_state = hot_cons"
  unfolding hot_state_def hot_cons_def
  by (subst prim_to_cons_static) simp_all

lemma hot_update:
  "newton_update est_state hot_cons (stuck fl n) =
     ((if fl then PRES_FLOOR else 0),
      7 / 5 * (1 - 25 * 10 ^ 19 - (if fl then PRES_FLOOR else 0) - 1), 0, 1, 1)"
proof -
  have "newton_update est_state hot_cons (stuck fl n) =
     ((if fl then PRES_FLOOR else 0),
      7 / 5 * (1 - 25 * 10 ^ 19 - (if fl then PRES_FLOOR else 0) - 1), 0,
      static_Zn 1 (7 / 5 * (1 - 25 * 10 ^ 19 - (if fl then PRES_FLOOR else 0) - 1)), 1)"
    unfolding hot_cons_def
    using newton_update_static [where s = "stuck fl n" and st = est_state and g = "7 / 5"
        and D = 1 and T = "25 * 10 ^ 19", OF _ _ _ _ _ refl refl]
    by (simp add: stuck_def)
  moreover have "static_Zn 1 (7 / 5 * (1 - 25 * 10 ^ 19 - (if fl then PRES_FLOOR else 0) - 1)) = 1"
    by (simp add: static_Zn_def bigZ_def PRES_FLOOR_def Let_def)
  ultimately show ?thesis by simp
qed

lemma hot_body:
  "newton_body est_state hot_cons P (stuck fl n) =
     (if n = 25 then (if fl then (stuck fl 26)\<lparr>returned := True\<rparr> else stuck True 0)
      else stuck fl (n + 1))"
  unfolding newton_body_def hot_update prod.case Let_def
  by (simp add: stuck_def ERROR_TOLR_def PRES_FLOOR_def NEWTON_MAX_ITER_def hot_cons_def
      newton_start_static)

lemma hot_run:
  "n \<le> 25 \<Longrightarrow>
   while_option (\<lambda>s. \<not> soln_found s \<and> \<not> returned s) (newton_body est_state hot_cons P) (stuck fl n)
   = while_option (\<lambda>s. \<not> soln_found s \<and> \<not> returned s) (newton_body est_state hot_cons P) (stuck fl 25)"
proof (induction "nat (25 - n)" arbitrary: n)
  case 0
  then show ?case by simp
next
  case (Suc m)
  then have n: "n < 25" "m = nat (25 - (n + 1))" "n + 1 \<le> 25" by auto
  have "while_option (\<lambda>s. \<not> soln_found s \<and> \<not> returned s) (newton_body est_state hot_cons P) (stuck fl n)
      = while_option (\<lambda>s. \<not> soln_found s \<and> \<not> returned s) (newton_body est_state hot_cons P) (stuck fl (n + 1))"
    using n(1) by (subst while_option_unfold) (simp add: hot_body, simp add: stuck_def)
  then show ?case using Suc.hyps(1) [OF n(2) n(3)] by simp
qed

lemma hot_loop:
  "newton_loop est_state hot_cons P = Some ((stuck True 26)\<lparr>returned := True\<rparr>)"
proof -
  let ?w = "while_option (\<lambda>s. \<not> soln_found s \<and> \<not> returned s) (newton_body est_state hot_cons P)"
  have s0: "newton_start est_state hot_cons P = stuck False 0"
    by (simp add: newton_start_def stuck_def hot_cons_def newton_start_static)
  have "?w (stuck False 0) = ?w (stuck False 25)" by (rule hot_run) simp
  also have "\<dots> = ?w (stuck True 0)"
    by (subst while_option_unfold) (simp add: hot_body, simp add: stuck_def)
  also have "\<dots> = ?w (stuck True 25)" by (rule hot_run) simp
  also have "\<dots> = ?w ((stuck True 26)\<lparr>returned := True\<rparr>)"
    by (subst while_option_unfold) (simp add: hot_body, simp add: stuck_def)
  also have "\<dots> = Some ((stuck True 26)\<lparr>returned := True\<rparr>)"
    by (subst while_option_unfold) simp
  finally show ?thesis by (simp add: newton_loop_def s0)
qed

text \<open>
  The gas at rest with density 1 and pressure \<open>10^20\<close>, converted by \<^verbatim>\<open>prim_to_cons_point\<close>:
  the inversion from the fresh estimate keeps \<open>Z\<close> at its estimate (every Newton step lands
  at or above \<^verbatim>\<open>bigZ\<close> and is discarded), runs out of rounds in both phases and returns 1,
  the guess untouched.
\<close>

lemma hot_inversion_fails:
  "cons_to_prim_point est_state (prim_to_cons_point est_state hot_state) P
     = Inr (1, P, est_state)"
  by (simp add: hot_cons cons_to_prim_point_def hot_loop)

lemma cb_state_fields [simp]:
  "adiabatic_gamma (lib_state cb_state) = 7 / 4"
  "cons_to_prim_use_estimate (lib_state cb_state) = 1"
  by (simp_all add: cb_state_def set_state_def lib_state_init_def)

lemma cb_Z_bounds: "2 / 10 ^ 7 \<le> cb_Z j" "cb_Z j \<le> 2002 / 10 ^ 10"
proof -
  have "abs ((- 3 / 4 :: real) ^ j) \<le> 1"
    unfolding power_abs by (rule power_le_one) simp_all
  then have "- 1 \<le> (- 3 / 4 :: real) ^ j" "(- 3 / 4 :: real) ^ j \<le> 1"
    using abs_le_iff [of "(- 3 / 4 :: real) ^ j" 1] by linarith+
  then have "0 \<le> PRES_FLOOR * (1 - (- 3 / 4) ^ j)" "PRES_FLOOR * (1 - (- 3 / 4) ^ j) \<le> PRES_FLOOR * 2"
    by (simp_all add: PRES_FLOOR_def)
  then show "2 / 10 ^ 7 \<le> cb_Z j" "cb_Z j \<le> 2002 / 10 ^ 10"
    by (simp_all add: cb_Z_def PRES_FLOOR_def)
qed

lemma cb_Z_step: "cb_Z j - (7 / 4) * (cb_Z j - 0 - PRES_FLOOR - 2 / 10 ^ 7) = cb_Z (Suc j)"
  by (simp add: cb_Z_def algebra_simps)

lemma cb_update:
  "newton_update cb_state cb_cons (cb_round j) =
     (PRES_FLOOR, (7 / 4) * (cb_Z j - 0 - PRES_FLOOR - 2 / 10 ^ 7), 0, cb_Z (Suc j), 1)"
proof -
  have p: "0 < cb_Z j" "0 < cb_Z (Suc j)" "cb_Z (Suc j) < bigZ"
    using cb_Z_bounds [of j] cb_Z_bounds [of "Suc j"] by (simp_all add: bigZ_def)
  have "static_Zn (cb_Z j) ((7 / 4) * (cb_Z j - 0 - PRES_FLOOR - 2 / 10 ^ 7)) = cb_Z (Suc j)"
    unfolding static_Zn_def Let_def cb_Z_step using p by simp
  then show ?thesis
    unfolding cb_cons_def
    using p newton_update_static [where s = "cb_round j" and st = cb_state and g = "7 / 4"
        and D = "2 / 10 ^ 7" and T = 0, OF _ _ _ _ _ refl refl]
    by (simp add: cb_round_def)
qed

lemma cb_dZ: "(7 / 4) * (cb_Z j - 0 - PRES_FLOOR - 2 / 10 ^ 7) = - (7 / 4) * PRES_FLOOR * (- 3 / 4) ^ j"
  by (simp add: cb_Z_def algebra_simps)

lemma cb_tolerance_not_met:
  assumes "j < 24"
  shows "\<not> abs ((7 / 4) * (cb_Z j - 0 - PRES_FLOOR - 2 / 10 ^ 7) / cb_Z (Suc j)) + abs (0 / 1 :: real)
           < ERROR_TOLR"
proof -
  have "(3 / 4 :: real) ^ 23 \<le> (3 / 4) ^ j"
    using assms by (intro power_decreasing) simp_all
  then have a: "(7 / 4) * PRES_FLOOR * (3 / 4) ^ 23 \<le> (7 / 4) * PRES_FLOOR * (3 / 4 :: real) ^ j"
    by (simp add: PRES_FLOOR_def)
  have b: "abs ((7 / 4) * (cb_Z j - 0 - PRES_FLOOR - 2 / 10 ^ 7)) = (7 / 4) * PRES_FLOOR * (3 / 4) ^ j"
    unfolding cb_dZ by (simp add: abs_mult power_abs PRES_FLOOR_def)
  have z: "0 < cb_Z (Suc j)" "cb_Z (Suc j) \<le> 2002 / 10 ^ 10"
    using cb_Z_bounds [of "Suc j"] by simp_all
  have "ERROR_TOLR * cb_Z (Suc j) \<le> (1 / 10 ^ 6) * (2002 / 10 ^ 10)"
    using z by (simp add: ERROR_TOLR_def)
  also have "\<dots> \<le> (7 / 4) * PRES_FLOOR * (3 / 4) ^ 23"
    by (simp add: PRES_FLOOR_def power_divide)
  also have "\<dots> \<le> abs ((7 / 4) * (cb_Z j - 0 - PRES_FLOOR - 2 / 10 ^ 7))"
    using a b by simp
  finally have "ERROR_TOLR \<le> abs ((7 / 4) * (cb_Z j - 0 - PRES_FLOOR - 2 / 10 ^ 7)) / cb_Z (Suc j)"
    using z by (simp add: field_simps)
  then show ?thesis using z by (simp add: abs_divide)
qed

lemma cb_tolerance_met:
  "abs ((7 / 4) * (cb_Z 24 - 0 - PRES_FLOOR - 2 / 10 ^ 7) / cb_Z (Suc 24)) + abs (0 / 1 :: real)
           < ERROR_TOLR"
  unfolding cb_dZ by (simp add: cb_Z_def PRES_FLOOR_def ERROR_TOLR_def power_divide)

lemma cb_starts [simp]:
  "newton_W_start cb_state cb_cons P = 1" "newton_Z_start cb_state cb_cons P = 2 / 10 ^ 7"
  unfolding cb_cons_def by (simp_all add: newton_start_static)

lemma cb_first_update:
  "newton_update cb_state cb_cons (newton_start cb_state cb_cons P) = (0, 0, 0, 2 / 10 ^ 7, 1)"
  unfolding cb_cons_def
  using newton_update_static [where s = "newton_start cb_state (static_cons (2 / 10 ^ 7) 0) P"
      and st = cb_state and g = "7 / 4" and D = "2 / 10 ^ 7" and T = 0, OF _ _ _ _ _ refl refl]
  by (simp add: newton_start_def newton_start_static static_Zn_def bigZ_def Let_def)

lemma cb_first_round:
  "newton_body cb_state cb_cons P (newton_start cb_state cb_cons P) = cb_round 0"
  unfolding newton_body_def cb_first_update prod.case Let_def
  by (simp add: newton_start_def cb_round_def cb_Z_def ERROR_TOLR_def PRES_FLOOR_def
      NEWTON_MAX_ITER_def)

lemma cb_round_step:
  "j < 24 \<Longrightarrow> newton_body cb_state cb_cons P (cb_round j) = cb_round (Suc j)"
  unfolding newton_body_def cb_update prod.case Let_def
  using cb_tolerance_not_met [of j]
  by (simp add: cb_round_def NEWTON_MAX_ITER_def)

lemma cb_round_last:
  "newton_body cb_state cb_cons P (cb_round 24)
     = (cb_round 25)\<lparr>soln_found := True, returned := True\<rparr>"
  unfolding newton_body_def cb_update prod.case Let_def
  using cb_tolerance_met
  by (simp add: cb_round_def NEWTON_MAX_ITER_def)

lemma cb_funpow:
  "j \<le> 24 \<Longrightarrow>
   (newton_body cb_state cb_cons P ^^ Suc j) (newton_start cb_state cb_cons P) = cb_round j"
proof (induction j)
  case 0
  then show ?case by (simp add: cb_first_round)
next
  case (Suc j)
  then show ?case by (simp add: cb_round_step)
qed

lemma cb_last: "cb_last = cb_round 24"
  using cb_funpow [of 24 cb_guess] by (simp add: cb_last_def)

lemma cb_run:
  "j \<le> 24 \<Longrightarrow>
   while_option (\<lambda>s. \<not> soln_found s \<and> \<not> returned s) (newton_body cb_state cb_cons P) (cb_round j)
   = Some ((cb_round 25)\<lparr>soln_found := True, returned := True\<rparr>)"
proof (induction "24 - j" arbitrary: j)
  case 0
  then have "j = 24" by simp
  then show ?case
    by (subst while_option_unfold, simp add: cb_round_last, subst while_option_unfold)
       (simp add: cb_round_def)
next
  case (Suc m)
  then have j: "j < 24" "m = 24 - Suc j" "Suc j \<le> 24" by auto
  show ?case
    using Suc.hyps(1) [OF j(2) j(3)] j(1)
    by (subst while_option_unfold) (simp add: cb_round_step, simp add: cb_round_def)
qed

lemma cb_loop:
  "newton_loop cb_state cb_cons P = Some ((cb_round 25)\<lparr>soln_found := True, returned := True\<rparr>)"
  unfolding newton_loop_def
  by (subst while_option_unfold) (simp add: cb_first_round cb_run, simp add: newton_start_def)

text \<open>
  C5 at a failing input. For cold dust at rest (\<open>D = 2 * 10^-7\<close>, \<open>tau = 0\<close>, adiabatic
  index \<open>7/4\<close>, fresh estimate) the first round meets the tolerance with zero pressure
  and restarts with the pressure floor; the round of that phase that starts with
  \<^verbatim>\<open>n_iter\<close> equal to 25 meets the tolerance test with the pressure at the floor, so it
  sets \<^verbatim>\<open>soln_found\<close>; the cap test that follows in the same round still executes
  \<^verbatim>\<open>return 1\<close>. The result is a failure although the tolerance was met.
\<close>

theorem cons_to_prim_point_converged_at_cap:
  "n_iter cb_last = 25 \<and> \<not> soln_found cb_last \<and> \<not> returned cb_last \<and>
   newton_tolerance_met cb_state cb_cons cb_last \<and>
   PRES_FLOOR \<le> newton_Pre cb_state cb_cons cb_last \<and>
   cons_to_prim_point cb_state cb_cons cb_guess = Inr (1, cb_guess, cb_state)"
  using cb_tolerance_met
  by (simp add: cb_last newton_tolerance_met_def newton_Pre_def cb_update cons_to_prim_point_def
      cb_loop) (simp add: cb_round_def)

text \<open>
  A gas at rest without magnetic field, with density \<open>r > 0\<close>, pressure \<open>p\<close> at or above the
  floor, \<open>Z = r + gamma p / (gamma - 1)\<close> below \<^verbatim>\<open>bigZ\<close> and the first Newton step not already
  within the tolerance of \<open>Z\<close>: in exact arithmetic the inversion of its conserved form from
  the fresh estimate ends after two rounds at the original state.
\<close>

lemma static_round_trip:
  assumes r: "0 < r" and p: "PRES_FLOOR \<le> p" and g: "1 < adiabatic_gamma (lib_state st)"
    and est: "cons_to_prim_use_estimate (lib_state st) \<noteq> 0"
    and big: "r + adiabatic_gamma (lib_state st) * p / (adiabatic_gamma (lib_state st) - 1) < bigZ"
    and warm: "ERROR_TOLR * (r + adiabatic_gamma (lib_state st) * p / (adiabatic_gamma (lib_state st) - 1))
                 \<le> adiabatic_gamma (lib_state st) * p / (adiabatic_gamma (lib_state st) - 1)"
  shows "cons_to_prim_point st (prim_to_cons_point st [r, p, 0, 0, 0, 0, 0, 0]) P
           = Inr (0, [r, p, 0, 0, 0, 0, 0, 0],
                  st\<lparr> lib_state := (lib_state st)
                         \<lparr>cons_to_prim_iter := cons_to_prim_iter (lib_state st) + 2\<rparr>,
                      cons_to_prim_last_W := 1 \<rparr>)"
proof -
  define g where "g = adiabatic_gamma (lib_state st)"
  define T where "T = p / (g - 1)"
  define Zs where "Zs = r + g * T"
  define U where "U = static_cons r T"
  have g1: "1 < g" "g \<noteq> 0" "g \<noteq> 1" "g - 1 \<noteq> 0" using g by (simp_all add: g_def)
  have fp: "0 < PRES_FLOOR" by (simp add: PRES_FLOOR_def)
  have pp: "0 < p" using p fp by simp
  have Tp: "0 < T" using pp g1 by (simp add: T_def)
  have gTp: "0 < g * T" using Tp g1 by simp
  have gT': "g * T = g * p / (g - 1)" by (simp add: T_def)
  have Zs_eq: "Zs = r + adiabatic_gamma (lib_state st) * p / (adiabatic_gamma (lib_state st) - 1)"
    by (simp add: Zs_def T_def g_def)
  have gT_eq: "g * T = adiabatic_gamma (lib_state st) * p / (adiabatic_gamma (lib_state st) - 1)"
    by (simp add: T_def g_def)
  have Zs: "0 < Zs" "Zs < bigZ" "ERROR_TOLR * Zs \<le> g * T"
    using r gTp big warm by (simp_all add: Zs_eq gT_eq [symmetric])
  have U: "prim_to_cons_point st [r, p, 0, 0, 0, 0, 0, 0] = U"
    unfolding U_def T_def g_def using r g by (subst prim_to_cons_static) simp_all
  have st0 [simp]: "newton_W_start st U P = 1" "newton_Z_start st U P = r"
    unfolding U_def using est r by (simp_all add: newton_start_static)
  define s0 where "s0 = newton_start st U P"
  define s1 where "s1 = s0\<lparr>Z_var := Zs, n_iter := 1\<rparr>"
  define s2 where "s2 = s1\<lparr>soln_found := True, n_iter := 2\<rparr>"
  have s0: "s0 = \<lparr> use_pres_floor = False, soln_found = False, n_iter = 0, Z_var = r,
                   W_var = 1, returned = False \<rparr>"
    by (simp add: s0_def newton_start_def)
  have ga: "adiabatic_gamma (lib_state st) = g" by (simp add: g_def)
  have u0': "newton_update st (static_cons r T) s0 =
      ((Z_var s0 - r) * ((g - 1) / g), g * (Z_var s0 - T - (Z_var s0 - r) * ((g - 1) / g) - r), 0,
       static_Zn (Z_var s0) (g * (Z_var s0 - T - (Z_var s0 - r) * ((g - 1) / g) - r)), 1)"
    by (rule newton_update_static [OF _ _ _ ga]) (use r g1 in \<open>simp_all add: s0\<close>)
  have z0: "static_Zn r (- (g * T)) = Zs"
    using Zs by (simp add: static_Zn_def Let_def Zs_def smlZ_def)
  have u0: "newton_update st U s0 = (0, - (g * T), 0, Zs, 1)"
    using u0' z0 by (simp add: U_def s0)
  have b0: "newton_body st U P s0 = s1"
    unfolding newton_body_def u0 prod.case Let_def
    using Zs gTp by (simp add: s0 s1_def NEWTON_MAX_ITER_def abs_divide field_simps)
  have Tg: "T * (g - 1) = p" using g1 by (simp add: T_def)
  have "(Zs - r) * ((g - 1) / g) = T * (g - 1)" using g1 by (simp add: Zs_def)
  then have gT: "(Zs - r) * ((g - 1) / g) = p" using Tg by simp
  have "g * (Zs - T - p - r) = g * (T * (g - 1) - p)" by (simp add: Zs_def algebra_simps)
  then have dz: "g * (Zs - T - p - r) = 0" using Tg by simp
  have s1: "Z_var s1 = Zs" "W_var s1 = 1" "\<not> use_pres_floor s1" by (simp_all add: s1_def s0)
  have u1': "newton_update st (static_cons r T) s1 =
      ((Z_var s1 - r) * ((g - 1) / g), g * (Z_var s1 - T - (Z_var s1 - r) * ((g - 1) / g) - r), 0,
       static_Zn (Z_var s1) (g * (Z_var s1 - T - (Z_var s1 - r) * ((g - 1) / g) - r)), 1)"
    by (rule newton_update_static [OF _ _ _ ga]) (use r g1 Zs s1 in simp_all)
  have z1: "static_Zn Zs 0 = Zs"
    using Zs by (simp add: static_Zn_def Let_def)
  have u1: "newton_update st U s1 = (p, 0, 0, Zs, 1)"
    using u1' unfolding s1 gT dz z1 by (simp add: U_def)
  have b1: "newton_body st U P s1 = s2"
    unfolding newton_body_def u1 prod.case Let_def
    using p by (simp add: s0 s1_def s2_def NEWTON_MAX_ITER_def ERROR_TOLR_def)
  have loop: "newton_loop st U P = Some s2"
    unfolding newton_loop_def s0_def [symmetric]
    apply (subst while_option_unfold, simp add: s0 [symmetric] b0)
    apply (subst while_option_unfold, simp add: b1, simp add: s1_def s0)
    apply (subst while_option_unfold, simp add: s2_def s1_def s0)
    done
  have "r * (Zs / r - 1) = Zs - r" using r by (simp add: field_simps)
  then have pr: "r * (Zs / r - 1) * (g - 1) / g = p" using gT by simp
  show ?thesis
    unfolding U cons_to_prim_point_def loop option.case
    using r pr g1
    by (simp add: s2_def s1_def s0 U_def Let_def g_def [symmetric])
qed

lemma for_loop_rule:
  assumes "I lo s" and "\<And>i t. lo \<le> i \<Longrightarrow> i < hi \<Longrightarrow> I i t \<Longrightarrow> I (i + step) (body i t)" and "0 < step"
  shows "\<exists>i. hi \<le> i \<and> lo \<le> i \<and> I i (for_loop lo hi step body s)"
  using assms(1,2)
proof (induction "nat (hi - lo)" arbitrary: lo s rule: less_induct)
  case less
  show ?case
  proof (cases "lo < hi")
    case True
    have d: "nat (hi - (lo + step)) < nat (hi - lo)" using True assms(3) by simp
    have i: "I (lo + step) (body lo s)" using less.prems True by simp
    have "\<exists>i. hi \<le> i \<and> lo + step \<le> i \<and> I i (for_loop (lo + step) hi step body (body lo s))"
      using less.prems(2) assms(3) by (intro less.hyps [OF d i]) simp
    then show ?thesis
      using True assms(3) by (subst for_loop.simps) auto
  next
    case False
    then have "for_loop lo hi step body s = s" by (subst for_loop.simps) simp
    then show ?thesis using False less.prems(1) by (intro exI [of _ lo]) simp
  qed
qed

lemma for_loop_assign:
  "for_loop lo hi 1 (\<lambda>i A. A(i := g i)) A = (\<lambda>j. if lo \<le> j \<and> j < hi then g j else A j)"
proof -
  have "\<exists>i. hi \<le> i \<and> lo \<le> i \<and>
          (\<forall>j. for_loop lo hi 1 (\<lambda>i A. A(i := g i)) A j
                 = (if lo \<le> j \<and> j < i \<and> j < hi then g j else A j))"
    by (rule for_loop_rule [where I = "\<lambda>i B. \<forall>j. B j = (if lo \<le> j \<and> j < i \<and> j < hi then g j else A j)"])
       auto
  then show ?thesis by (auto simp: fun_eq_iff)
qed

lemma ct_zero_loop_2d:
  fixes FxBy FyBx :: array
  defines "body \<equiv> \<lambda>i (Fx, Fy).
              ( Fx(i + int Bx := 0, i + int By := FxBy (i div 8)),
                Fy(i + int Bx := FyBx (i div 8), i + int By := (0::real)) )"
  assumes "0 \<le> c" "8 * c < n"
  shows "fst (for_loop 0 n 8 body (Fx, Fy)) (8 * c + int Bx) = 0 \<and>
         snd (for_loop 0 n 8 body (Fx, Fy)) (8 * c + int By) = 0"
proof -
  let ?I = "\<lambda>i (x :: array \<times> array). i mod 8 = 0 \<and> (\<forall>k. 0 \<le> k \<and> 8 * k < i \<longrightarrow>
               fst x (8 * k + int Bx) = 0 \<and> snd x (8 * k + int By) = 0)"
  have "\<exists>i. n \<le> i \<and> 0 \<le> i \<and> ?I i (for_loop 0 n 8 body (Fx, Fy))"
  proof (rule for_loop_rule [where I = ?I])
    show "?I 0 (Fx, Fy)" by auto
  next
    fix i :: int and t :: "array \<times> array"
    assume i: "0 \<le> i" "i < n" and I: "?I i t"
    obtain A B where t: "t = (A, B)" by (cases t)
    have m: "i mod 8 = 0" using I by simp
    have "fst (body i t) (8 * k + int Bx) = 0 \<and> snd (body i t) (8 * k + int By) = 0"
      if k: "0 \<le> k" "8 * k < i + 8" for k
    proof (cases "8 * k = i")
      case True
      then show ?thesis by (simp add: body_def t idx_defs)
    next
      case False
      then have lt: "8 * k < i" using k m by presburger
      have ne: "8 * k + 5 \<noteq> i + 6" "8 * k + 6 \<noteq> i + 5" "8 * k + 5 \<noteq> i + 5" "8 * k + 6 \<noteq> i + 6"
        using False m by presburger+
      have "A (8 * k + 5) = 0" "B (8 * k + 6) = 0"
        using I k(1) lt by (simp_all add: t idx_defs)
      then show ?thesis using ne by (simp add: body_def t idx_defs)
    qed
    then show "?I (i + 8) (body i t)" using m by simp
  qed simp
  then show ?thesis using assms(2,3) by auto
qed

lemma ct2d_self_flux:
  assumes "0 \<le> c" "8 * c < stride st ! 0"
  shows "fst (constraint_transport_2d gb st Fx Fy) (8 * c + int Bx) = 0 \<and>
         snd (constraint_transport_2d gb st Fx Fy) (8 * c + int By) = 0"
  using ct_zero_loop_2d [OF assms]
  unfolding constraint_transport_2d_def Let_def
  by (simp split: prod.splits)

lemma ct_zero_loop_3d:
  fixes FxBy FyBx FyBz FzBy FzBx FxBz :: array
  defines "body \<equiv> \<lambda>i (Fx, Fy, Fz).
              ( Fx(i + int Bx := 0, i + int By := FxBy (i div 8), i + int Bz := FxBz (i div 8)),
                Fy(i + int Bx := FyBx (i div 8), i + int By := 0, i + int Bz := FyBz (i div 8)),
                Fz(i + int Bx := FzBx (i div 8), i + int By := FzBy (i div 8), i + int Bz := (0::real)) )"
  assumes "0 \<le> c" "8 * c < n"
  shows "fst (for_loop 0 n 8 body (Fx, Fy, Fz)) (8 * c + int Bx) = 0 \<and>
         fst (snd (for_loop 0 n 8 body (Fx, Fy, Fz))) (8 * c + int By) = 0 \<and>
         snd (snd (for_loop 0 n 8 body (Fx, Fy, Fz))) (8 * c + int Bz) = 0"
proof -
  let ?I = "\<lambda>i (x :: array \<times> array \<times> array). i mod 8 = 0 \<and> (\<forall>k. 0 \<le> k \<and> 8 * k < i \<longrightarrow>
               fst x (8 * k + int Bx) = 0 \<and> fst (snd x) (8 * k + int By) = 0 \<and>
               snd (snd x) (8 * k + int Bz) = 0)"
  have "\<exists>i. n \<le> i \<and> 0 \<le> i \<and> ?I i (for_loop 0 n 8 body (Fx, Fy, Fz))"
  proof (rule for_loop_rule [where I = ?I])
    show "?I 0 (Fx, Fy, Fz)" by auto
  next
    fix i :: int and t :: "array \<times> array \<times> array"
    assume i: "0 \<le> i" "i < n" and I: "?I i t"
    obtain A B C where t: "t = (A, B, C)" by (cases t)
    have m: "i mod 8 = 0" using I by simp
    have "fst (body i t) (8 * k + int Bx) = 0 \<and> fst (snd (body i t)) (8 * k + int By) = 0 \<and>
          snd (snd (body i t)) (8 * k + int Bz) = 0"
      if k: "0 \<le> k" "8 * k < i + 8" for k
    proof (cases "8 * k = i")
      case True
      then show ?thesis by (simp add: body_def t idx_defs)
    next
      case False
      then have lt: "8 * k < i" using k m by presburger
      have ne: "8 * k + 5 \<noteq> i + 6" "8 * k + 5 \<noteq> i + 7" "8 * k + 5 \<noteq> i + 5"
        "8 * k + 6 \<noteq> i + 5" "8 * k + 6 \<noteq> i + 6" "8 * k + 6 \<noteq> i + 7"
        "8 * k + 7 \<noteq> i + 5" "8 * k + 7 \<noteq> i + 6" "8 * k + 7 \<noteq> i + 7"
        using False m by presburger+
      have "A (8 * k + 5) = 0" "B (8 * k + 6) = 0" "C (8 * k + 7) = 0"
        using I k(1) lt by (simp_all add: t idx_defs)
      then show ?thesis using ne by (simp add: body_def t idx_defs)
    qed
    then show "?I (i + 8) (body i t)" using m by simp
  qed simp
  then show ?thesis using assms(2,3) by auto
qed

lemma ct3d_self_flux:
  assumes "0 \<le> c" "8 * c < stride st ! 0"
  shows "fst (constraint_transport_3d gb st Fx Fy Fz) (8 * c + int Bx) = 0 \<and>
         fst (snd (constraint_transport_3d gb st Fx Fy Fz)) (8 * c + int By) = 0 \<and>
         snd (snd (constraint_transport_3d gb st Fx Fy Fz)) (8 * c + int Bz) = 0"
  using ct_zero_loop_3d [OF assms]
  unfolding constraint_transport_3d_def Let_def
  by (simp split: prod.splits)

lemma touch_self: "touch st (cons_to_prim_iter (lib_state st)) (cons_to_prim_last_W st)
    (lib_ux st) (lib_uy st) (lib_uz st) = st"
  by (simp add: touch_def)

lemma touch_touch [simp]: "touch (touch st a b c d e) a' b' c' d' e' = touch st a' b' c' d' e'"
  by (simp add: touch_def)

lemma touch_fields [simp]:
  "stride (touch st a b c d e) = stride st"
  "libopstate (touch st a b c d e) = libopstate st"
  "dimension (touch st a b c d e) = dimension st"
  "slope_limiter (touch st a b c d e) = slope_limiter st"
  "dx (touch st a b c d e) = dx st" "dy (touch st a b c d e) = dy st" "dz (touch st a b c d e) = dz st"
  "PrimitiveArray (touch st a b c d e) = PrimitiveArray st"
  "FluxInterArray_x (touch st a b c d e) = FluxInterArray_x st"
  "FluxInterArray_y (touch st a b c d e) = FluxInterArray_y st"
  "FluxInterArray_z (touch st a b c d e) = FluxInterArray_z st"
  "lib_ux (touch st a b c d e) = c" "lib_uy (touch st a b c d e) = d" "lib_uz (touch st a b c d e) = e"
  "cons_to_prim_last_W (touch st a b c d e) = b"
  "cons_to_prim_iter (lib_state (touch st a b c d e)) = a"
  "adiabatic_gamma (lib_state (touch st a b c d e)) = adiabatic_gamma (lib_state st)"
  "plm_theta (lib_state (touch st a b c d e)) = plm_theta (lib_state st)"
  "max_lambda (lib_state (touch st a b c d e)) = max_lambda (lib_state st)"
  "cons_to_prim_use_estimate (lib_state (touch st a b c d e)) = cons_to_prim_use_estimate (lib_state st)"
  "mode_reconstruct (lib_state (touch st a b c d e)) = mode_reconstruct (lib_state st)"
  "mode_riemann_solver (lib_state (touch st a b c d e)) = mode_riemann_solver (lib_state st)"
  "mode_slope_limiter (lib_state (touch st a b c d e)) = mode_slope_limiter (lib_state st)"
  "mode_quartic_solver (lib_state (touch st a b c d e)) = mode_quartic_solver (lib_state st)"
  by (simp_all add: touch_def)

lemma newton_loop_touch [simp]: "newton_loop (touch st a b c d e) U P = newton_loop st U P"
proof -
  have u: "newton_update (touch st a b c d e) U s = newton_update st U s" for s
    by (simp only: newton_update_def touch_fields)
  have w: "newton_W_start (touch st a b c d e) U P = newton_W_start st U P"
    by (simp only: newton_W_start_def touch_fields)
  have z: "newton_Z_start (touch st a b c d e) U P = newton_Z_start st U P"
    by (simp only: newton_Z_start_def w eos_sie_def touch_fields)
  have b: "newton_body (touch st a b c d e) U P = newton_body st U P"
    by (rule ext) (simp only: newton_body_def u w z)
  show ?thesis by (simp only: newton_loop_def b newton_start_def w z)
qed

lemma cons_to_prim_point_touch:
  "cons_to_prim_point (touch st a b c d e) U P =
     (case invert st U P of (r, P', n, w) \<Rightarrow>
        Inr (r, P', if r = 0 then touch st (a + n) w c d e else touch st a b c d e))"
proof -
  obtain s where s: "newton_loop st U P = Some s"
    using newton_loop_terminates by blast
  show ?thesis
  proof (cases "returned s")
    case True
    then show ?thesis
      unfolding invert_def cons_to_prim_point_def newton_loop_touch s option.case by simp
  next
    case False
    then show ?thesis
      unfolding invert_def cons_to_prim_point_def newton_loop_touch s option.case Let_def
      by (simp add: touch_def)
  qed
qed

lemma cell_cong: "(\<And>k. k < 8 \<Longrightarrow> A (i + int k) = B (i + int k)) \<Longrightarrow> cell A i = cell B i"
  by (simp add: cell_def)

lemma length_cell [simp]: "length (cell A i) = 8"
  by (simp add: cell_def)

lemma nth_cell [simp]: "k < 8 \<Longrightarrow> cell A i ! k = A (i + int k)"
  by (simp add: cell_def)

lemma store_cell_outside: "j < i \<or> i + 8 \<le> j \<Longrightarrow> store_cell A i v j = A j"
  by (auto simp: store_cell_def)

lemma store_cell_inside: "k < 8 \<Longrightarrow> store_cell A i v (i + int k) = v ! k"
proof -
  assume k: "k < 8"
  have "nat (i + int k - i) = k" by simp
  then show ?thesis unfolding store_cell_def using k by (simp del: nat_diff_distrib)
qed

lemma cons_to_prim_cell_touch:
  "cons_to_prim_cell i U (f, P, touch st it w ux uy uz) =
     (case invert st (cell U i) (cell P i) of (r, Pi, n, wn) \<Rightarrow>
        let it' = (if r = 0 then it + n else it);
            w' = (if r = 0 then wn else w);
            u4 = (mode_reconstruct (lib_state st) = Reconstruct_PLM4Velocity \<and>
                  libopstate st = LibraryOperation_Alive)
        in Inr (f + r, store_cell P i Pi,
                touch st it' w'
                  (if u4 then ux(i div 8 := w' * Pi ! vx) else ux)
                  (if u4 then uy(i div 8 := w' * Pi ! vy) else uy)
                  (if u4 then uz(i div 8 := w' * Pi ! vz) else uz)))"
proof -
  obtain r Pi n wn where inv: "invert st (cell U i) (cell P i) = (r, Pi, n, wn)"
    by (metis prod_cases4)
  have t: "(touch st a b c d e)\<lparr>lib_ux := c', lib_uy := d', lib_uz := e'\<rparr> = touch st a b c' d' e'"
    for a b c d e c' d' e'
    by (simp add: touch_def)
  show ?thesis
  proof (cases "mode_reconstruct (lib_state st) = Reconstruct_PLM4Velocity \<and>
                  libopstate st = LibraryOperation_Alive")
    case True
    then have u: "mode_reconstruct (lib_state st) = Reconstruct_PLM4Velocity"
      "libopstate st = LibraryOperation_Alive" by simp_all
    show ?thesis
      unfolding cons_to_prim_cell_def prod.case cons_to_prim_point_touch inv bind_err_def
        sum.case Let_def
      by (cases "r = 0") (simp_all only: u touch_fields t if_True if_False simp_thms)
  next
    case False
    then have u: "(mode_reconstruct (lib_state st) = Reconstruct_PLM4Velocity \<and>
                  libopstate st = LibraryOperation_Alive) = False" by simp
    show ?thesis
      unfolding cons_to_prim_cell_def prod.case cons_to_prim_point_touch inv bind_err_def
        sum.case Let_def
      by (cases "r = 0") (simp_all only: u touch_fields if_True if_False simp_thms)
  qed
qed

lemma cons_to_prim_cell_touch_ex:
  "\<exists>it' w' ux' uy' uz'.
     cons_to_prim_cell i U (f, P, touch st it w ux uy uz) =
       Inr (f + fst (invert st (cell U i) (cell P i)),
            store_cell P i (fst (snd (invert st (cell U i) (cell P i)))),
            touch st it' w' ux' uy' uz')"
proof -
  obtain r Pi n wn where inv: "invert st (cell U i) (cell P i) = (r, Pi, n, wn)"
    by (metis prod_cases4)
  show ?thesis
    unfolding cons_to_prim_cell_touch Let_def inv prod.case fst_conv snd_conv by blast
qed

lemma pass_invI:
  assumes "i mod 8 = 0" "0 \<le> i" "i \<le> 8 * max N 0"
    and "x = Inr (f, P, touch st it w ux uy uz)"
    and "\<forall>j. i \<le> j \<longrightarrow> P j = P0 j"
    and "f = (\<Sum>c = 0..<nat (i div 8). fst (invert st (cell U (8 * int c)) (cell P0 (8 * int c))))"
  shows "pass_inv st U P0 N i x"
  unfolding pass_inv_def
  apply (intro conjI assms(1-3))
  apply (rule exI [of _ f], rule exI [of _ P], rule exI [of _ it], rule exI [of _ w],
      rule exI [of _ ux], rule exI [of _ uy], rule exI [of _ uz])
  apply (intro conjI assms(4-6))
  done

lemma pass_invE:
  assumes "pass_inv st U P0 N i x"
  obtains f P it w ux uy uz where "i mod 8 = 0" "0 \<le> i" "i \<le> 8 * max N 0"
    and "x = Inr (f, P, touch st it w ux uy uz)"
    and "\<forall>j. i \<le> j \<longrightarrow> P j = P0 j"
    and "f = (\<Sum>c = 0..<nat (i div 8). fst (invert st (cell U (8 * int c)) (cell P0 (8 * int c))))"
  using assms unfolding pass_inv_def by (elim conjE exE) (rule that)

lemma pass_inv_step:
  assumes i: "0 \<le> i" "i < N * 8" and I: "pass_inv st U P0 N i x"
  shows "pass_inv st U P0 N (i + 8) (bind_err x (cons_to_prim_cell i U))"
proof -
  let ?r = "\<lambda>c. fst (invert st (cell U (8 * int c)) (cell P0 (8 * int c)))"
  from I obtain f P it w ux uy uz where m: "i mod 8 = 0" and "0 \<le> i" and "i \<le> 8 * max N 0"
    and x: "x = Inr (f, P, touch st it w ux uy uz)"
    and P': "\<forall>j. i \<le> j \<longrightarrow> P j = P0 j" and f: "f = (\<Sum>c = 0..<nat (i div 8). ?r c)"
    by (rule pass_invE)
  have P: "\<And>j. i \<le> j \<Longrightarrow> P j = P0 j" using P' by simp
  obtain it' w' ux' uy' uz' where
    step: "cons_to_prim_cell i U (f, P, touch st it w ux uy uz) =
       Inr (f + fst (invert st (cell U i) (cell P i)),
          store_cell P i (fst (snd (invert st (cell U i) (cell P i)))),
          touch st it' w' ux' uy' uz')"
    using cons_to_prim_cell_touch_ex by blast
  have c: "cell P i = cell P0 i" by (rule cell_cong) (simp add: P)
  have d0: "0 \<le> i div 8" using i(1) by simp
  have d8: "8 * (i div 8) = i" "(i + 8) div 8 = i div 8 + 1" using m by presburger+
  have i8: "8 * int (nat (i div 8)) = i" using d0 d8 by simp
  have n: "nat ((i + 8) div 8) = Suc (nat (i div 8))" using d0 d8 by simp
  have r8: "?r (nat (i div 8)) = fst (invert st (cell U i) (cell P0 i))"
    by (simp only: i8)
  have s: "f + fst (invert st (cell U i) (cell P i)) = (\<Sum>c = 0..<nat ((i + 8) div 8). ?r c)"
    unfolding n sum.atLeast0_lessThan_Suc r8 f c ..
  have o: "\<forall>j. i + 8 \<le> j \<longrightarrow>
      store_cell P i (fst (snd (invert st (cell U i) (cell P i)))) j = P0 j"
    by (simp add: store_cell_outside P)
  have b: "(i + 8) mod 8 = 0" "0 \<le> i + 8" "i + 8 \<le> 8 * max N 0" using i m by presburger+
  have e: "bind_err x (cons_to_prim_cell i U) =
      Inr (f + fst (invert st (cell U i) (cell P i)),
          store_cell P i (fst (snd (invert st (cell U i) (cell P i)))),
          touch st it' w' ux' uy' uz')"
    unfolding x bind_err_def sum.case step ..
  show ?thesis by (rule pass_invI [OF b e o s])
qed

lemma cons_to_prim_array_loop:
  "\<exists>f P it w ux uy uz.
     for_loop 0 (N * 8) 8 (\<lambda>i x. bind_err x (cons_to_prim_cell i U)) (Inr (0, P0, st))
       = Inr (f, P, touch st it w ux uy uz) \<and>
     f = (\<Sum>c = 0..<nat N. fst (invert st (cell U (8 * int c)) (cell P0 (8 * int c))))"
proof -
  let ?r = "\<lambda>c. fst (invert st (cell U (8 * int c)) (cell P0 (8 * int c)))"
  let ?res = "for_loop 0 (N * 8) 8 (\<lambda>i x. bind_err x (cons_to_prim_cell i U)) (Inr (0, P0, st))"
  have init: "pass_inv st U P0 N 0 (Inr (0, P0, st))"
  proof (rule pass_invI)
    show "Inr (0, P0, st) = Inr (0, P0, touch st (cons_to_prim_iter (lib_state st))
        (cons_to_prim_last_W st) (lib_ux st) (lib_uy st) (lib_uz st))"
      by (simp only: touch_self)
  qed simp_all
  have "\<exists>i. N * 8 \<le> i \<and> 0 \<le> i \<and> pass_inv st U P0 N i ?res"
    by (rule for_loop_rule [where I = "pass_inv st U P0 N", OF init pass_inv_step]) simp_all
  then obtain i where i: "N * 8 \<le> i" and I: "pass_inv st U P0 N i ?res" by blast
  from I obtain f P it w ux uy uz where j: "i mod 8 = 0" "0 \<le> i" "i \<le> 8 * max N 0"
    and r: "?res = Inr (f, P, touch st it w ux uy uz)"
    and "\<forall>j. i \<le> j \<longrightarrow> P j = P0 j"
    and f: "f = (\<Sum>c = 0..<nat (i div 8). ?r c)"
    by (rule pass_invE)
  have "i = 8 * max N 0" using i j by linarith
  then have "nat (i div 8) = nat N" by (simp add: max_def)
  then have f': "f = (\<Sum>c = 0..<nat N. ?r c)" using f by simp
  show ?thesis using r f' by blast
qed

lemma cons_to_prim_array_returns:
  "\<exists>f P it w ux uy uz.
     cons_to_prim_array st U Pext N =
       Inr (f, P, case Pext of None \<Rightarrow> (touch st it w ux uy uz)\<lparr>PrimitiveArray := P\<rparr>
                   | Some A \<Rightarrow> touch st it w ux uy uz) \<and>
     f = (\<Sum>c = 0..<nat N. fst (invert st (cell U (8 * int c)) (cell (array_guess st Pext) (8 * int c))))"
proof -
  obtain f P it w ux uy uz where
    l: "for_loop 0 (N * 8) 8 (\<lambda>i x. bind_err x (cons_to_prim_cell i U)) (Inr (0, array_guess st Pext, st))
       = Inr (f, P, touch st it w ux uy uz)"
    and f: "f = (\<Sum>c = 0..<nat N. fst (invert st (cell U (8 * int c)) (cell (array_guess st Pext) (8 * int c))))"
    using cons_to_prim_array_loop by blast
  have "cons_to_prim_array st U Pext N =
       Inr (f, P, case Pext of None \<Rightarrow> (touch st it w ux uy uz)\<lparr>PrimitiveArray := P\<rparr>
                   | Some A \<Rightarrow> touch st it w ux uy uz)"
    unfolding cons_to_prim_array_def Let_def array_guess_def [symmetric] l
    by (simp add: bind_err_def)
  then show ?thesis using f by blast
qed

lemma lam_self: "lam st (max_lambda (lib_state st)) = st"
  by (simp add: lam_def)

lemma lam_lam [simp]: "lam (lam st m) m' = lam st m'"
  by (simp add: lam_def)

lemma lam_fields [simp]:
  "stride (lam st m) = stride st"
  "libopstate (lam st m) = libopstate st"
  "dimension (lam st m) = dimension st"
  "slope_limiter (lam st m) = slope_limiter st"
  "dx (lam st m) = dx st" "dy (lam st m) = dy st" "dz (lam st m) = dz st"
  "PrimitiveArray (lam st m) = PrimitiveArray st"
  "FluxInterArray_x (lam st m) = FluxInterArray_x st"
  "FluxInterArray_y (lam st m) = FluxInterArray_y st"
  "FluxInterArray_z (lam st m) = FluxInterArray_z st"
  "lib_ux (lam st m) = lib_ux st" "lib_uy (lam st m) = lib_uy st" "lib_uz (lam st m) = lib_uz st"
  "cons_to_prim_last_W (lam st m) = cons_to_prim_last_W st"
  "cons_to_prim_iter (lib_state (lam st m)) = cons_to_prim_iter (lib_state st)"
  "adiabatic_gamma (lib_state (lam st m)) = adiabatic_gamma (lib_state st)"
  "plm_theta (lib_state (lam st m)) = plm_theta (lib_state st)"
  "max_lambda (lib_state (lam st m)) = m"
  "cons_to_prim_use_estimate (lib_state (lam st m)) = cons_to_prim_use_estimate (lib_state st)"
  "mode_reconstruct (lib_state (lam st m)) = mode_reconstruct (lib_state st)"
  "mode_riemann_solver (lib_state (lam st m)) = mode_riemann_solver (lib_state st)"
  "mode_slope_limiter (lib_state (lam st m)) = mode_slope_limiter (lib_state st)"
  "mode_quartic_solver (lib_state (lam st m)) = mode_quartic_solver (lib_state st)"
  by (simp_all add: lam_def)

lemma stride_dim_lam [simp]: "stride_dim (lam st m) = stride_dim st"
  by (simp only: stride_dim_def lam_fields)

lemma prim_to_cons_point_lam [simp]: "prim_to_cons_point (lam st m) P = prim_to_cons_point st P"
  by (simp only: prim_to_cons_point_def eos_sie_def lam_fields)

lemma rmhd_flux_lam [simp]: "rmhd_flux (lam st m) U P = rmhd_flux st U P"
  by (simp only: rmhd_flux_def lam_fields)

lemma rmhd_quartic_lam [simp]: "rmhd_quartic (lam st m) P = rmhd_quartic st P"
  by (simp only: rmhd_quartic_def eos_sie_def eos_cs2_def lam_fields)

lemma quartic_bounds_lam [simp]: "quartic_bounds ext (lam st m) q = quartic_bounds ext st q"
  by (simp only: quartic_bounds_def lam_fields)

lemma rmhd_flux_and_eval_lam [simp]:
  "rmhd_flux_and_eval ext (lam st m) U P = rmhd_flux_and_eval ext st U P"
  by (simp only: rmhd_flux_and_eval_def rmhd_flux_lam rmhd_quartic_lam quartic_bounds_lam)

lemma plm_minmod_lam [simp]:
  "plm_minmod (lib_state (lam st m)) a b c = plm_minmod (lib_state st) a b c"
  by (simp only: plm_minmod_def lam_fields)

lemma call_slope_limiter_lam [simp]:
  "call_slope_limiter (lam st m) a b c = call_slope_limiter st a b c"
  by (simp only: call_slope_limiter_def lam_fields plm_minmod_lam)

lemma reconstruct_use_3vel_lam [simp]:
  "reconstruct_use_3vel (lam st m) P i = reconstruct_use_3vel st P i"
  by (simp only: reconstruct_use_3vel_def call_slope_limiter_lam stride_dim_lam)

lemma reconstruct_use_4vel_lam [simp]:
  "reconstruct_use_4vel (lam st m) P i ux uy uz iu = reconstruct_use_4vel st P i ux uy uz iu"
  by (simp only: reconstruct_use_4vel_def call_slope_limiter_lam stride_dim_lam plm_minmod_lam)

lemma hll_flux_lam:
  "\<exists>m'. hll_flux ext (lam st m) pl pr U0 F0 s = (lam st m', snd (hll_flux ext st pl pr U0 F0 s))"
proof -
  obtain Fl epl eml where
    l: "rmhd_flux_and_eval ext st (prim_to_cons_point st pl) pl = (Fl, epl, eml)"
    by (metis prod_cases3)
  obtain Fr epr emr where
    r: "rmhd_flux_and_eval ext st (prim_to_cons_point st pr) pr = (Fr, epr, emr)"
    by (metis prod_cases3)
  let ?ap = "if epl > epr then epl else epr"
  let ?am = "if eml < emr then eml else emr"
  let ?ml = "if abs ?am < abs ?ap then abs ?ap else abs ?am"
  have a: "fst (hll_flux ext (lam st m) pl pr U0 F0 s) = (if m < ?ml then lam st ?ml else lam st m)"
    unfolding hll_flux_def Let_def prim_to_cons_point_lam rmhd_flux_and_eval_lam l r prod.case
      fst_conv lam_fields
    by (simp add: lam_def)
  have b: "snd (hll_flux ext (lam st m) pl pr U0 F0 s) = snd (hll_flux ext st pl pr U0 F0 s)"
    unfolding hll_flux_def Let_def prim_to_cons_point_lam rmhd_flux_and_eval_lam l r prod.case
      snd_conv ..
  show ?thesis
    using a b by (cases "m < ?ml") (auto simp: prod_eq_iff)
qed

lemma hll_flux_prior: "snd (hll_flux ext st pl pr U0 F0 s) = snd (hll_flux ext st pl pr U1 F1 s)"
  by (simp only: hll_flux_branches)

lemma Fiph_cell_lam:
  "\<exists>m'. Fiph_cell ext gb P i (lam st m, F) =
          bind_err (interface_flux ext (lam st m) P i) (\<lambda>Fi. Inr (lam st m', store_cell F i Fi))"
proof (cases "mode_riemann_solver (lib_state st)")
  case RiemannSolver_HLL
  have h: "\<exists>m'. \<forall>Pl Pr. True \<longrightarrow> True" by simp
  show ?thesis
  proof (cases "case mode_reconstruct (lib_state st) of
          Reconstruct_PiecewiseConstant \<Rightarrow> Inr (cell P i, cell P (i + stride_dim st))
        | Reconstruct_PLM3Velocity \<Rightarrow> reconstruct_use_3vel st P i
        | Reconstruct_PLM4Velocity \<Rightarrow>
            reconstruct_use_4vel st P i (lib_ux st) (lib_uy st) (lib_uz st) (i div 8)")
    case (Inl e)
    show ?thesis
      unfolding Fiph_cell_def interface_flux_def prod.case Let_def lam_fields stride_dim_lam
        reconstruct_use_3vel_lam reconstruct_use_4vel_lam Inl bind_err_def sum.case
      by simp
  next
    case (Inr lr)
    obtain Pl Pr where lr: "lr = (Pl, Pr)" by (cases lr)
    obtain m' where m': "hll_flux ext (lam st m) Pl Pr (mem_U_star gb) (cell F i) 0
        = (lam st m', snd (hll_flux ext st Pl Pr (mem_U_star gb) (cell F i) 0))"
      using hll_flux_lam by blast
    have p: "snd (hll_flux ext (lam st m) Pl Pr [] [] 0)
        = snd (hll_flux ext st Pl Pr (mem_U_star gb) (cell F i) 0)"
      using hll_flux_lam [of ext st m Pl Pr "[]" "[]" 0]
        hll_flux_prior [of ext st Pl Pr "[]" "[]" 0 "mem_U_star gb" "cell F i"]
      by (auto simp: prod_eq_iff)
    show ?thesis
      unfolding Fiph_cell_def interface_flux_def prod.case Let_def lam_fields stride_dim_lam
        reconstruct_use_3vel_lam reconstruct_use_4vel_lam Inr lr bind_err_def sum.case
        RiemannSolver_HLL RiemannSolverMode.case m' p
      by (intro exI [of _ m']) (simp add: case_prod_beta)
  qed
next
  case RiemannSolver_HLLC
  show ?thesis
    unfolding Fiph_cell_def interface_flux_def prod.case Let_def lam_fields stride_dim_lam
      reconstruct_use_3vel_lam reconstruct_use_4vel_lam RiemannSolver_HLLC RiemannSolverMode.case
    by (intro exI [of _ m]) (auto simp: bind_err_def case_prod_beta split: sum.splits)
qed

lemma sweep_array_step:
  assumes "i mod 8 = 0" "S \<le> i" "length v = 8" "g i = v"
  shows "store_cell (sweep_array g F1 S i) i v = sweep_array g F1 S (i + 8)"
proof (rule ext)
  fix j
  show "store_cell (sweep_array g F1 S i) i v j = sweep_array g F1 S (i + 8) j"
  proof (cases "i \<le> j \<and> j < i + 8")
    case True
    then have "j - j mod 8 = i" "j mod 8 = j - i" using assms(1) by presburger+
    then show ?thesis using True assms(2,4) by (simp add: store_cell_def sweep_array_def)
  next
    case False
    then show ?thesis using assms(2) by (auto simp: store_cell_def sweep_array_def)
  qed
qed

lemma sweep_inv_step:
  assumes hll: "mode_riemann_solver (lib_state st) = RiemannSolver_HLL"
    and g: "interface_flux ext st P i = Inr (g i)" "length (g i) = 8"
    and i: "S \<le> i" "i < hi" and S: "hi mod 8 = 0"
    and I: "sweep_inv st g F1 S hi i x"
  shows "sweep_inv st g F1 S hi (i + 8) (bind_err x (Fiph_cell ext gb P i))"
proof -
  from I obtain m where m: "i mod 8 = 0" and x: "x = Inr (lam st m, sweep_array g F1 S i)"
    unfolding sweep_inv_def by (elim conjE exE)
  have f: "interface_flux ext (lam st m) P i = interface_flux ext st P i"
    unfolding interface_flux_def lam_fields stride_dim_lam reconstruct_use_3vel_lam
      reconstruct_use_4vel_lam hll RiemannSolverMode.case
    using hll_flux_lam [of ext st m]
    by (auto simp: bind_err_def prod_eq_iff split: sum.splits prod.splits)
  obtain m' where "Fiph_cell ext gb P i (lam st m, sweep_array g F1 S i) =
          bind_err (interface_flux ext (lam st m) P i)
            (\<lambda>Fi. Inr (lam st m', store_cell (sweep_array g F1 S i) i Fi))"
    using Fiph_cell_lam by blast
  then have "bind_err x (Fiph_cell ext gb P i) = Inr (lam st m', sweep_array g F1 S (i + 8))"
    unfolding x f g(1) bind_err_def sum.case
    using sweep_array_step [of i S "g i" g F1, OF m i(1) g(2) refl] by simp
  moreover have "(i + 8) mod 8 = 0" "S \<le> i + 8" "i + 8 \<le> max S hi"
    using m i S by presburger+
  ultimately show ?thesis unfolding sweep_inv_def by blast
qed

lemma Fiph_main_loop:
  assumes hll: "mode_riemann_solver (lib_state st) = RiemannSolver_HLL"
    and g: "\<And>i. S \<le> i \<Longrightarrow> i < hi \<Longrightarrow> i mod 8 = 0 \<Longrightarrow>
              interface_flux ext st P i = Inr (g i) \<and> length (g i) = 8"
    and S: "S mod 8 = 0" "hi mod 8 = 0"
  shows "\<exists>m. for_loop S hi 8 (\<lambda>i x. bind_err x (Fiph_cell ext gb P i)) (Inr (st, F1))
            = Inr (lam st m, sweep_array g F1 S (max S hi))"
proof -
  let ?res = "for_loop S hi 8 (\<lambda>i x. bind_err x (Fiph_cell ext gb P i)) (Inr (st, F1))"
  have a0: "sweep_array g F1 S S = F1" by (rule ext) (simp add: sweep_array_def)
  have init: "sweep_inv st g F1 S hi S (Inr (st, F1))"
    unfolding sweep_inv_def a0 using S(1) lam_self [of st] by (metis max.cobounded1 order_refl)
  have step: "\<And>i t. S \<le> i \<Longrightarrow> i < hi \<Longrightarrow> sweep_inv st g F1 S hi i t \<Longrightarrow>
      sweep_inv st g F1 S hi (i + 8) (bind_err t (Fiph_cell ext gb P i))"
  proof -
    fix i t assume i: "S \<le> i" "i < hi" and I: "sweep_inv st g F1 S hi i t"
    then have m: "i mod 8 = 0" unfolding sweep_inv_def by blast
    show "sweep_inv st g F1 S hi (i + 8) (bind_err t (Fiph_cell ext gb P i))"
      using sweep_inv_step [OF hll _ _ i S(2) I] g [OF i m] by blast
  qed
  have "\<exists>i. hi \<le> i \<and> S \<le> i \<and> sweep_inv st g F1 S hi i ?res"
    by (rule for_loop_rule [where I = "sweep_inv st g F1 S hi", OF init step]) simp_all
  then obtain i m where "hi \<le> i" "S \<le> i" "i \<le> max S hi"
    and r: "?res = Inr (lam st m, sweep_array g F1 S i)"
    unfolding sweep_inv_def by blast
  then have "i = max S hi" by linarith
  then show ?thesis using r by blast
qed

lemma weak_inv_step:
  assumes "weak_inv st x"
  shows "weak_inv st (bind_err x (Fiph_cell ext gb P i))"
proof (cases x)
  case (Inl e)
  then show ?thesis by (simp add: weak_inv_def bind_err_def)
next
  case (Inr y)
  obtain s F where y: "y = (s, F)" by (cases y)
  obtain m where s: "s = lam st m" using assms Inr y unfolding weak_inv_def by blast
  obtain m' where c: "Fiph_cell ext gb P i (lam st m, F) =
          bind_err (interface_flux ext (lam st m) P i) (\<lambda>Fi. Inr (lam st m', store_cell F i Fi))"
    using Fiph_cell_lam by blast
  show ?thesis
    unfolding Inr y s bind_err_def sum.case c weak_inv_def
    by (cases "interface_flux ext (lam st m) P i") auto
qed

lemma Fiph_state:
  assumes "Fiph ext gb st P F = Inr (st', F')"
  shows "\<exists>m. st' = lam st m"
proof -
  let ?F1 = "for_loop 0 (stride_dim st) 1 (\<lambda>i F. F(i := 0)) F"
  let ?res = "for_loop (stride_dim st) (stride st ! 0 - stride_dim st * 2) 8
      (\<lambda>i x. bind_err x (Fiph_cell ext gb P i)) (Inr (st, ?F1))"
  have init: "weak_inv st (Inr (st, ?F1))"
    unfolding weak_inv_def using lam_self [of st] by (metis Inr_inject prod.inject)
  have "\<exists>i. stride st ! 0 - stride_dim st * 2 \<le> i \<and> stride_dim st \<le> i \<and> weak_inv st ?res"
    by (rule for_loop_rule [where I = "\<lambda>i. weak_inv st", OF init weak_inv_step]) simp_all
  then have w: "weak_inv st ?res" by blast
  obtain F2 where "?res = Inr (st', F2)"
    using assms unfolding Fiph_def Let_def bind_err_def
    by (auto split: sum.splits)
  then show ?thesis using w unfolding weak_inv_def by blast
qed

lemma Fiph_closed:
  assumes hll: "mode_riemann_solver (lib_state st) = RiemannSolver_HLL"
    and g: "\<And>i. stride_dim st \<le> i \<Longrightarrow> i < stride st ! 0 - stride_dim st * 2 \<Longrightarrow> i mod 8 = 0 \<Longrightarrow>
              interface_flux ext st P i = Inr (g i) \<and> length (g i) = 8"
    and S: "stride_dim st mod 8 = 0" "stride st ! 0 mod 8 = 0"
  shows "\<exists>m. Fiph ext gb st P F =
           Inr (lam st m,
                \<lambda>j. if stride st ! 0 - stride_dim st * 2 \<le> j \<and> j < stride st ! 0 then 0
                     else sweep_array g (\<lambda>j. if 0 \<le> j \<and> j < stride_dim st then 0 else F j)
                            (stride_dim st) (max (stride_dim st) (stride st ! 0 - stride_dim st * 2)) j)"
proof -
  have h: "(stride st ! 0 - stride_dim st * 2) mod 8 = 0" using S by presburger
  obtain m where m: "for_loop (stride_dim st) (stride st ! 0 - stride_dim st * 2) 8
      (\<lambda>i x. bind_err x (Fiph_cell ext gb P i))
      (Inr (st, \<lambda>j. if 0 \<le> j \<and> j < stride_dim st then 0 else F j))
     = Inr (lam st m, sweep_array g (\<lambda>j. if 0 \<le> j \<and> j < stride_dim st then 0 else F j)
                            (stride_dim st) (max (stride_dim st) (stride st ! 0 - stride_dim st * 2)))"
    using Fiph_main_loop [OF hll g S(1) h] by blast
  show ?thesis
    unfolding Fiph_def Let_def for_loop_assign m
    by (intro exI [of _ m]) (simp add: bind_err_def)
qed

subsection \<open>Constrained transport\<close>

text \<open>
  C4. After \<^verbatim>\<open>constraint_transport_2d\<close> the \<open>Bx\<close> slot of the x-flux and the \<open>By\<close> slot of
  the y-flux are exactly 0 in every cell \<open>c\<close> of the grid (\<open>0 \<le> c\<close>, \<open>8 c < stride[0]\<close>),
  and after \<^verbatim>\<open>constraint_transport_3d\<close> so are the \<open>Bx\<close> slot of the x-flux, the \<open>By\<close> slot
  of the y-flux and the \<open>Bz\<close> slot of the z-flux, whatever the fluxes and the malloc'ed
  buffers held before.
\<close>

theorem constraint_transport_self_flux_zero:
  assumes "0 \<le> c" and "8 * c < stride st ! 0"
  shows "fst (constraint_transport_2d gb st Fx Fy) (8 * c + int Bx) = 0 \<and>
         snd (constraint_transport_2d gb st Fx Fy) (8 * c + int By) = 0 \<and>
         fst (constraint_transport_3d gb st Fx Fy Fz) (8 * c + int Bx) = 0 \<and>
         fst (snd (constraint_transport_3d gb st Fx Fy Fz)) (8 * c + int By) = 0 \<and>
         snd (snd (constraint_transport_3d gb st Fx Fy Fz)) (8 * c + int Bz) = 0"
  using ct2d_self_flux [OF assms] ct3d_self_flux [OF assms] by simp

theorem constraint_transport_self_flux_zero_witness:
  "(0 :: int) \<le> 3 \<and> 8 * 3 < stride mc_example_state ! 0 \<and>
   fst (constraint_transport_2d zero_memory mc_example_state falling_density falling_density)
     (8 * 3 + int Bx) = 0 \<and>
   snd (constraint_transport_2d zero_memory mc_example_state falling_density falling_density)
     (8 * 3 + int By) = 0 \<and>
   fst (constraint_transport_3d zero_memory mc_example_state falling_density falling_density
          falling_density) (8 * 3 + int Bx) = 0 \<and>
   fst (snd (constraint_transport_3d zero_memory mc_example_state falling_density falling_density
          falling_density)) (8 * 3 + int By) = 0 \<and>
   snd (snd (constraint_transport_3d zero_memory mc_example_state falling_density falling_density
          falling_density)) (8 * 3 + int Bz) = 0"
proof -
  have h: "(0 :: int) \<le> 3" "8 * 3 < stride mc_example_state ! 0"
    by (simp_all add: mc_example_state_def)
  show ?thesis
    using h constraint_transport_self_flux_zero
      [OF h, of zero_memory falling_density falling_density falling_density]
    by simp
qed

lemma map_err_total:
  "(\<And>x. x \<in> set xs \<Longrightarrow> \<exists>y. f x = Inr y) \<Longrightarrow> \<exists>ys. map_err f xs = Inr ys"
proof (induction xs)
  case Nil
  then show ?case by simp
next
  case (Cons a xs)
  obtain y where y: "f a = Inr y" using Cons.prems by auto
  obtain ys where ys: "map_err f xs = Inr ys" using Cons by auto
  show ?case by (simp add: y ys bind_err_def)
qed

lemma reconstruct_use_3vel_total:
  assumes "slope_limiter st = Some Ptr_plm_minmod \<or> slope_limiter st = Some Ptr_MC_limiter"
  shows "\<exists>Pl Pr. reconstruct_use_3vel st P i0 = Inr (Pl, Pr)"
proof -
  have c: "\<exists>y. call_slope_limiter st a b c = Inr y" for a b c
    using assms by (auto simp: call_slope_limiter_def)
  let ?f = "\<lambda>i. bind_err (call_slope_limiter st (P (i0 + int i)) (P (i0 + stride_dim st + int i))
                          (P (i0 + 2 * stride_dim st + int i))) (\<lambda>sr.
              bind_err (call_slope_limiter st (P (i0 - stride_dim st + int i)) (P (i0 + int i))
                          (P (i0 + stride_dim st + int i))) (\<lambda>sl.
              Inr (P (i0 + int i) + (1 / 2) * sl, P (i0 + stride_dim st + int i) - (1 / 2) * sr)))"
  have "\<exists>y. ?f i = Inr y" for i
  proof -
    obtain sr where sr: "call_slope_limiter st (P (i0 + int i)) (P (i0 + stride_dim st + int i))
                          (P (i0 + 2 * stride_dim st + int i)) = Inr sr" using c by blast
    obtain sl where sl: "call_slope_limiter st (P (i0 - stride_dim st + int i)) (P (i0 + int i))
                          (P (i0 + stride_dim st + int i)) = Inr sl" using c by blast
    show ?thesis by (simp add: sr sl bind_err_def)
  qed
  then obtain ys where "map_err ?f [0..<8] = Inr ys" using map_err_total [of "[0..<8]" ?f] by blast
  then show ?thesis
    unfolding reconstruct_use_3vel_def Let_def by (simp add: bind_err_def)
qed

lemma interface_flux_total:
  assumes "limiter_total st"
  shows "\<exists>Fi. interface_flux ext st P i = Inr Fi"
proof -
  have "\<exists>Pl Pr. (case mode_reconstruct (lib_state st) of
          Reconstruct_PiecewiseConstant \<Rightarrow> Inr (cell P i, cell P (i + stride_dim st))
        | Reconstruct_PLM3Velocity \<Rightarrow> reconstruct_use_3vel st P i
        | Reconstruct_PLM4Velocity \<Rightarrow>
            reconstruct_use_4vel st P i (lib_ux st) (lib_uy st) (lib_uz st) (i div 8)) = Inr (Pl, Pr)"
    using assms reconstruct_use_3vel_total [of st P i]
      reconstruct_use_4vel_total [of st P i "lib_ux st" "lib_uy st" "lib_uz st" "i div 8"]
    unfolding limiter_total_def
    by (cases "mode_reconstruct (lib_state st)") auto
  then obtain Pl Pr where r: "(case mode_reconstruct (lib_state st) of
          Reconstruct_PiecewiseConstant \<Rightarrow> Inr (cell P i, cell P (i + stride_dim st))
        | Reconstruct_PLM3Velocity \<Rightarrow> reconstruct_use_3vel st P i
        | Reconstruct_PLM4Velocity \<Rightarrow>
            reconstruct_use_4vel st P i (lib_ux st) (lib_uy st) (lib_uz st) (i div 8)) = Inr (Pl, Pr)"
    by blast
  show ?thesis
    unfolding interface_flux_def r
    by (cases "mode_riemann_solver (lib_state st)") (simp_all add: bind_err_def)
qed

lemma limiter_total_lam [simp]: "limiter_total (lam st m) = limiter_total st"
  by (simp only: limiter_total_def lam_fields)

lemma limiter_total_touch [simp]: "limiter_total (touch st a b c d e) = limiter_total st"
  by (simp only: limiter_total_def touch_fields)

lemma limiter_total_updates [simp]:
  "limiter_total (st\<lparr>dimension := d\<rparr>) = limiter_total st"
  "limiter_total (st\<lparr>PrimitiveArray := A\<rparr>) = limiter_total st"
  "limiter_total (st\<lparr>FluxInterArray_x := A\<rparr>) = limiter_total st"
  "limiter_total (st\<lparr>FluxInterArray_y := A\<rparr>) = limiter_total st"
  "limiter_total (st\<lparr>FluxInterArray_z := A\<rparr>) = limiter_total st"
  by (simp_all add: limiter_total_def)

lemma total_inv_step:
  assumes "limiter_total st" "total_inv st x"
  shows "total_inv st (bind_err x (Fiph_cell ext gb P i))"
proof -
  obtain m F where x: "x = Inr (lam st m, F)" using assms(2) unfolding total_inv_def by blast
  obtain m' where c: "Fiph_cell ext gb P i (lam st m, F) =
          bind_err (interface_flux ext (lam st m) P i) (\<lambda>Fi. Inr (lam st m', store_cell F i Fi))"
    using Fiph_cell_lam by blast
  obtain Fi where f: "interface_flux ext (lam st m) P i = Inr Fi"
    using interface_flux_total [of "lam st m" ext P i] assms(1) by auto
  show ?thesis
    unfolding x total_inv_def
    by (intro exI [of _ m'] exI [of _ "store_cell F i Fi"]) (simp add: bind_err_def c f)
qed

lemma Fiph_total:
  assumes "limiter_total st"
  shows "\<exists>m F'. Fiph ext gb st P F = Inr (lam st m, F')"
proof -
  let ?F1 = "for_loop 0 (stride_dim st) 1 (\<lambda>i F. F(i := 0)) F"
  let ?res = "for_loop (stride_dim st) (stride st ! 0 - stride_dim st * 2) 8
      (\<lambda>i x. bind_err x (Fiph_cell ext gb P i)) (Inr (st, ?F1))"
  have init: "total_inv st (Inr (st, ?F1))"
    unfolding total_inv_def using lam_self [of st] by (metis (full_types))
  have "\<exists>i. stride st ! 0 - stride_dim st * 2 \<le> i \<and> stride_dim st \<le> i \<and> total_inv st ?res"
    by (rule for_loop_rule [where I = "\<lambda>i. total_inv st", OF init total_inv_step [OF assms]]) simp_all
  then obtain m F2 where r: "?res = Inr (lam st m, F2)" unfolding total_inv_def by blast
  show ?thesis
    unfolding Fiph_def Let_def r by (intro exI [of _ m]) (simp add: bind_err_def)
qed

lemma Fiph_tail_zero:
  assumes "Fiph ext gb st P F = Inr (st', F')"
    and "stride st ! 0 - stride_dim st * 2 \<le> j" "j < stride st ! 0"
  shows "F' j = 0"
proof -
  obtain F2 where
    "F' = for_loop (stride st ! 0 - stride_dim st * 2) (stride st ! 0) 1 (\<lambda>i F. F(i := 0)) F2"
    using assms(1) unfolding Fiph_def Let_def bind_err_def
    by (auto split: sum.splits)
  then show ?thesis using assms(2,3) by (simp add: for_loop_assign)
qed

lemma pass_None:
  "\<exists>f P it w ux uy uz.
     cons_to_prim_array st U None N = Inr (f, P, (touch st it w ux uy uz)\<lparr>PrimitiveArray := P\<rparr>)"
  using cons_to_prim_array_returns [of st U None N] by (elim exE conjE) (simp, blast)

lemma stride_dim_updates [simp]:
  "stride_dim (st\<lparr>FluxInterArray_x := A\<rparr>) = stride_dim st"
  "stride_dim (st\<lparr>FluxInterArray_y := A\<rparr>) = stride_dim st"
  "stride_dim (st\<lparr>FluxInterArray_z := A\<rparr>) = stride_dim st"
  "stride_dim (st\<lparr>PrimitiveArray := A\<rparr>) = stride_dim st"
  "stride_dim (st\<lparr>dimension := d\<rparr>) = stride st ! dim_index d"
  "stride_dim (touch st a b c d' e) = stride_dim st"
  by (simp_all add: stride_dim_def)

lemma Fiph_dim:
  assumes "Fiph ext gb (st\<lparr>dimension := d\<rparr>) P F = Inr (st2, F')"
  shows "\<exists>m. st2 = lam (st\<lparr>dimension := d\<rparr>) m"
  using Fiph_state [OF assms] .

lemma rest_grid_fields [simp]:
  "stride rest_grid = [112, 8, 8, 8]"
  "libopstate rest_grid = LibraryOperation_Alive"
  "slope_limiter rest_grid = Some Ptr_plm_minmod"
  "dx rest_grid = 1 / 10"
  "lib_state rest_grid = lib_state_init\<lparr>cons_to_prim_use_estimate := 1\<rparr>"
  by (simp_all add: rest_grid_def initialize_def est_state_def set_state_def engine_start_def
      lib_state_init_def)

lemma limiter_total_rest_grid [simp]: "limiter_total rest_grid"
  by (simp add: limiter_total_def)

lemma sweep_simps [simp]:
  "sweep (Inr x) f nan = f x"
  "sweep (Inl DivisionByZero) f nan = Inr nan"
  "sweep (Inl NullFunctionPointer) f nan = Inl NullFunctionPointer"
  "sweep (Inl LoopDiverges) f nan = Inl LoopDiverges"
  by (simp_all add: sweep_def)

lemma sweep_cases:
  assumes "sweep m f nan = Inr y"
  shows "(\<exists>x. m = Inr x \<and> f x = Inr y) \<or> (m = Inl DivisionByZero \<and> y = nan)"
proof (cases m)
  case (Inl e)
  then show ?thesis using assms by (cases e) simp_all
next
  case (Inr x)
  then show ?thesis using assms by simp
qed

lemma value_or_division_simps [simp]:
  "value_or_division (Inr x)" "value_or_division (Inl e) = (e = DivisionByZero)"
  by (simp_all add: value_or_division_def)

lemma value_or_division_bind:
  assumes "value_or_division m" and "\<And>x. m = Inr x \<Longrightarrow> value_or_division (f x)"
  shows "value_or_division (bind_err m f)"
  using assms by (cases m) (simp_all add: bind_err_def)

lemma value_or_division_map_err:
  assumes "\<And>x. x \<in> set xs \<Longrightarrow> value_or_division (f x)"
  shows "value_or_division (map_err f xs)"
  using assms
proof (induction xs)
  case Nil
  then show ?case by simp
next
  case (Cons a xs)
  show ?case
    unfolding map_err.simps
    by (intro value_or_division_bind) (use Cons in simp_all)
qed

lemma sweep_total:
  assumes "value_or_division m" and "\<And>x. m = Inr x \<Longrightarrow> \<exists>y. f x = Inr y"
  shows "\<exists>y. sweep m f nan = Inr y"
proof (cases m)
  case (Inl e)
  then show ?thesis using assms(1) by simp
next
  case (Inr x)
  then show ?thesis using assms(2) by simp
qed

lemma call_slope_limiter_value_or_division:
  assumes "slope_limiter st \<noteq> None"
  shows "value_or_division (call_slope_limiter st a b c)"
proof -
  obtain p where p: "slope_limiter st = Some p" using assms by blast
  show ?thesis
    unfolding call_slope_limiter_def p
    by (cases p) (simp_all add: harmonic_mean_def Let_def)
qed

lemma reconstruct_use_3vel_value_or_division:
  assumes "slope_limiter st \<noteq> None"
  shows "value_or_division (reconstruct_use_3vel st P i0)"
  unfolding reconstruct_use_3vel_def Let_def
  by (intro value_or_division_bind value_or_division_map_err
      call_slope_limiter_value_or_division [OF assms]) simp_all

lemma reconstruct_use_4vel_value_or_division:
  assumes "slope_limiter st \<noteq> None"
  shows "value_or_division (reconstruct_use_4vel st P i0 ux uy uz iu)"
  unfolding reconstruct_use_4vel_def Let_def
  by (intro value_or_division_bind call_slope_limiter_value_or_division [OF assms]) simp_all

lemma interface_flux_value_or_division:
  assumes "limiter_set st"
  shows "value_or_division (interface_flux ext st P i)"
proof -
  have r: "value_or_division (case mode_reconstruct (lib_state st) of
          Reconstruct_PiecewiseConstant \<Rightarrow> Inr (cell P i, cell P (i + stride_dim st))
        | Reconstruct_PLM3Velocity \<Rightarrow> reconstruct_use_3vel st P i
        | Reconstruct_PLM4Velocity \<Rightarrow>
            reconstruct_use_4vel st P i (lib_ux st) (lib_uy st) (lib_uz st) (i div 8))"
    using assms reconstruct_use_3vel_value_or_division [of st P i]
      reconstruct_use_4vel_value_or_division [of st P i "lib_ux st" "lib_uy st" "lib_uz st" "i div 8"]
    unfolding limiter_set_def
    by (cases "mode_reconstruct (lib_state st)") auto
  show ?thesis
    unfolding interface_flux_def
    by (rule value_or_division_bind [OF r])
       (auto split: RiemannSolverMode.splits)
qed

lemma limiter_set_lam [simp]: "limiter_set (lam st m) = limiter_set st"
  by (simp only: limiter_set_def lam_fields)

lemma limiter_set_touch [simp]: "limiter_set (touch st a b c d e) = limiter_set st"
  by (simp only: limiter_set_def touch_fields)

lemma limiter_set_updates [simp]:
  "limiter_set (st\<lparr>dimension := d\<rparr>) = limiter_set st"
  "limiter_set (st\<lparr>PrimitiveArray := A\<rparr>) = limiter_set st"
  "limiter_set (st\<lparr>FluxInterArray_x := A\<rparr>) = limiter_set st"
  "limiter_set (st\<lparr>FluxInterArray_y := A\<rparr>) = limiter_set st"
  "limiter_set (st\<lparr>FluxInterArray_z := A\<rparr>) = limiter_set st"
  by (simp_all add: limiter_set_def)

lemma limiter_total_set: "limiter_total st \<Longrightarrow> limiter_set st"
  by (auto simp: limiter_total_def limiter_set_def)

lemma value_or_division_step:
  assumes "limiter_set st" "weak_inv st x" "value_or_division x"
  shows "weak_inv st (bind_err x (Fiph_cell ext gb P i)) \<and>
         value_or_division (bind_err x (Fiph_cell ext gb P i))"
proof (cases x)
  case (Inl e)
  then show ?thesis using assms(3) by (simp add: weak_inv_def bind_err_def)
next
  case (Inr y)
  obtain s F where y: "y = (s, F)" by (cases y)
  obtain m where s: "s = lam st m" using assms(2) Inr y unfolding weak_inv_def by blast
  obtain m' where c: "Fiph_cell ext gb P i (lam st m, F) =
          bind_err (interface_flux ext (lam st m) P i) (\<lambda>Fi. Inr (lam st m', store_cell F i Fi))"
    using Fiph_cell_lam by blast
  have v: "value_or_division (interface_flux ext (lam st m) P i)"
    by (rule interface_flux_value_or_division) (simp add: assms(1))
  have "value_or_division (bind_err x (Fiph_cell ext gb P i))"
    unfolding Inr y s bind_err_def sum.case c
    using v by (cases "interface_flux ext (lam st m) P i") simp_all
  then show ?thesis using weak_inv_step [OF assms(2)] by blast
qed

lemma Fiph_value_or_division:
  assumes "limiter_set st"
  shows "value_or_division (Fiph ext gb st P F)"
proof -
  let ?F1 = "for_loop 0 (stride_dim st) 1 (\<lambda>i F. F(i := 0)) F"
  let ?res = "for_loop (stride_dim st) (stride st ! 0 - stride_dim st * 2) 8
      (\<lambda>i x. bind_err x (Fiph_cell ext gb P i)) (Inr (st, ?F1))"
  let ?I = "\<lambda>(i :: int) x. weak_inv st x \<and> value_or_division x"
  have w: "weak_inv st (Inr (st, ?F1))"
    unfolding weak_inv_def using lam_self [of st] by (metis Inr_inject prod.inject)
  have init: "?I (stride_dim st) (Inr (st, ?F1))" using w by simp
  have "\<exists>i. stride st ! 0 - stride_dim st * 2 \<le> i \<and> stride_dim st \<le> i \<and> ?I i ?res"
    by (rule for_loop_rule [where I = ?I, OF init]) (use value_or_division_step [OF assms] in auto)
  then have v: "value_or_division ?res" by blast
  show ?thesis
    unfolding Fiph_def Let_def
    by (rule value_or_division_bind [OF v]) auto
qed

lemma output_at_simps [simp]:
  "output_at (Inr (r, L, so)) j = L j" "output_at (Inl e) j = None"
  by (simp_all add: output_at_def)

lemma failures_of_simps [simp]:
  "failures_of (Inr (r, L, so)) = Some r" "failures_of (Inl e) = None"
  by (simp_all add: failures_of_def)

lemma globals_of_simps [simp]:
  "globals_of (Inr (r, L, so)) = so" "globals_of (Inl e) = None"
  by (simp_all add: globals_of_def)

lemma returns_simps [simp]: "returns (Inr x)" "\<not> returns (Inl e)"
  by (simp_all add: returns_def)

lemma returns_iff: "returns res = (\<exists>y. res = Inr y)"
  by (cases res) auto

lemma alive_iff: "(libopstate st = LibraryOperation_Alive) = (libopstate st \<noteq> LibraryOperation_Dead)"
  by (cases "libopstate st") simp_all

text \<open>The value at index \<open>j\<close> of \<^verbatim>\<open>L\<close> after a live call that leaves the globals \<open>so\<close>.\<close>

lemma not_followed_written:
  assumes "Inr (not_followed st1 f L) = Inr (r, L', so)" and "stride st1 = stride st"
  shows "r = f \<and> so = None \<and>
         L' j = (if stride st ! 1 \<le> j \<and> j < stride st ! 0 then None else Some (L j))"
  using assms unfolding not_followed_def for_loop_assign by auto

lemma dUdt_1d_after_pass:
  assumes alive: "libopstate st \<noteq> LibraryOperation_Dead"
    and a: "cons_to_prim_array st U None (stride st ! 0 div 8) = Inr (f, P, st1)"
  shows "dUdt_1d ext gb st U L =
           sweep (Fiph ext gb (st1\<lparr>dimension := Dim1\<rparr>) P (FluxInterArray_x st1)) (\<lambda>(st2, F).
             Inr (f,
                  (\<lambda>j. if stride_dim st2 \<le> j \<and> j < stride st2 ! 0
                       then (if dx st2 = 0 then None
                             else Some (- (F j - F (j - stride_dim st2)) / dx st2))
                       else Some (L j)),
                  Some (st2\<lparr>FluxInterArray_x := F\<rparr>)))
             (not_followed st1 f L)"
  unfolding dUdt_1d_def a Let_def for_loop_assign using alive
  by (simp add: bind_err_def split_def cong: if_cong)

lemma dUdt_2d_after_pass:
  assumes alive: "libopstate st \<noteq> LibraryOperation_Dead"
    and a: "cons_to_prim_array st U None (stride st ! 0 div 8) = Inr (f, P, st1)"
  shows "dUdt_2d ext gb st U L =
           sweep (Fiph ext gb (st1\<lparr>dimension := Dim1\<rparr>) P (FluxInterArray_x st1)) (\<lambda>(st2, F).
           sweep (Fiph ext gb (st2\<lparr>dimension := Dim2\<rparr>) P (FluxInterArray_y st2)) (\<lambda>(st3, G).
             Inr (f,
                  (\<lambda>j. if stride st ! 1 \<le> j \<and> j < stride st3 ! 0
                       then (if dx st3 = 0 \<or> dy st3 = 0 then None
                             else Some (- (fst (constraint_transport_2d gb st3 F G) j
                                   - fst (constraint_transport_2d gb st3 F G) (j - stride st ! 1)) / dx st3
                                - (snd (constraint_transport_2d gb st3 F G) j
                                   - snd (constraint_transport_2d gb st3 F G) (j - stride st ! 2)) / dy st3))
                       else Some (L j)),
                  Some (st3\<lparr>FluxInterArray_x := fst (constraint_transport_2d gb st3 F G),
                            FluxInterArray_y := snd (constraint_transport_2d gb st3 F G)\<rparr>)))
             (not_followed st1 f L))
             (not_followed st1 f L)"
  unfolding dUdt_2d_def a Let_def for_loop_assign using alive
  by (simp add: bind_err_def split_def cong: if_cong)

lemma dUdt_3d_after_pass:
  assumes alive: "libopstate st \<noteq> LibraryOperation_Dead"
    and a: "cons_to_prim_array st U None (stride st ! 0 div 8) = Inr (f, P, st1)"
  shows "dUdt_3d ext gb st U L =
           sweep (Fiph ext gb (st1\<lparr>dimension := Dim1\<rparr>) P (FluxInterArray_x st1)) (\<lambda>(st2, F).
           sweep (Fiph ext gb (st2\<lparr>dimension := Dim2\<rparr>) P (FluxInterArray_y st2)) (\<lambda>(st3, G).
           sweep (Fiph ext gb (st3\<lparr>dimension := Dim3\<rparr>) P (FluxInterArray_z st3)) (\<lambda>(st4, H).
             Inr (f,
                  (\<lambda>j. if stride st ! 1 \<le> j \<and> j < stride st4 ! 0
                       then (if dx st4 = 0 \<or> dy st4 = 0 \<or> dz st4 = 0 then None
                             else Some (- (fst (constraint_transport_3d gb st4 F G H) j
                                   - fst (constraint_transport_3d gb st4 F G H) (j - stride st ! 1)) / dx st4
                                - (fst (snd (constraint_transport_3d gb st4 F G H)) j
                                   - fst (snd (constraint_transport_3d gb st4 F G H)) (j - stride st ! 2)) / dy st4
                                - (snd (snd (constraint_transport_3d gb st4 F G H)) j
                                   - snd (snd (constraint_transport_3d gb st4 F G H)) (j - stride st ! 3)) / dz st4))
                       else Some (L j)),
                  Some (st4\<lparr>FluxInterArray_x := fst (constraint_transport_3d gb st4 F G H),
                            FluxInterArray_y := fst (snd (constraint_transport_3d gb st4 F G H)),
                            FluxInterArray_z := snd (snd (constraint_transport_3d gb st4 F G H))\<rparr>)))
             (not_followed st1 f L))
             (not_followed st1 f L))
             (not_followed st1 f L)"
  unfolding dUdt_3d_def a Let_def for_loop_assign using alive
  by (simp add: bind_err_def split_def cong: if_cong)

lemma dUdt_1d_written:
  assumes res: "dUdt_1d ext gb st U L = Inr (r, L', so)"
  shows "L' j = (if libopstate st = LibraryOperation_Alive \<and> stride st ! 1 \<le> j \<and> j < stride st ! 0
                 then (case so of None \<Rightarrow> None | Some s \<Rightarrow> stored_1d s j) else Some (L j))"
proof (cases "libopstate st = LibraryOperation_Dead")
  case True
  then show ?thesis using res by (auto simp: dUdt_1d_def)
next
  case False
  then have al: "libopstate st = LibraryOperation_Alive" by (simp add: alive_iff)
  obtain f P it w ux uy uz where
    a: "cons_to_prim_array st U None (stride st ! 0 div 8)
          = Inr (f, P, (touch st it w ux uy uz)\<lparr>PrimitiveArray := P\<rparr>)"
    using pass_None by blast
  define st1 where "st1 = (touch st it w ux uy uz)\<lparr>PrimitiveArray := P\<rparr>"
  note a = a [folded st1_def]
  have s1: "stride st1 = stride st" "dx st1 = dx st" by (simp_all add: st1_def)
  note c = sweep_cases [OF res [unfolded dUdt_1d_after_pass [OF False a]]]
  show ?thesis
  proof (rule disjE [OF c])
    assume "Fiph ext gb (st1\<lparr>dimension := Dim1\<rparr>) P (FluxInterArray_x st1) = Inl DivisionByZero \<and>
            (r, L', so) = not_followed st1 f L"
    then have "Inr (not_followed st1 f L) = Inr (r, L', so)" by simp
    from not_followed_written [OF this s1(1), of j] show ?thesis using al by simp
  next
    assume "\<exists>x. Fiph ext gb (st1\<lparr>dimension := Dim1\<rparr>) P (FluxInterArray_x st1) = Inr x \<and>
         (case x of (st2, F) \<Rightarrow>
             Inr (f,
                  (\<lambda>j. if stride_dim st2 \<le> j \<and> j < stride st2 ! 0
                       then (if dx st2 = 0 then None
                             else Some (- (F j - F (j - stride_dim st2)) / dx st2))
                       else Some (L j)),
                  Some (st2\<lparr>FluxInterArray_x := F\<rparr>))) = Inr (r, L', so)"
    then obtain st2 F where b: "Fiph ext gb (st1\<lparr>dimension := Dim1\<rparr>) P (FluxInterArray_x st1) = Inr (st2, F)"
      and e: "L' = (\<lambda>j. if stride_dim st2 \<le> j \<and> j < stride st2 ! 0
                       then (if dx st2 = 0 then None
                             else Some (- (F j - F (j - stride_dim st2)) / dx st2))
                       else Some (L j))"
        "so = Some (st2\<lparr>FluxInterArray_x := F\<rparr>)"
      by auto
    obtain m1 where m1: "st2 = lam (st1\<lparr>dimension := Dim1\<rparr>) m1" using Fiph_state [OF b] by blast
    have s2: "stride st2 = stride st" "dx st2 = dx st" "stride_dim st2 = stride st ! 1"
      by (simp_all add: m1 s1)
    show ?thesis
      unfolding e stored_1d_def using al by (simp add: s2)
  qed
qed

lemma dUdt_2d_written:
  assumes res: "dUdt_2d ext gb st U L = Inr (r, L', so)"
  shows "L' j = (if libopstate st = LibraryOperation_Alive \<and> stride st ! 1 \<le> j \<and> j < stride st ! 0
                 then (case so of None \<Rightarrow> None | Some s \<Rightarrow> stored_2d s j) else Some (L j))"
proof (cases "libopstate st = LibraryOperation_Dead")
  case True
  then show ?thesis using res by (auto simp: dUdt_2d_def)
next
  case False
  then have al: "libopstate st = LibraryOperation_Alive" by (simp add: alive_iff)
  obtain f P it w ux uy uz where
    a: "cons_to_prim_array st U None (stride st ! 0 div 8)
          = Inr (f, P, (touch st it w ux uy uz)\<lparr>PrimitiveArray := P\<rparr>)"
    using pass_None by blast
  define st1 where "st1 = (touch st it w ux uy uz)\<lparr>PrimitiveArray := P\<rparr>"
  note a = a [folded st1_def]
  have s1: "stride st1 = stride st" "dx st1 = dx st" "dy st1 = dy st" by (simp_all add: st1_def)
  have nan: ?thesis if "(r, L', so) = not_followed st1 f L"
  proof -
    have "Inr (not_followed st1 f L) = Inr (r, L', so)" using that by simp
    from not_followed_written [OF this s1(1), of j] show ?thesis using al by simp
  qed
  note c = sweep_cases [OF res [unfolded dUdt_2d_after_pass [OF False a]]]
  show ?thesis
  proof (rule disjE [OF c])
    assume "Fiph ext gb (st1\<lparr>dimension := Dim1\<rparr>) P (FluxInterArray_x st1) = Inl DivisionByZero \<and>
            (r, L', so) = not_followed st1 f L"
    then show ?thesis using nan by blast
  next
    assume "\<exists>x. Fiph ext gb (st1\<lparr>dimension := Dim1\<rparr>) P (FluxInterArray_x st1) = Inr x \<and>
         (case x of (st2, F) \<Rightarrow>
           sweep (Fiph ext gb (st2\<lparr>dimension := Dim2\<rparr>) P (FluxInterArray_y st2)) (\<lambda>(st3, G).
             Inr (f,
                  (\<lambda>j. if stride st ! 1 \<le> j \<and> j < stride st3 ! 0
                       then (if dx st3 = 0 \<or> dy st3 = 0 then None
                             else Some (- (fst (constraint_transport_2d gb st3 F G) j
                                   - fst (constraint_transport_2d gb st3 F G) (j - stride st ! 1)) / dx st3
                                - (snd (constraint_transport_2d gb st3 F G) j
                                   - snd (constraint_transport_2d gb st3 F G) (j - stride st ! 2)) / dy st3))
                       else Some (L j)),
                  Some (st3\<lparr>FluxInterArray_x := fst (constraint_transport_2d gb st3 F G),
                            FluxInterArray_y := snd (constraint_transport_2d gb st3 F G)\<rparr>)))
             (not_followed st1 f L)) = Inr (r, L', so)"
    then obtain st2 F where b: "Fiph ext gb (st1\<lparr>dimension := Dim1\<rparr>) P (FluxInterArray_x st1) = Inr (st2, F)"
      and r2: "sweep (Fiph ext gb (st2\<lparr>dimension := Dim2\<rparr>) P (FluxInterArray_y st2)) (\<lambda>(st3, G).
             Inr (f,
                  (\<lambda>j. if stride st ! 1 \<le> j \<and> j < stride st3 ! 0
                       then (if dx st3 = 0 \<or> dy st3 = 0 then None
                             else Some (- (fst (constraint_transport_2d gb st3 F G) j
                                   - fst (constraint_transport_2d gb st3 F G) (j - stride st ! 1)) / dx st3
                                - (snd (constraint_transport_2d gb st3 F G) j
                                   - snd (constraint_transport_2d gb st3 F G) (j - stride st ! 2)) / dy st3))
                       else Some (L j)),
                  Some (st3\<lparr>FluxInterArray_x := fst (constraint_transport_2d gb st3 F G),
                            FluxInterArray_y := snd (constraint_transport_2d gb st3 F G)\<rparr>)))
             (not_followed st1 f L) = Inr (r, L', so)"
      by auto
    obtain m1 where m1: "st2 = lam (st1\<lparr>dimension := Dim1\<rparr>) m1" using Fiph_state [OF b] by blast
    show ?thesis
    proof (rule disjE [OF sweep_cases [OF r2]])
      assume "Fiph ext gb (st2\<lparr>dimension := Dim2\<rparr>) P (FluxInterArray_y st2) = Inl DivisionByZero \<and>
            (r, L', so) = not_followed st1 f L"
      then show ?thesis using nan by blast
    next
      assume "\<exists>x. Fiph ext gb (st2\<lparr>dimension := Dim2\<rparr>) P (FluxInterArray_y st2) = Inr x \<and>
         (case x of (st3, G) \<Rightarrow>
             Inr (f,
                  (\<lambda>j. if stride st ! 1 \<le> j \<and> j < stride st3 ! 0
                       then (if dx st3 = 0 \<or> dy st3 = 0 then None
                             else Some (- (fst (constraint_transport_2d gb st3 F G) j
                                   - fst (constraint_transport_2d gb st3 F G) (j - stride st ! 1)) / dx st3
                                - (snd (constraint_transport_2d gb st3 F G) j
                                   - snd (constraint_transport_2d gb st3 F G) (j - stride st ! 2)) / dy st3))
                       else Some (L j)),
                  Some (st3\<lparr>FluxInterArray_x := fst (constraint_transport_2d gb st3 F G),
                            FluxInterArray_y := snd (constraint_transport_2d gb st3 F G)\<rparr>))) = Inr (r, L', so)"
      then obtain st3 G where c3: "Fiph ext gb (st2\<lparr>dimension := Dim2\<rparr>) P (FluxInterArray_y st2) = Inr (st3, G)"
        and e: "L' = (\<lambda>j. if stride st ! 1 \<le> j \<and> j < stride st3 ! 0
                       then (if dx st3 = 0 \<or> dy st3 = 0 then None
                             else Some (- (fst (constraint_transport_2d gb st3 F G) j
                                   - fst (constraint_transport_2d gb st3 F G) (j - stride st ! 1)) / dx st3
                                - (snd (constraint_transport_2d gb st3 F G) j
                                   - snd (constraint_transport_2d gb st3 F G) (j - stride st ! 2)) / dy st3))
                       else Some (L j))"
          "so = Some (st3\<lparr>FluxInterArray_x := fst (constraint_transport_2d gb st3 F G),
                            FluxInterArray_y := snd (constraint_transport_2d gb st3 F G)\<rparr>)"
        by auto
      obtain m2 where m2: "st3 = lam (st2\<lparr>dimension := Dim2\<rparr>) m2" using Fiph_state [OF c3] by blast
      have s3: "stride st3 = stride st" "dx st3 = dx st" "dy st3 = dy st"
        by (simp_all add: m2 m1 s1)
      show ?thesis
        unfolding e stored_2d_def using al by (simp add: s3)
    qed
  qed
qed

lemma sweep_written:
  assumes "sweep m (\<lambda>(s, F). k s F) nan = Inr y"
  obtains (nan) "m = Inl DivisionByZero" "y = nan"
    | (ok) s F where "m = Inr (s, F)" "k s F = Inr y"
  using sweep_cases [OF assms] by auto

lemma dUdt_3d_written:
  assumes res: "dUdt_3d ext gb st U L = Inr (r, L', so)"
  shows "L' j = (if libopstate st = LibraryOperation_Alive \<and> stride st ! 1 \<le> j \<and> j < stride st ! 0
                 then (case so of None \<Rightarrow> None | Some s \<Rightarrow> stored_3d s j) else Some (L j))"
proof (cases "libopstate st = LibraryOperation_Dead")
  case True
  then show ?thesis using res by (auto simp: dUdt_3d_def)
next
  case False
  then have al: "libopstate st = LibraryOperation_Alive" by (simp add: alive_iff)
  obtain f P it w ux uy uz where
    a: "cons_to_prim_array st U None (stride st ! 0 div 8)
          = Inr (f, P, (touch st it w ux uy uz)\<lparr>PrimitiveArray := P\<rparr>)"
    using pass_None by blast
  define st1 where "st1 = (touch st it w ux uy uz)\<lparr>PrimitiveArray := P\<rparr>"
  note a = a [folded st1_def]
  have s1: "stride st1 = stride st" "dx st1 = dx st" "dy st1 = dy st" "dz st1 = dz st"
    by (simp_all add: st1_def)
  have nan: ?thesis if "(r, L', so) = not_followed st1 f L"
  proof -
    have "Inr (not_followed st1 f L) = Inr (r, L', so)" using that by simp
    from not_followed_written [OF this s1(1), of j] show ?thesis using al by simp
  qed
  from res [unfolded dUdt_3d_after_pass [OF False a]] show ?thesis
  proof (cases rule: sweep_written)
    case nan
    then show ?thesis using \<open>(r, L', so) = not_followed st1 f L \<Longrightarrow> ?thesis\<close> by simp
  next
    case (ok st2 F)
    obtain m1 where m1: "st2 = lam (st1\<lparr>dimension := Dim1\<rparr>) m1" using Fiph_state [OF ok(1)] by blast
    from ok(2) show ?thesis
    proof (cases rule: sweep_written)
      case nan
      then show ?thesis using \<open>(r, L', so) = not_followed st1 f L \<Longrightarrow> ?thesis\<close> by simp
    next
      case (ok st3 G)
      obtain m2 where m2: "st3 = lam (st2\<lparr>dimension := Dim2\<rparr>) m2" using Fiph_state [OF ok(1)] by blast
      from ok(2) show ?thesis
      proof (cases rule: sweep_written)
        case nan
        then show ?thesis using \<open>(r, L', so) = not_followed st1 f L \<Longrightarrow> ?thesis\<close> by simp
      next
        case (ok st4 H)
        obtain m3 where m3: "st4 = lam (st3\<lparr>dimension := Dim3\<rparr>) m3" using Fiph_state [OF ok(1)] by blast
        have s4: "stride st4 = stride st" "dx st4 = dx st" "dy st4 = dy st" "dz st4 = dz st"
          by (simp_all add: m3 m2 m1 s1)
        have e: "L' = (\<lambda>j. if stride st ! 1 \<le> j \<and> j < stride st4 ! 0
                       then (if dx st4 = 0 \<or> dy st4 = 0 \<or> dz st4 = 0 then None
                             else Some (- (fst (constraint_transport_3d gb st4 F G H) j
                                   - fst (constraint_transport_3d gb st4 F G H) (j - stride st ! 1)) / dx st4
                                - (fst (snd (constraint_transport_3d gb st4 F G H)) j
                                   - fst (snd (constraint_transport_3d gb st4 F G H)) (j - stride st ! 2)) / dy st4
                                - (snd (snd (constraint_transport_3d gb st4 F G H)) j
                                   - snd (snd (constraint_transport_3d gb st4 F G H)) (j - stride st ! 3)) / dz st4))
                       else Some (L j))"
          "so = Some (st4\<lparr>FluxInterArray_x := fst (constraint_transport_3d gb st4 F G H),
                            FluxInterArray_y := fst (snd (constraint_transport_3d gb st4 F G H)),
                            FluxInterArray_z := snd (snd (constraint_transport_3d gb st4 F G H))\<rparr>)"
          using ok(2) by simp_all
        show ?thesis
          unfolding e stored_3d_def using al by (simp add: s4)
      qed
    qed
  qed
qed

lemma dUdt_1d_returns:
  assumes "limiter_set st"
  shows "returns (dUdt_1d ext gb st U L)"
proof (cases "libopstate st = LibraryOperation_Dead")
  case True
  then show ?thesis by (simp add: dUdt_1d_def)
next
  case False
  obtain f P it w ux uy uz where
    a: "cons_to_prim_array st U None (stride st ! 0 div 8)
          = Inr (f, P, (touch st it w ux uy uz)\<lparr>PrimitiveArray := P\<rparr>)"
    using pass_None by blast
  define st1 where "st1 = (touch st it w ux uy uz)\<lparr>PrimitiveArray := P\<rparr>"
  note a = a [folded st1_def]
  have t: "limiter_set (st1\<lparr>dimension := d\<rparr>)" for d using assms by (simp add: st1_def)
  have "\<exists>y. dUdt_1d ext gb st U L = Inr y"
    unfolding dUdt_1d_after_pass [OF False a]
    by (rule sweep_total [OF Fiph_value_or_division [OF t]]) auto
  then show ?thesis by (simp add: returns_iff)
qed

lemma dUdt_2d_returns:
  assumes "limiter_set st"
  shows "returns (dUdt_2d ext gb st U L)"
proof (cases "libopstate st = LibraryOperation_Dead")
  case True
  then show ?thesis by (simp add: dUdt_2d_def)
next
  case False
  obtain f P it w ux uy uz where
    a: "cons_to_prim_array st U None (stride st ! 0 div 8)
          = Inr (f, P, (touch st it w ux uy uz)\<lparr>PrimitiveArray := P\<rparr>)"
    using pass_None by blast
  define st1 where "st1 = (touch st it w ux uy uz)\<lparr>PrimitiveArray := P\<rparr>"
  note a = a [folded st1_def]
  have t: "limiter_set (st1\<lparr>dimension := d\<rparr>)" for d using assms by (simp add: st1_def)
  have "\<exists>y. dUdt_2d ext gb st U L = Inr y"
    unfolding dUdt_2d_after_pass [OF False a]
  proof (rule sweep_total [OF Fiph_value_or_division [OF t]])
    fix x assume x: "Fiph ext gb (st1\<lparr>dimension := Dim1\<rparr>) P (FluxInterArray_x st1) = Inr x"
    obtain st2 F where xx: "x = (st2, F)" by (cases x)
    obtain m1 where m1: "st2 = lam (st1\<lparr>dimension := Dim1\<rparr>) m1"
      using Fiph_state [OF x [unfolded xx]] by blast
    have t2: "limiter_set (st2\<lparr>dimension := d\<rparr>)" for d using t by (simp add: m1)
    show "\<exists>y. (case x of (st2, F) \<Rightarrow>
           sweep (Fiph ext gb (st2\<lparr>dimension := Dim2\<rparr>) P (FluxInterArray_y st2)) (\<lambda>(st3, G).
             Inr (f,
                  (\<lambda>j. if stride st ! 1 \<le> j \<and> j < stride st3 ! 0
                       then (if dx st3 = 0 \<or> dy st3 = 0 then None
                             else Some (- (fst (constraint_transport_2d gb st3 F G) j
                                   - fst (constraint_transport_2d gb st3 F G) (j - stride st ! 1)) / dx st3
                                - (snd (constraint_transport_2d gb st3 F G) j
                                   - snd (constraint_transport_2d gb st3 F G) (j - stride st ! 2)) / dy st3))
                       else Some (L j)),
                  Some (st3\<lparr>FluxInterArray_x := fst (constraint_transport_2d gb st3 F G),
                            FluxInterArray_y := snd (constraint_transport_2d gb st3 F G)\<rparr>)))
             (not_followed st1 f L)) = Inr y"
      unfolding xx prod.case
      by (rule sweep_total [OF Fiph_value_or_division [OF t2]]) auto
  qed
  then show ?thesis by (simp add: returns_iff)
qed

lemma dUdt_3d_returns:
  assumes "limiter_set st"
  shows "returns (dUdt_3d ext gb st U L)"
proof (cases "libopstate st = LibraryOperation_Dead")
  case True
  then show ?thesis by (simp add: dUdt_3d_def)
next
  case False
  obtain f P it w ux uy uz where
    a: "cons_to_prim_array st U None (stride st ! 0 div 8)
          = Inr (f, P, (touch st it w ux uy uz)\<lparr>PrimitiveArray := P\<rparr>)"
    using pass_None by blast
  define st1 where "st1 = (touch st it w ux uy uz)\<lparr>PrimitiveArray := P\<rparr>"
  note a = a [folded st1_def]
  have t: "limiter_set (st1\<lparr>dimension := d\<rparr>)" for d using assms by (simp add: st1_def)
  have "\<exists>y. dUdt_3d ext gb st U L = Inr y"
    unfolding dUdt_3d_after_pass [OF False a]
  proof (rule sweep_total [OF Fiph_value_or_division [OF t]])
    fix x assume x: "Fiph ext gb (st1\<lparr>dimension := Dim1\<rparr>) P (FluxInterArray_x st1) = Inr x"
    obtain st2 F where xx: "x = (st2, F)" by (cases x)
    obtain m1 where m1: "st2 = lam (st1\<lparr>dimension := Dim1\<rparr>) m1"
      using Fiph_state [OF x [unfolded xx]] by blast
    have t2: "limiter_set (st2\<lparr>dimension := d\<rparr>)" for d using t by (simp add: m1)
    show "\<exists>y. (case x of (st2, F) \<Rightarrow>
           sweep (Fiph ext gb (st2\<lparr>dimension := Dim2\<rparr>) P (FluxInterArray_y st2)) (\<lambda>(st3, G).
           sweep (Fiph ext gb (st3\<lparr>dimension := Dim3\<rparr>) P (FluxInterArray_z st3)) (\<lambda>(st4, H).
             Inr (f,
                  (\<lambda>j. if stride st ! 1 \<le> j \<and> j < stride st4 ! 0
                       then (if dx st4 = 0 \<or> dy st4 = 0 \<or> dz st4 = 0 then None
                             else Some (- (fst (constraint_transport_3d gb st4 F G H) j
                                   - fst (constraint_transport_3d gb st4 F G H) (j - stride st ! 1)) / dx st4
                                - (fst (snd (constraint_transport_3d gb st4 F G H)) j
                                   - fst (snd (constraint_transport_3d gb st4 F G H)) (j - stride st ! 2)) / dy st4
                                - (snd (snd (constraint_transport_3d gb st4 F G H)) j
                                   - snd (snd (constraint_transport_3d gb st4 F G H)) (j - stride st ! 3)) / dz st4))
                       else Some (L j)),
                  Some (st4\<lparr>FluxInterArray_x := fst (constraint_transport_3d gb st4 F G H),
                            FluxInterArray_y := fst (snd (constraint_transport_3d gb st4 F G H)),
                            FluxInterArray_z := snd (snd (constraint_transport_3d gb st4 F G H))\<rparr>)))
             (not_followed st1 f L))
             (not_followed st1 f L)) = Inr y"
      unfolding xx prod.case
    proof (rule sweep_total [OF Fiph_value_or_division [OF t2]])
      fix x' assume x': "Fiph ext gb (st2\<lparr>dimension := Dim2\<rparr>) P (FluxInterArray_y st2) = Inr x'"
      obtain st3 G where xx': "x' = (st3, G)" by (cases x')
      obtain m2 where m2: "st3 = lam (st2\<lparr>dimension := Dim2\<rparr>) m2"
        using Fiph_state [OF x' [unfolded xx']] by blast
      have t3: "limiter_set (st3\<lparr>dimension := d\<rparr>)" for d using t2 by (simp add: m2)
      show "\<exists>y. (case x' of (st3, G) \<Rightarrow>
           sweep (Fiph ext gb (st3\<lparr>dimension := Dim3\<rparr>) P (FluxInterArray_z st3)) (\<lambda>(st4, H).
             Inr (f,
                  (\<lambda>j. if stride st ! 1 \<le> j \<and> j < stride st4 ! 0
                       then (if dx st4 = 0 \<or> dy st4 = 0 \<or> dz st4 = 0 then None
                             else Some (- (fst (constraint_transport_3d gb st4 F G H) j
                                   - fst (constraint_transport_3d gb st4 F G H) (j - stride st ! 1)) / dx st4
                                - (fst (snd (constraint_transport_3d gb st4 F G H)) j
                                   - fst (snd (constraint_transport_3d gb st4 F G H)) (j - stride st ! 2)) / dy st4
                                - (snd (snd (constraint_transport_3d gb st4 F G H)) j
                                   - snd (snd (constraint_transport_3d gb st4 F G H)) (j - stride st ! 3)) / dz st4))
                       else Some (L j)),
                  Some (st4\<lparr>FluxInterArray_x := fst (constraint_transport_3d gb st4 F G H),
                            FluxInterArray_y := fst (snd (constraint_transport_3d gb st4 F G H)),
                            FluxInterArray_z := snd (snd (constraint_transport_3d gb st4 F G H))\<rparr>)))
             (not_followed st1 f L)) = Inr y"
        unfolding xx' prod.case
        by (rule sweep_total [OF Fiph_value_or_division [OF t3]]) auto
    qed
  qed
  then show ?thesis by (simp add: returns_iff)
qed

lemma dUdt_1d_steps:
  assumes alive: "libopstate st \<noteq> LibraryOperation_Dead"
    and a: "cons_to_prim_array st U None (stride st ! 0 div 8) = Inr (f, P, st1)"
    and b: "Fiph ext gb (st1\<lparr>dimension := Dim1\<rparr>) P (FluxInterArray_x st1) = Inr (st2, F)"
  shows "dUdt_1d ext gb st U L =
           Inr (f,
                (\<lambda>j. if stride_dim st2 \<le> j \<and> j < stride st2 ! 0
                     then (if dx st2 = 0 then None
                           else Some (- (F j - F (j - stride_dim st2)) / dx st2))
                     else Some (L j)),
                Some (st2\<lparr>FluxInterArray_x := F\<rparr>))"
  unfolding dUdt_1d_after_pass [OF alive a] b by simp

lemma limiter_set_rest_grid [simp]: "limiter_set rest_grid"
  by (simp add: limiter_set_def)

subsection \<open>The cells a derivative entry point writes\<close>

text \<open>
  C7 as stated fails: on the 1D grid of 14 cells at rest, with \<^verbatim>\<open>L\<close> holding ones,
  \<^verbatim>\<open>dUdt_1d\<close> stores \<open>-(F[111] - F[103]) / dx = 0\<close> at index 111, which lies in the last
  cell, the outermost guard cell at the upper boundary.
\<close>

theorem dUdt_1d_writes_guard_counterexample:
  "output_at (dUdt_1d ext_unused zero_memory rest_grid rest_cons ones) 111 = Some 0 \<and>
   ones 111 = 1"
proof -
  have alive: "libopstate rest_grid \<noteq> LibraryOperation_Dead" by simp
  obtain f P it w ux uy uz where
    a: "cons_to_prim_array rest_grid rest_cons None (stride rest_grid ! 0 div 8)
          = Inr (f, P, (touch rest_grid it w ux uy uz)\<lparr>PrimitiveArray := P\<rparr>)"
    using pass_None by blast
  define st1 where "st1 = (touch rest_grid it w ux uy uz)\<lparr>PrimitiveArray := P\<rparr>"
  note a = a [folded st1_def]
  have t: "limiter_total (st1\<lparr>dimension := Dim1\<rparr>)" by (simp add: st1_def)
  obtain m F where b: "Fiph ext_unused zero_memory (st1\<lparr>dimension := Dim1\<rparr>) P (FluxInterArray_x st1)
      = Inr (lam (st1\<lparr>dimension := Dim1\<rparr>) m, F)"
    using Fiph_total [OF t] by blast
  have s: "stride (st1\<lparr>dimension := Dim1\<rparr>) = [112, 8, 8, 8]"
    "stride_dim (st1\<lparr>dimension := Dim1\<rparr>) = 8" "dx st1 = 1 / 10"
    "stride st1 = [112, 8, 8, 8]"
    by (simp_all add: st1_def)
  have z: "F 111 = 0" "F 103 = 0"
    using Fiph_tail_zero [OF b, of 111] Fiph_tail_zero [OF b, of 103] by (simp_all add: s)
  have "output_at (dUdt_1d ext_unused zero_memory rest_grid rest_cons ones) 111 = Some 0"
    unfolding dUdt_1d_steps [OF alive a b] by (simp add: s z)
  then show ?thesis by (simp add: ones_def)
qed

text \<open>
  C7, as far as it holds by the code's design. The last loop of \<^verbatim>\<open>dUdt_1d\<close>, \<^verbatim>\<open>dUdt_2d\<close> and
  \<^verbatim>\<open>dUdt_3d\<close> runs from \<^verbatim>\<open>stride[1]\<close> to \<^verbatim>\<open>stride[0]\<close>. Unless a call goes through the null
  limiter pointer, each entry point returns and the value it leaves at index \<open>j\<close> of \<^verbatim>\<open>L\<close>
  is: on a live library and for \<open>stride[1] \<le> j < stride[0]\<close>, the difference expression of
  that entry point over the flux buffers the call leaves (no number where these hold no
  numbers); for every other index, and for every index when the library is not alive, the
  value \<^verbatim>\<open>L[j]\<close> held before.
\<close>

theorem dUdt_written_cells:
  assumes "limiter_set st"
  shows "returns (dUdt_1d ext gb st U L) \<and> returns (dUdt_2d ext gb st U L) \<and>
         returns (dUdt_3d ext gb st U L) \<and>
         output_at (dUdt_1d ext gb st U L) j =
           (if libopstate st = LibraryOperation_Alive \<and> stride st ! 1 \<le> j \<and> j < stride st ! 0
            then (case globals_of (dUdt_1d ext gb st U L) of
                    None \<Rightarrow> None | Some s \<Rightarrow> stored_1d s j)
            else Some (L j)) \<and>
         output_at (dUdt_2d ext gb st U L) j =
           (if libopstate st = LibraryOperation_Alive \<and> stride st ! 1 \<le> j \<and> j < stride st ! 0
            then (case globals_of (dUdt_2d ext gb st U L) of
                    None \<Rightarrow> None | Some s \<Rightarrow> stored_2d s j)
            else Some (L j)) \<and>
         output_at (dUdt_3d ext gb st U L) j =
           (if libopstate st = LibraryOperation_Alive \<and> stride st ! 1 \<le> j \<and> j < stride st ! 0
            then (case globals_of (dUdt_3d ext gb st U L) of
                    None \<Rightarrow> None | Some s \<Rightarrow> stored_3d s j)
            else Some (L j))"
proof -
  note r = dUdt_1d_returns [OF assms, of ext gb U L] dUdt_2d_returns [OF assms, of ext gb U L]
    dUdt_3d_returns [OF assms, of ext gb U L]
  obtain r1 L1 s1 where r1: "dUdt_1d ext gb st U L = Inr (r1, L1, s1)"
    using r(1) unfolding returns_iff by (metis prod_cases3)
  obtain r2 L2 s2 where r2: "dUdt_2d ext gb st U L = Inr (r2, L2, s2)"
    using r(2) unfolding returns_iff by (metis prod_cases3)
  obtain r3 L3 s3 where r3: "dUdt_3d ext gb st U L = Inr (r3, L3, s3)"
    using r(3) unfolding returns_iff by (metis prod_cases3)
  show ?thesis
    unfolding r1 r2 r3 output_at_simps globals_of_simps
    using dUdt_1d_written [OF r1, of j] dUdt_2d_written [OF r2, of j] dUdt_3d_written [OF r3, of j]
    by simp
qed

theorem dUdt_written_cells_witness:
  "limiter_set rest_grid \<and>
   returns (dUdt_1d ext_unused zero_memory rest_grid rest_cons ones) \<and>
   returns (dUdt_2d ext_unused zero_memory rest_grid rest_cons ones) \<and>
   returns (dUdt_3d ext_unused zero_memory rest_grid rest_cons ones) \<and>
   output_at (dUdt_1d ext_unused zero_memory rest_grid rest_cons ones) 3 = Some (ones 3) \<and>
   output_at (dUdt_2d ext_unused zero_memory rest_grid rest_cons ones) 3 = Some (ones 3) \<and>
   output_at (dUdt_3d ext_unused zero_memory rest_grid rest_cons ones) 3 = Some (ones 3)"
proof -
  have h: "limiter_set rest_grid" by simp
  show ?thesis
    using h dUdt_written_cells [OF h, of ext_unused zero_memory rest_cons ones 3] by simp
qed

subsection \<open>The inversion pass over a uniform field\<close>

text \<open>
  When every cell holds the same conserved state and the same guess, and the inversion of
  that state succeeds, the pass reports no failure and leaves the same primitive state in
  every cell.
\<close>

lemma uniform_invI:
  assumes "i mod 8 = 0" "0 \<le> i" "i \<le> 8 * max N 0"
    and "x = Inr (0, P, touch st it w ux uy uz)"
    and "\<forall>j. i \<le> j \<longrightarrow> P j = P0 j"
    and "\<forall>j. 0 \<le> j \<and> j < i \<longrightarrow> P j = q ! nat (j mod 8)"
    and "mode_reconstruct (lib_state st) = Reconstruct_PLM4Velocity \<and>
          libopstate st = LibraryOperation_Alive \<longrightarrow>
            (\<forall>c. 0 \<le> c \<and> 8 * c < i \<longrightarrow>
               ux c = wq * q ! vx \<and> uy c = wq * q ! vy \<and> uz c = wq * q ! vz)"
  shows "uniform_inv st P0 q wq N i x"
  unfolding uniform_inv_def
  apply (intro conjI assms(1-3))
  apply (rule exI [of _ P], rule exI [of _ it], rule exI [of _ w],
      rule exI [of _ ux], rule exI [of _ uy], rule exI [of _ uz])
  apply (intro conjI assms(4-7))
  done

lemma uniform_invE:
  assumes "uniform_inv st P0 q wq N i x"
  obtains P it w ux uy uz where "i mod 8 = 0" "0 \<le> i" "i \<le> 8 * max N 0"
    and "x = Inr (0, P, touch st it w ux uy uz)"
    and "\<forall>j. i \<le> j \<longrightarrow> P j = P0 j"
    and "\<forall>j. 0 \<le> j \<and> j < i \<longrightarrow> P j = q ! nat (j mod 8)"
    and "mode_reconstruct (lib_state st) = Reconstruct_PLM4Velocity \<and>
          libopstate st = LibraryOperation_Alive \<longrightarrow>
            (\<forall>c. 0 \<le> c \<and> 8 * c < i \<longrightarrow>
               ux c = wq * q ! vx \<and> uy c = wq * q ! vy \<and> uz c = wq * q ! vz)"
  using assms unfolding uniform_inv_def by (elim conjE exE) (rule that)

lemma uniform_inv_step:
  assumes U: "\<And>c. 0 \<le> c \<Longrightarrow> c < N \<Longrightarrow> cell U (8 * c) = u"
    and G: "\<And>c. 0 \<le> c \<Longrightarrow> c < N \<Longrightarrow> cell P0 (8 * c) = p0"
    and inv: "invert st u p0 = (0, q, n, wq)"
    and i: "0 \<le> i" "i < N * 8" and I: "uniform_inv st P0 q wq N i x"
  shows "uniform_inv st P0 q wq N (i + 8) (bind_err x (cons_to_prim_cell i U))"
proof -
  from I obtain P it w ux uy uz where m: "i mod 8 = 0"
    and x: "x = Inr (0, P, touch st it w ux uy uz)"
    and P': "\<forall>j. i \<le> j \<longrightarrow> P j = P0 j"
    and Q': "\<forall>j. 0 \<le> j \<and> j < i \<longrightarrow> P j = q ! nat (j mod 8)"
    and V': "mode_reconstruct (lib_state st) = Reconstruct_PLM4Velocity \<and>
          libopstate st = LibraryOperation_Alive \<longrightarrow>
            (\<forall>c. 0 \<le> c \<and> 8 * c < i \<longrightarrow>
               ux c = wq * q ! vx \<and> uy c = wq * q ! vy \<and> uz c = wq * q ! vz)"
    by (rule uniform_invE)
  have P: "\<And>j. i \<le> j \<Longrightarrow> P j = P0 j" using P' by simp
  have d: "0 \<le> i div 8" "i div 8 < N" "8 * (i div 8) = i" using i m by presburger+
  have cU: "cell U i = u" using U [OF d(1,2)] by (simp only: d(3))
  have "cell P i = cell P0 i" by (rule cell_cong) (simp add: P)
  then have cP: "cell P i = p0" using G [OF d(1,2)] by (simp only: d(3))
  define u4 where "u4 = (mode_reconstruct (lib_state st) = Reconstruct_PLM4Velocity \<and>
                  libopstate st = LibraryOperation_Alive)"
  define ux' where "ux' = (if u4 then ux(i div 8 := wq * q ! vx) else ux)"
  define uy' where "uy' = (if u4 then uy(i div 8 := wq * q ! vy) else uy)"
  define uz' where "uz' = (if u4 then uz(i div 8 := wq * q ! vz) else uz)"
  have e: "bind_err x (cons_to_prim_cell i U) =
      Inr (0, store_cell P i q, touch st (it + n) wq ux' uy' uz')"
    unfolding x bind_err_def sum.case cons_to_prim_cell_touch cU cP inv prod.case Let_def
      ux'_def uy'_def uz'_def u4_def
    by simp
  have b: "(i + 8) mod 8 = 0" "0 \<le> i + 8" "i + 8 \<le> 8 * max N 0" using i m by presburger+
  have o: "\<forall>j. i + 8 \<le> j \<longrightarrow> store_cell P i q j = P0 j"
    by (simp add: store_cell_outside P)
  have s: "\<forall>j. 0 \<le> j \<and> j < i + 8 \<longrightarrow> store_cell P i q j = q ! nat (j mod 8)"
  proof (intro allI impI)
    fix j :: int
    assume j: "0 \<le> j \<and> j < i + 8"
    show "store_cell P i q j = q ! nat (j mod 8)"
    proof (cases "j < i")
      case True
      then show ?thesis using Q' j by (simp add: store_cell_outside)
    next
      case False
      then have "j - i = j mod 8" using j m by presburger
      then show ?thesis using False j by (simp add: store_cell_def)
    qed
  qed
  have v: "mode_reconstruct (lib_state st) = Reconstruct_PLM4Velocity \<and>
          libopstate st = LibraryOperation_Alive \<longrightarrow>
            (\<forall>c. 0 \<le> c \<and> 8 * c < i + 8 \<longrightarrow>
               ux' c = wq * q ! vx \<and> uy' c = wq * q ! vy \<and> uz' c = wq * q ! vz)"
  proof (intro allI impI)
    fix c :: int
    assume a: "mode_reconstruct (lib_state st) = Reconstruct_PLM4Velocity \<and>
          libopstate st = LibraryOperation_Alive" and c: "0 \<le> c \<and> 8 * c < i + 8"
    have u: "u4" using a by (simp add: u4_def)
    show "ux' c = wq * q ! vx \<and> uy' c = wq * q ! vy \<and> uz' c = wq * q ! vz"
    proof (cases "c = i div 8")
      case True
      then show ?thesis by (simp add: ux'_def uy'_def uz'_def u)
    next
      case False
      then have "8 * c < i" using c m by presburger
      then show ?thesis using V' a c False by (simp add: ux'_def uy'_def uz'_def u)
    qed
  qed
  show ?thesis by (rule uniform_invI [OF b e o s v])
qed

lemma uniform_pass_loop:
  assumes U: "\<And>c. 0 \<le> c \<Longrightarrow> c < N \<Longrightarrow> cell U (8 * c) = u"
    and G: "\<And>c. 0 \<le> c \<Longrightarrow> c < N \<Longrightarrow> cell P0 (8 * c) = p0"
    and inv: "invert st u p0 = (0, q, n, wq)"
  shows "uniform_inv st P0 q wq N (8 * max N 0)
           (for_loop 0 (N * 8) 8 (\<lambda>i x. bind_err x (cons_to_prim_cell i U)) (Inr (0, P0, st)))"
proof -
  let ?res = "for_loop 0 (N * 8) 8 (\<lambda>i x. bind_err x (cons_to_prim_cell i U)) (Inr (0, P0, st))"
  have init: "uniform_inv st P0 q wq N 0 (Inr (0, P0, st))"
  proof (rule uniform_invI)
    show "Inr (0, P0, st) = Inr (0, P0, touch st (cons_to_prim_iter (lib_state st))
        (cons_to_prim_last_W st) (lib_ux st) (lib_uy st) (lib_uz st))"
      by (simp only: touch_self)
  qed simp_all
  have "\<exists>i. N * 8 \<le> i \<and> 0 \<le> i \<and> uniform_inv st P0 q wq N i ?res"
    by (rule for_loop_rule [where I = "uniform_inv st P0 q wq N", OF init uniform_inv_step [OF U G inv]])
      simp_all
  then obtain i where i: "N * 8 \<le> i" and I: "uniform_inv st P0 q wq N i ?res" by blast
  have "i mod 8 = 0" "0 \<le> i" "i \<le> 8 * max N 0" using I unfolding uniform_inv_def by simp_all
  then have "i = 8 * max N 0" using i by linarith
  then show ?thesis using I by simp
qed

subsection \<open>The flux sweep over a uniform field\<close>

text \<open>
  On flat stencils the minmod and MC limiters return 0, both sides of every interface get
  the same state, and \<^verbatim>\<open>Fiph\<close> stores the same flux vector at every interface it visits.
\<close>

lemma plm_minmod_flat [simp]: "plm_minmod ls a a a = 0"
  by (simp add: plm_minmod_def min3_def)

lemma MC_limiter_flat [simp]: "MC_limiter a a a = 0"
  by (simp add: MC_limiter_def min3_def)

lemma call_slope_limiter_flat:
  assumes "slope_limiter st = Some Ptr_plm_minmod \<or> slope_limiter st = Some Ptr_MC_limiter"
  shows "call_slope_limiter st a a a = Inr 0"
  using assms by (auto simp: call_slope_limiter_def)

lemma list_8: "length q = 8 \<Longrightarrow> [q ! 0, q ! 1, q ! 2, q ! 3, q ! 4, q ! 5, q ! 6, q ! 7] = q"
  using map_nth_8 [of q] by (simp add: upt_8)

lemma length_hll_flux [simp]: "length (snd (snd (hll_flux ext st pl pr U0 F0 s))) = 8"
  by (simp add: hll_flux_branches Let_def)

lemma reconstruct_flat:
  assumes lt: "limiter_total st"
    and P: "\<And>j. i - stride_dim st \<le> j \<Longrightarrow> j < i + 2 * stride_dim st + 8 \<Longrightarrow> P j = q ! nat (j mod 8)"
    and al: "i mod 8 = 0" "stride_dim st mod 8 = 0" "0 < stride_dim st"
    and len: "length q = 8"
    and V: "mode_reconstruct (lib_state st) = Reconstruct_PLM4Velocity \<Longrightarrow>
            (\<forall>k \<in> {i div 8 - stride_dim st div 8, i div 8, i div 8 + stride_dim st div 8,
                     i div 8 + 2 * (stride_dim st div 8)}.
               lib_ux st k = a \<and> lib_uy st k = b \<and> lib_uz st k = c)"
  shows "(case mode_reconstruct (lib_state st) of
            Reconstruct_PiecewiseConstant \<Rightarrow> Inr (cell P i, cell P (i + stride_dim st))
          | Reconstruct_PLM3Velocity \<Rightarrow> reconstruct_use_3vel st P i
          | Reconstruct_PLM4Velocity \<Rightarrow>
              reconstruct_use_4vel st P i (lib_ux st) (lib_uy st) (lib_uz st) (i div 8))
         = Inr (flat_state st q a b c, flat_state st q a b c)"
proof -
  define S where "S = stride_dim st"
  have P': "\<And>j. i - S \<le> j \<Longrightarrow> j < i + 2 * S + 8 \<Longrightarrow> P j = q ! nat (j mod 8)"
    using P unfolding S_def by blast
  have al': "i mod 8 = 0" "S mod 8 = 0" "0 < S" using al unfolding S_def by blast+
  have r: "P (i + int k) = q ! k" "P (i + S + int k) = q ! k" "P (i + 2 * S + int k) = q ! k"
    "P (i - S + int k) = q ! k" if "k < 8" for k
  proof -
    have m: "(i + int k) mod 8 = int k" "(i + S + int k) mod 8 = int k"
      "(i + 2 * S + int k) mod 8 = int k" "(i - S + int k) mod 8 = int k"
      using al' that by presburger+
    have b: "i - S \<le> i + int k" "i + int k < i + 2 * S + 8"
      "i - S \<le> i + S + int k" "i + S + int k < i + 2 * S + 8"
      "i - S \<le> i + 2 * S + int k" "i + 2 * S + int k < i + 2 * S + 8"
      "i - S \<le> i - S + int k" "i - S + int k < i + 2 * S + 8"
      using al' that by linarith+
    show "P (i + int k) = q ! k" using P' [OF b(1,2)] m(1) by simp
    show "P (i + S + int k) = q ! k" using P' [OF b(3,4)] m(2) by simp
    show "P (i + 2 * S + int k) = q ! k" using P' [OF b(5,6)] m(3) by simp
    show "P (i - S + int k) = q ! k" using P' [OF b(7,8)] m(4) by simp
  qed
  have rn:
    "P (i) = q ! 0" "P (i + 1) = q ! 1" "P (i + 2) = q ! 2"
    "P (i + 3) = q ! 3" "P (i + 4) = q ! 4" "P (i + 5) = q ! 5"
    "P (i + 6) = q ! 6" "P (i + 7) = q ! 7" "P (i + S) = q ! 0"
    "P (i + S + 1) = q ! 1" "P (i + S + 2) = q ! 2" "P (i + S + 3) = q ! 3"
    "P (i + S + 4) = q ! 4" "P (i + S + 5) = q ! 5" "P (i + S + 6) = q ! 6"
    "P (i + S + 7) = q ! 7" "P (i + 2 * S) = q ! 0" "P (i + 2 * S + 1) = q ! 1"
    "P (i + 2 * S + 2) = q ! 2" "P (i + 2 * S + 3) = q ! 3" "P (i + 2 * S + 4) = q ! 4"
    "P (i + 2 * S + 5) = q ! 5" "P (i + 2 * S + 6) = q ! 6" "P (i + 2 * S + 7) = q ! 7"
    "P (i - S) = q ! 0" "P (i - S + 1) = q ! 1" "P (i - S + 2) = q ! 2"
    "P (i - S + 3) = q ! 3" "P (i - S + 4) = q ! 4" "P (i - S + 5) = q ! 5"
    "P (i - S + 6) = q ! 6" "P (i - S + 7) = q ! 7"
    using r [of 0] r [of 1] r [of 2] r [of 3] r [of 4] r [of 5] r [of 6] r [of 7] by simp_all
  have c0: "cell P i = q" "cell P (i + S) = q"
    using list_8 [OF len] by (simp_all add: cell_def upt_8 rn)
  show ?thesis
  proof (cases "mode_reconstruct (lib_state st)")
    case Reconstruct_PiecewiseConstant
    then show ?thesis using c0 by (simp add: flat_state_def S_def)
  next
    case Reconstruct_PLM3Velocity
    then have sl: "slope_limiter st = Some Ptr_plm_minmod \<or> slope_limiter st = Some Ptr_MC_limiter"
      using lt by (simp add: limiter_total_def)
    show ?thesis
      unfolding reconstruct_use_3vel_def Let_def S_def [symmetric]
      using Reconstruct_PLM3Velocity list_8 [OF len]
      by (simp add: upt_8 rn call_slope_limiter_flat [OF sl] bind_err_def flat_state_def)
  next
    case Reconstruct_PLM4Velocity
    then have sl: "slope_limiter st = Some Ptr_plm_minmod \<or> slope_limiter st = Some Ptr_MC_limiter"
      using lt by (simp add: limiter_total_def)
    have v: "lib_ux st (i div 8) = a" "lib_ux st (i div 8 + S div 8) = a"
      "lib_ux st (i div 8 + 2 * (S div 8)) = a" "lib_ux st (i div 8 - S div 8) = a"
      "lib_uy st (i div 8) = b" "lib_uy st (i div 8 + S div 8) = b"
      "lib_uy st (i div 8 + 2 * (S div 8)) = b" "lib_uy st (i div 8 - S div 8) = b"
      "lib_uz st (i div 8) = c" "lib_uz st (i div 8 + S div 8) = c"
      "lib_uz st (i div 8 + 2 * (S div 8)) = c" "lib_uz st (i div 8 - S div 8) = c"
      using V [OF Reconstruct_PLM4Velocity] unfolding S_def by simp_all
    show ?thesis
      unfolding reconstruct_use_4vel_def Let_def S_def [symmetric]
      using Reconstruct_PLM4Velocity
      by (simp add: v rn idx_defs call_slope_limiter_flat [OF sl] bind_err_def flat_state_def)
  qed
qed

lemma interface_flux_flat:
  assumes hll: "mode_riemann_solver (lib_state st) = RiemannSolver_HLL"
    and lt: "limiter_total st"
    and P: "\<And>j. i - stride_dim st \<le> j \<Longrightarrow> j < i + 2 * stride_dim st + 8 \<Longrightarrow> P j = q ! nat (j mod 8)"
    and al: "i mod 8 = 0" "stride_dim st mod 8 = 0" "0 < stride_dim st"
    and len: "length q = 8"
    and V: "mode_reconstruct (lib_state st) = Reconstruct_PLM4Velocity \<Longrightarrow>
            (\<forall>k \<in> {i div 8 - stride_dim st div 8, i div 8, i div 8 + stride_dim st div 8,
                     i div 8 + 2 * (stride_dim st div 8)}.
               lib_ux st k = a \<and> lib_uy st k = b \<and> lib_uz st k = c)"
  shows "interface_flux ext st P i =
           Inr (snd (snd (hll_flux ext st (flat_state st q a b c) (flat_state st q a b c) [] [] 0)))"
proof -
  have r: "(case mode_reconstruct (lib_state st) of
            Reconstruct_PiecewiseConstant \<Rightarrow> Inr (cell P i, cell P (i + stride_dim st))
          | Reconstruct_PLM3Velocity \<Rightarrow> reconstruct_use_3vel st P i
          | Reconstruct_PLM4Velocity \<Rightarrow>
              reconstruct_use_4vel st P i (lib_ux st) (lib_uy st) (lib_uz st) (i div 8))
         = Inr (flat_state st q a b c, flat_state st q a b c)"
    by (rule reconstruct_flat [OF lt P al len V])
  show ?thesis
    unfolding interface_flux_def r bind_err_def sum.case prod.case hll RiemannSolverMode.case ..
qed

lemma Fiph_uniform:
  assumes hll: "mode_riemann_solver (lib_state st) = RiemannSolver_HLL"
    and lt: "limiter_total st"
    and al: "stride_dim st mod 8 = 0" "0 < stride_dim st" "stride st ! 0 mod 8 = 0"
    and len: "length q = 8"
    and P: "\<And>j. 0 \<le> j \<Longrightarrow> j < stride st ! 0 \<Longrightarrow> P j = q ! nat (j mod 8)"
    and V: "mode_reconstruct (lib_state st) = Reconstruct_PLM4Velocity \<Longrightarrow>
            (\<forall>k. 0 \<le> k \<and> 8 * k < stride st ! 0 \<longrightarrow>
               lib_ux st k = a \<and> lib_uy st k = b \<and> lib_uz st k = c)"
  shows "\<exists>m F' g. Fiph ext gb st P F = Inr (lam st m, F') \<and> length g = 8 \<and>
           (\<forall>j. stride_dim st \<le> j \<and> j < stride st ! 0 - 2 * stride_dim st \<longrightarrow>
                  F' j = g ! nat (j mod 8)) \<and>
           (\<forall>j. (0 \<le> j \<and> j < stride_dim st) \<or>
                 (stride st ! 0 - 2 * stride_dim st \<le> j \<and> j < stride st ! 0) \<longrightarrow> F' j = 0)"
proof -
  define S where "S = stride_dim st"
  define n where "n = stride st ! 0"
  define g where "g = snd (snd (hll_flux ext st (flat_state st q a b c) (flat_state st q a b c) [] [] 0))"
  have al': "S mod 8 = 0" "0 < S" "n mod 8 = 0" using al unfolding S_def n_def by blast+
  have f: "interface_flux ext st P i = Inr (g) \<and> length (g) = 8"
    if i: "stride_dim st \<le> i" "i < stride st ! 0 - stride_dim st * 2" "i mod 8 = 0" for i
  proof -
    have i': "S \<le> i" "i < n - S * 2" using i unfolding S_def n_def by blast+
    have p: "P j = q ! nat (j mod 8)" if "i - stride_dim st \<le> j" "j < i + 2 * stride_dim st + 8" for j
    proof -
      have "i - S \<le> j" "j < i + 2 * S + 8" using that unfolding S_def by blast+
      moreover have "i + 8 \<le> n - S * 2" using i' i(3) al' by presburger
      ultimately have "0 \<le> j" "j < n" using i' by linarith+
      then show ?thesis using P unfolding n_def by blast
    qed
    have v: "\<forall>k \<in> {i div 8 - stride_dim st div 8, i div 8, i div 8 + stride_dim st div 8,
                     i div 8 + 2 * (stride_dim st div 8)}.
               lib_ux st k = a \<and> lib_uy st k = b \<and> lib_uz st k = c"
      if u: "mode_reconstruct (lib_state st) = Reconstruct_PLM4Velocity"
    proof
      fix k assume k: "k \<in> {i div 8 - stride_dim st div 8, i div 8, i div 8 + stride_dim st div 8,
                     i div 8 + 2 * (stride_dim st div 8)}"
      then have "k = i div 8 - S div 8 \<or> k = i div 8 \<or> k = i div 8 + S div 8 \<or>
          k = i div 8 + 2 * (S div 8)" unfolding S_def by blast
      moreover have "8 * (i div 8) = i" "8 * (S div 8) = S" using i(3) al' by presburger+
      ultimately have "0 \<le> k \<and> 8 * k < n" using i' al'(2) by auto
      then show "lib_ux st k = a \<and> lib_uy st k = b \<and> lib_uz st k = c"
        using V [OF u] unfolding n_def by blast
    qed
    show ?thesis
      unfolding g_def by (simp add: interface_flux_flat [OF hll lt p i(3) al(1,2) len v])
  qed
  obtain m where m: "Fiph ext gb st P F =
           Inr (lam st m,
                \<lambda>j. if stride st ! 0 - stride_dim st * 2 \<le> j \<and> j < stride st ! 0 then 0
                     else sweep_array (\<lambda>i. g) (\<lambda>j. if 0 \<le> j \<and> j < stride_dim st then 0 else F j)
                            (stride_dim st) (max (stride_dim st) (stride st ! 0 - stride_dim st * 2)) j)"
    using Fiph_closed [OF hll f al(1,3)] by blast
  have lg: "length g = 8" by (simp add: g_def)
  let ?F' = "\<lambda>j. if stride st ! 0 - stride_dim st * 2 \<le> j \<and> j < stride st ! 0 then 0
                     else sweep_array (\<lambda>i. g) (\<lambda>j. if 0 \<le> j \<and> j < stride_dim st then 0 else F j)
                            (stride_dim st) (max (stride_dim st) (stride st ! 0 - stride_dim st * 2)) j"
  have u: "\<forall>j. stride_dim st \<le> j \<and> j < stride st ! 0 - 2 * stride_dim st \<longrightarrow>
                  ?F' j = g ! nat (j mod 8)"
    by (simp add: sweep_array_def)
  have z: "\<forall>j. (0 \<le> j \<and> j < stride_dim st) \<or>
                 (stride st ! 0 - 2 * stride_dim st \<le> j \<and> j < stride st ! 0) \<longrightarrow> ?F' j = 0"
    by (simp add: sweep_array_def)
  show ?thesis
    by (intro exI [of _ m] exI [of _ g] exI [of _ ?F'] conjI m lg u z)
qed

lemma uniform_grid_lam [simp]: "uniform_grid (lam st m) P q = uniform_grid st P q"
  by (simp only: uniform_grid_def lam_fields limiter_total_lam)

lemma uniform_grid_dimension [simp]: "uniform_grid (st\<lparr>dimension := d\<rparr>) P q = uniform_grid st P q"
  by (simp add: uniform_grid_def)

lemma Fiph_uniform_grid:
  assumes g: "uniform_grid st P q" and al: "stride_dim st mod 8 = 0" "0 < stride_dim st"
  shows "\<exists>m F' g. Fiph ext gb st P F = Inr (lam st m, F') \<and> length g = 8 \<and>
           (\<forall>j. stride_dim st \<le> j \<and> j < stride st ! 0 - 2 * stride_dim st \<longrightarrow>
                  F' j = g ! nat (j mod 8)) \<and>
           (\<forall>j. (0 \<le> j \<and> j < stride_dim st) \<or>
                 (stride st ! 0 - 2 * stride_dim st \<le> j \<and> j < stride st ! 0) \<longrightarrow> F' j = 0)"
proof -
  have h: "mode_riemann_solver (lib_state st) = RiemannSolver_HLL" "limiter_total st"
    "stride st ! 0 mod 8 = 0" "length q = 8"
    and P: "\<And>j. 0 \<le> j \<Longrightarrow> j < stride st ! 0 \<Longrightarrow> P j = q ! nat (j mod 8)"
    using g unfolding uniform_grid_def by blast+
  show ?thesis
  proof (cases "mode_reconstruct (lib_state st) = Reconstruct_PLM4Velocity")
    case True
    then obtain a b c where V: "\<forall>k. 0 \<le> k \<and> 8 * k < stride st ! 0 \<longrightarrow>
            lib_ux st k = a \<and> lib_uy st k = b \<and> lib_uz st k = c"
      using g unfolding uniform_grid_def by blast
    show ?thesis
      by (rule Fiph_uniform [OF h(1,2) al h(3,4) P, of a b c]) (use V in blast)+
  next
    case False
    show ?thesis
      by (rule Fiph_uniform [OF h(1,2) al h(3,4) P, of 0 0 0]) (use False in blast)+
  qed
qed

lemma cons_to_prim_point_success:
  assumes "cons_to_prim_point st u p0 = Inr (0, q, st2)"
  shows "invert st u p0 = (0, q, cons_to_prim_iter (lib_state st2) - cons_to_prim_iter (lib_state st),
                            cons_to_prim_last_W st2)" and "length q = 8"
proof -
  show "invert st u p0 = (0, q, cons_to_prim_iter (lib_state st2) - cons_to_prim_iter (lib_state st),
                            cons_to_prim_last_W st2)"
    by (simp add: invert_def assms)
  show "length q = 8"
    using assms unfolding cons_to_prim_point_def Let_def
    by (auto split: option.splits if_splits)
qed

lemma uniform_pass:
  assumes U: "\<And>c. 0 \<le> c \<Longrightarrow> 8 * c < stride st ! 0 \<Longrightarrow> cell U (8 * c) = u"
    and G: "\<And>c. 0 \<le> c \<Longrightarrow> 8 * c < stride st ! 0 \<Longrightarrow> cell (PrimitiveArray st) (8 * c) = p0"
    and ok: "cons_to_prim_point st u p0 = Inr (0, q, st2)"
    and hll: "mode_riemann_solver (lib_state st) = RiemannSolver_HLL"
    and lt: "limiter_total st"
    and al: "stride st ! 0 mod 8 = 0"
    and alive: "libopstate st = LibraryOperation_Alive"
  shows "\<exists>P st1. cons_to_prim_array st U None (stride st ! 0 div 8) = Inr (0, P, st1) \<and>
           uniform_grid st1 P q \<and> stride st1 = stride st \<and> dx st1 = dx st \<and> dy st1 = dy st \<and>
           dz st1 = dz st"
proof -
  define N where "N = stride st ! 0 div 8"
  have N: "8 * c < stride st ! 0" if "c < N" for c using that al unfolding N_def by presburger
  have U': "\<And>c. 0 \<le> c \<Longrightarrow> c < N \<Longrightarrow> cell U (8 * c) = u" using U N by blast
  have G': "\<And>c. 0 \<le> c \<Longrightarrow> c < N \<Longrightarrow> cell (PrimitiveArray st) (8 * c) = p0" using G N by blast
  note inv = cons_to_prim_point_success [OF ok]
  let ?res = "for_loop 0 (N * 8) 8 (\<lambda>i x. bind_err x (cons_to_prim_cell i U))
                (Inr (0, PrimitiveArray st, st))"
  have "uniform_inv st (PrimitiveArray st) q (cons_to_prim_last_W st2) N (8 * max N 0) ?res"
    by (rule uniform_pass_loop [OF U' G' inv(1)])
  then obtain P it w ux uy uz where r: "?res = Inr (0, P, touch st it w ux uy uz)"
    and Q: "\<forall>j. 0 \<le> j \<and> j < 8 * max N 0 \<longrightarrow> P j = q ! nat (j mod 8)"
    and V: "mode_reconstruct (lib_state st) = Reconstruct_PLM4Velocity \<and>
          libopstate st = LibraryOperation_Alive \<longrightarrow>
            (\<forall>c. 0 \<le> c \<and> 8 * c < 8 * max N 0 \<longrightarrow>
               ux c = cons_to_prim_last_W st2 * q ! vx \<and> uy c = cons_to_prim_last_W st2 * q ! vy \<and>
               uz c = cons_to_prim_last_W st2 * q ! vz)"
    by (rule uniform_invE)
  have n: "j < 8 * max N 0" if "j < stride st ! 0" for j
    using that al unfolding N_def by presburger
  define st1 where "st1 = (touch st it w ux uy uz)\<lparr>PrimitiveArray := P\<rparr>"
  have a: "cons_to_prim_array st U None (stride st ! 0 div 8) = Inr (0, P, st1)"
    unfolding cons_to_prim_array_def Let_def N_def [symmetric] option.case r st1_def
    by (simp add: bind_err_def)
  have f: "mode_riemann_solver (lib_state st1) = RiemannSolver_HLL" "limiter_total st1"
    "stride st1 = stride st" "dx st1 = dx st" "dy st1 = dy st" "dz st1 = dz st"
    "lib_ux st1 = ux" "lib_uy st1 = uy" "lib_uz st1 = uz"
    "mode_reconstruct (lib_state st1) = mode_reconstruct (lib_state st)"
    using hll lt by (simp_all add: st1_def)
  have Q1: "\<forall>j. 0 \<le> j \<and> j < stride st1 ! 0 \<longrightarrow> P j = q ! nat (j mod 8)"
    using Q n unfolding f(3) by blast
  have V1: "\<exists>a b c. \<forall>k. 0 \<le> k \<and> 8 * k < stride st1 ! 0 \<longrightarrow>
            lib_ux st1 k = a \<and> lib_uy st1 k = b \<and> lib_uz st1 k = c"
    if "mode_reconstruct (lib_state st1) = Reconstruct_PLM4Velocity"
    unfolding f(3,7,8,9) using V that alive n unfolding f(10) by blast
  have "uniform_grid st1 P q"
    unfolding uniform_grid_def using f(1,2) al inv(2) Q1 V1 unfolding f(3) by blast
  then show ?thesis using a f(3-6) by blast
qed

subsection \<open>Constrained transport in closed form\<close>

text \<open>
  The arrays \<^verbatim>\<open>constraint_transport_2d\<close> and \<^verbatim>\<open>constraint_transport_3d\<close> return, slot by slot,
  and their uniformity when the fluxes they are given are uniform.
\<close>

lemma for_loop_component:
  assumes "\<And>i s. pr (body i s) = f i (pr s)"
  shows "pr (for_loop lo hi step body s) = for_loop lo hi step f (pr s)"
proof (induction "nat (hi - lo)" arbitrary: lo s rule: less_induct)
  case less
  show ?case
  proof (cases "lo < hi \<and> 0 < step")
    case True
    then have d: "nat (hi - (lo + step)) < nat (hi - lo)" by simp
    show ?thesis
      using True less [OF d, of "body lo s"] assms [of lo s]
      by (subst for_loop.simps, subst (2) for_loop.simps) simp
  next
    case False
    then show ?thesis by (subst for_loop.simps, subst (2) for_loop.simps) auto
  qed
qed

lemma writes_range_step:
  fixes x :: int
  assumes "i mod 8 = 0" "lo \<le> i"
  shows "(x = i \<or> (lo \<le> x \<and> x < i \<and> x mod 8 = 0)) = (lo \<le> x \<and> x < i + 8 \<and> x mod 8 = 0)"
  using assms by presburger

lemma writes_range_end:
  fixes x :: int
  assumes "hi \<le> i" "i mod 8 = 0" "i = lo \<or> i - 8 < hi" "lo mod 8 = 0"
  shows "(lo \<le> x \<and> x < i \<and> x mod 8 = 0) = (lo \<le> x \<and> x < hi \<and> x mod 8 = 0)"
  using assms by presburger

lemma for_loop_writes:
  fixes own :: "int \<Rightarrow> int" and A0 :: "int \<Rightarrow> 'a"
  assumes lo: "lo mod 8 = 0"
    and body: "\<And>i A. i mod 8 = 0 \<Longrightarrow> body i A = (\<lambda>j. if K j \<and> own j = i then v j else A j)"
  shows "for_loop lo hi 8 body A0 =
           (\<lambda>j. if K j \<and> lo \<le> own j \<and> own j < hi \<and> own j mod 8 = 0 then v j else A0 j)"
proof -
  have "A0 = (\<lambda>j. if K j \<and> lo \<le> own j \<and> own j < lo \<and> own j mod 8 = 0 then v j else A0 j)"
  proof (rule ext)
    fix j
    have "\<not> (K j \<and> lo \<le> own j \<and> own j < lo \<and> own j mod 8 = 0)" by linarith
    then show "A0 j = (if K j \<and> lo \<le> own j \<and> own j < lo \<and> own j mod 8 = 0 then v j else A0 j)"
      by (simp only: if_False)
  qed
  then have init: "writes_inv K own v A0 lo hi lo A0"
    unfolding writes_inv_def by (intro conjI lo) simp_all
  have step: "writes_inv K own v A0 lo hi (i + 8) (body i B)"
    if i: "lo \<le> i" "i < hi" and I: "writes_inv K own v A0 lo hi i B" for i B
  proof -
    note m = I [unfolded writes_inv_def, THEN conjunct1]
    note B = I [unfolded writes_inv_def, THEN conjunct2, THEN conjunct2]
    have e: "body i B = (\<lambda>j. if K j \<and> lo \<le> own j \<and> own j < i + 8 \<and> own j mod 8 = 0 then v j else A0 j)"
    proof (rule ext)
      fix j
      note r = writes_range_step [OF m i(1), of "own j"]
      show "body i B j = (if K j \<and> lo \<le> own j \<and> own j < i + 8 \<and> own j mod 8 = 0 then v j else A0 j)"
      proof (cases "K j \<and> own j = i")
        case True
        have "body i B j = (if K j \<and> own j = i then v j else B j)" by (simp only: body [OF m])
        then show ?thesis using True r by auto
      next
        case False
        have "body i B j = (if K j \<and> own j = i then v j else B j)" by (simp only: body [OF m])
        also have "\<dots> = B j" using False by (simp only: if_False)
        finally have "body i B j = B j" .
        also have "\<dots> = (if K j \<and> lo \<le> own j \<and> own j < i \<and> own j mod 8 = 0 then v j else A0 j)"
          by (subst B) simp
        also have "\<dots> = (if K j \<and> lo \<le> own j \<and> own j < i + 8 \<and> own j mod 8 = 0 then v j else A0 j)"
          using False r by auto
        finally show ?thesis .
      qed
    qed
    have "(i + 8) mod 8 = 0" "i + 8 = lo \<or> i + 8 - 8 < hi" using m i by simp_all
    then show ?thesis unfolding writes_inv_def using e by (intro conjI)
  qed
  have "\<exists>i. hi \<le> i \<and> lo \<le> i \<and> writes_inv K own v A0 lo hi i (for_loop lo hi 8 body A0)"
    by (rule for_loop_rule [where I = "writes_inv K own v A0 lo hi", OF init step]) simp_all
  then obtain i where i: "hi \<le> i" "lo \<le> i"
    and I: "writes_inv K own v A0 lo hi i (for_loop lo hi 8 body A0)"
    by (elim exE conjE)
  note m = I [unfolded writes_inv_def, THEN conjunct1]
    I [unfolded writes_inv_def, THEN conjunct2, THEN conjunct1]
  note r = I [unfolded writes_inv_def, THEN conjunct2, THEN conjunct2]
  show ?thesis
  proof (rule ext)
    fix j
    note e = writes_range_end [OF i(1) m lo, of "own j"]
    show "for_loop lo hi 8 body A0 j =
       (if K j \<and> lo \<le> own j \<and> own j < hi \<and> own j mod 8 = 0 then v j else A0 j)"
      by (subst r) (use e in auto)
  qed
qed

lemma for_loop_cells:
  assumes lo: "lo mod 8 = 0"
  shows "for_loop lo hi 8 (\<lambda>i A. A(i div 8 := h i)) A0 =
           (\<lambda>c. if lo \<le> 8 * c \<and> 8 * c < hi then h (8 * c) else A0 c)"
proof -
  have b: "(\<lambda>i A. A(i div 8 := h i)) i A = (\<lambda>c. if True \<and> 8 * c = i then h (8 * c) else A c)"
    if "i mod 8 = 0" for i and A :: "int \<Rightarrow> 'a"
  proof (rule ext)
    fix c
    have "(c = i div 8) = (8 * c = i)" using that by presburger
    then show "(A(i div 8 := h i)) c = (if True \<and> 8 * c = i then h (8 * c) else A c)" by auto
  qed
  have "for_loop lo hi 8 (\<lambda>i A. A(i div 8 := h i)) A0 =
      (\<lambda>c. if True \<and> lo \<le> 8 * c \<and> 8 * c < hi \<and> (8 * c) mod 8 = 0 then h (8 * c) else A0 c)"
    by (rule for_loop_writes [OF lo b])
  then show ?thesis by simp
qed

lemma slots_2:
  fixes A :: "int \<Rightarrow> 'a"
  assumes "i mod 8 = 0"
  shows "A(i + 5 := a i, i + 6 := b i) =
           (\<lambda>j. if (j mod 8 = 5 \<or> j mod 8 = 6) \<and> j - j mod 8 = i
                then (if j mod 8 = 5 then a (j - j mod 8) else b (j - j mod 8)) else A j)"
proof (rule ext)
  fix j
  consider "j = i + 5" | "j = i + 6" | "j \<noteq> i + 5" "j \<noteq> i + 6" by blast
  then show "(A(i + 5 := a i, i + 6 := b i)) j =
           (if (j mod 8 = 5 \<or> j mod 8 = 6) \<and> j - j mod 8 = i
                then (if j mod 8 = 5 then a (j - j mod 8) else b (j - j mod 8)) else A j)"
  proof cases
    case 1
    have "j mod 8 = 5" "j - j mod 8 = i" using 1 assms by presburger+
    then show ?thesis using 1 by simp
  next
    case 2
    have "j mod 8 = 6" "j - j mod 8 = i" using 2 assms by presburger+
    then show ?thesis using 2 by simp
  next
    case 3
    have "\<not> ((j mod 8 = 5 \<or> j mod 8 = 6) \<and> j - j mod 8 = i)" using 3 by presburger
    then show ?thesis using 3 by auto
  qed
qed

lemma slots_3:
  fixes A :: "int \<Rightarrow> 'a"
  assumes "i mod 8 = 0"
  shows "A(i + 5 := a i, i + 6 := b i, i + 7 := c i) =
           (\<lambda>j. if (j mod 8 = 5 \<or> j mod 8 = 6 \<or> j mod 8 = 7) \<and> j - j mod 8 = i
                then (if j mod 8 = 5 then a (j - j mod 8)
                      else if j mod 8 = 6 then b (j - j mod 8) else c (j - j mod 8))
                else A j)"
proof (rule ext)
  fix j
  consider "j = i + 5" | "j = i + 6" | "j = i + 7" | "j \<noteq> i + 5" "j \<noteq> i + 6" "j \<noteq> i + 7" by blast
  then show "(A(i + 5 := a i, i + 6 := b i, i + 7 := c i)) j =
           (if (j mod 8 = 5 \<or> j mod 8 = 6 \<or> j mod 8 = 7) \<and> j - j mod 8 = i
                then (if j mod 8 = 5 then a (j - j mod 8)
                      else if j mod 8 = 6 then b (j - j mod 8) else c (j - j mod 8))
                else A j)"
  proof cases
    case 1
    have "j mod 8 = 5" "j - j mod 8 = i" using 1 assms by presburger+
    then show ?thesis using 1 by simp
  next
    case 2
    have "j mod 8 = 6" "j - j mod 8 = i" using 2 assms by presburger+
    then show ?thesis using 2 by simp
  next
    case 3
    have "j mod 8 = 7" "j - j mod 8 = i" using 3 assms by presburger+
    then show ?thesis using 3 by simp
  next
    case 4
    have "\<not> ((j mod 8 = 5 \<or> j mod 8 = 6 \<or> j mod 8 = 7) \<and> j - j mod 8 = i)" using 4 by presburger
    then show ?thesis using 4 by auto
  qed
qed

lemma own_aligned: "((j :: int) - j mod 8) mod 8 = 0"
  by presburger

lemma for_loop_slots_2:
  fixes A0 :: "int \<Rightarrow> 'a"
  shows "for_loop 0 n 8 (\<lambda>i A. A(i + 5 := a i, i + 6 := b i)) A0 =
           (\<lambda>j. if (j mod 8 = 5 \<or> j mod 8 = 6) \<and> 0 \<le> j - j mod 8 \<and> j - j mod 8 < n
                then (if j mod 8 = 5 then a (j - j mod 8) else b (j - j mod 8)) else A0 j)"
proof -
  have "for_loop 0 n 8 (\<lambda>i A. A(i + 5 := a i, i + 6 := b i)) A0 =
      (\<lambda>j. if (j mod 8 = 5 \<or> j mod 8 = 6) \<and> 0 \<le> j - j mod 8 \<and> j - j mod 8 < n \<and>
               (j - j mod 8) mod 8 = 0
            then (if j mod 8 = 5 then a (j - j mod 8) else b (j - j mod 8)) else A0 j)"
    by (rule for_loop_writes [where own = "\<lambda>j. j - j mod 8"]) (simp, rule slots_2)
  then show ?thesis by (simp only: own_aligned simp_thms)
qed

lemma for_loop_slots_3:
  fixes A0 :: "int \<Rightarrow> 'a"
  shows "for_loop 0 n 8 (\<lambda>i A. A(i + 5 := a i, i + 6 := b i, i + 7 := c i)) A0 =
           (\<lambda>j. if (j mod 8 = 5 \<or> j mod 8 = 6 \<or> j mod 8 = 7) \<and> 0 \<le> j - j mod 8 \<and> j - j mod 8 < n
                then (if j mod 8 = 5 then a (j - j mod 8)
                      else if j mod 8 = 6 then b (j - j mod 8) else c (j - j mod 8))
                else A0 j)"
proof -
  have "for_loop 0 n 8 (\<lambda>i A. A(i + 5 := a i, i + 6 := b i, i + 7 := c i)) A0 =
      (\<lambda>j. if (j mod 8 = 5 \<or> j mod 8 = 6 \<or> j mod 8 = 7) \<and> 0 \<le> j - j mod 8 \<and> j - j mod 8 < n \<and>
               (j - j mod 8) mod 8 = 0
            then (if j mod 8 = 5 then a (j - j mod 8)
                      else if j mod 8 = 6 then b (j - j mod 8) else c (j - j mod 8))
            else A0 j)"
    by (rule for_loop_writes [where own = "\<lambda>j. j - j mod 8"]) (simp, rule slots_3)
  then show ?thesis by (simp only: own_aligned simp_thms)
qed

lemma ct_buffer:
  assumes "stride st ! 1 mod 8 = 0" "i mod 8 = 0"
  shows "for_loop (stride st ! 1) (stride st ! 0 - stride st ! 1) 8
           (\<lambda>i M. M(i div 8 := ct_average A (ka + i) B (kb + i) a b)) mem (i div 8)
         = ct_value mem A ka B kb a b st i"
proof -
  have "8 * (i div 8) = i" using assms(2) by presburger
  then show ?thesis
    unfolding for_loop_cells [OF assms(1)] ct_value_def by simp
qed

lemma ct2d_fst:
  assumes sx: "stride st ! 1 mod 8 = 0"
  shows "fst (constraint_transport_2d gb st Fx Fy) =
           (\<lambda>j. if (j mod 8 = 5 \<or> j mod 8 = 6) \<and> 0 \<le> j - j mod 8 \<and> j - j mod 8 < stride st ! 0
                then (if j mod 8 = 5 then 0
                      else ct_value (mem_FxBy gb) Fx 6 Fy 5 (stride st ! 2) (stride st ! 1) st (j - j mod 8))
                else Fx j)"
proof -
  define L1 where "L1 = for_loop (stride st ! 1) (stride st ! 0 - stride st ! 1) 8
              (\<lambda>i (FxBy, FyBx).
                 ( FxBy(i div 8 := ct_average Fx (int By + i) Fy (int Bx + i) (stride st ! 2) (stride st ! 1)),
                   FyBx(i div 8 := ct_average Fy (int Bx + i) Fx (int By + i) (stride st ! 1) (stride st ! 2)) ))
              (mem_FxBy gb, mem_FyBx gb)"
  have b1: "fst L1 = for_loop (stride st ! 1) (stride st ! 0 - stride st ! 1) 8
      (\<lambda>i M. M(i div 8 := ct_average Fx (6 + i) Fy (5 + i) (stride st ! 2) (stride st ! 1))) (mem_FxBy gb)"
    unfolding L1_def
    by (subst for_loop_component [where pr = fst and
          f = "\<lambda>i M. M(i div 8 := ct_average Fx (6 + i) Fy (5 + i) (stride st ! 2) (stride st ! 1))"])
       (simp_all add: split_def idx_defs)
  have c: "constraint_transport_2d gb st Fx Fy =
      for_loop 0 (stride st ! 0) 8
           (\<lambda>i (Fx, Fy).
              ( Fx(i + int Bx := 0, i + int By := fst L1 (i div 8)),
                Fy(i + int Bx := snd L1 (i div 8), i + int By := 0) ))
           (Fx, Fy)"
    unfolding constraint_transport_2d_def Let_def L1_def [symmetric] by (simp add: split_def)
  have "fst (constraint_transport_2d gb st Fx Fy) =
      for_loop 0 (stride st ! 0) 8 (\<lambda>i A. A(i + 5 := (\<lambda>i. 0) i, i + 6 := (\<lambda>i. fst L1 (i div 8)) i)) Fx"
    unfolding c
    by (subst for_loop_component [where pr = fst and
          f = "\<lambda>i A. A(i + 5 := 0, i + 6 := fst L1 (i div 8))"])
       (simp_all add: split_def idx_defs)
  also have "\<dots> = (\<lambda>j. if (j mod 8 = 5 \<or> j mod 8 = 6) \<and> 0 \<le> j - j mod 8 \<and> j - j mod 8 < stride st ! 0
                then (if j mod 8 = 5 then 0 else fst L1 ((j - j mod 8) div 8)) else Fx j)"
    by (rule for_loop_slots_2)
  finally show ?thesis
    unfolding b1 ct_buffer [OF sx own_aligned] .
qed

lemma ct2d_snd:
  assumes sx: "stride st ! 1 mod 8 = 0"
  shows "snd (constraint_transport_2d gb st Fx Fy) =
           (\<lambda>j. if (j mod 8 = 5 \<or> j mod 8 = 6) \<and> 0 \<le> j - j mod 8 \<and> j - j mod 8 < stride st ! 0
                then (if j mod 8 = 5
                      then ct_value (mem_FyBx gb) Fy 5 Fx 6 (stride st ! 1) (stride st ! 2) st (j - j mod 8)
                      else 0)
                else Fy j)"
proof -
  define L1 where "L1 = for_loop (stride st ! 1) (stride st ! 0 - stride st ! 1) 8
              (\<lambda>i (FxBy, FyBx).
                 ( FxBy(i div 8 := ct_average Fx (int By + i) Fy (int Bx + i) (stride st ! 2) (stride st ! 1)),
                   FyBx(i div 8 := ct_average Fy (int Bx + i) Fx (int By + i) (stride st ! 1) (stride st ! 2)) ))
              (mem_FxBy gb, mem_FyBx gb)"
  have b1: "snd L1 = for_loop (stride st ! 1) (stride st ! 0 - stride st ! 1) 8
      (\<lambda>i M. M(i div 8 := ct_average Fy (5 + i) Fx (6 + i) (stride st ! 1) (stride st ! 2))) (mem_FyBx gb)"
    unfolding L1_def
    by (subst for_loop_component [where pr = snd and
          f = "\<lambda>i M. M(i div 8 := ct_average Fy (5 + i) Fx (6 + i) (stride st ! 1) (stride st ! 2))"])
       (simp_all add: split_def idx_defs)
  have c: "constraint_transport_2d gb st Fx Fy =
      for_loop 0 (stride st ! 0) 8
           (\<lambda>i (Fx, Fy).
              ( Fx(i + int Bx := 0, i + int By := fst L1 (i div 8)),
                Fy(i + int Bx := snd L1 (i div 8), i + int By := 0) ))
           (Fx, Fy)"
    unfolding constraint_transport_2d_def Let_def L1_def [symmetric] by (simp add: split_def)
  have "snd (constraint_transport_2d gb st Fx Fy) =
      for_loop 0 (stride st ! 0) 8 (\<lambda>i A. A(i + 5 := (\<lambda>i. snd L1 (i div 8)) i, i + 6 := (\<lambda>i. 0) i)) Fy"
    unfolding c
    by (subst for_loop_component [where pr = snd and
          f = "\<lambda>i A. A(i + 5 := snd L1 (i div 8), i + 6 := 0)"])
       (simp_all add: split_def idx_defs)
  also have "\<dots> = (\<lambda>j. if (j mod 8 = 5 \<or> j mod 8 = 6) \<and> 0 \<le> j - j mod 8 \<and> j - j mod 8 < stride st ! 0
                then (if j mod 8 = 5 then snd L1 ((j - j mod 8) div 8) else 0) else Fy j)"
    by (rule for_loop_slots_2)
  finally show ?thesis
    unfolding b1 ct_buffer [OF sx own_aligned] .
qed

lemma ct3d_x:
  assumes sx: "stride st ! 1 mod 8 = 0"
  shows "fst (constraint_transport_3d gb st Fx Fy Fz) =
           (\<lambda>j. if (j mod 8 = 5 \<or> j mod 8 = 6 \<or> j mod 8 = 7) \<and> 0 \<le> j - j mod 8 \<and> j - j mod 8 < stride st ! 0
                then (if j mod 8 = 5 then 0
                      else if j mod 8 = 6 then ct_value (mem_FxBy gb) Fx 6 Fy 5 (stride st ! 2) (stride st ! 1) st (j - j mod 8)
                      else ct_value (mem_FxBz gb) Fx 7 Fz 5 (stride st ! 3) (stride st ! 1) st (j - j mod 8))
                else Fx j)"
proof -
  define L1 where "L1 = for_loop (stride st ! 1) (stride st ! 0 - stride st ! 1) 8
              (\<lambda>i (FxBy, FyBx, FyBz, FzBy, FzBx, FxBz).
                 ( FxBy(i div 8 := ct_average Fx (int By + i) Fy (int Bx + i) (stride st ! 2) (stride st ! 1)),
                   FyBx(i div 8 := ct_average Fy (int Bx + i) Fx (int By + i) (stride st ! 1) (stride st ! 2)),
                   FyBz(i div 8 := ct_average Fy (int Bz + i) Fz (int By + i) (stride st ! 3) (stride st ! 2)),
                   FzBy(i div 8 := ct_average Fz (int By + i) Fy (int Bz + i) (stride st ! 2) (stride st ! 3)),
                   FzBx(i div 8 := ct_average Fz (int Bx + i) Fx (int Bz + i) (stride st ! 1) (stride st ! 3)),
                   FxBz(i div 8 := ct_average Fx (int Bz + i) Fz (int Bx + i) (stride st ! 3) (stride st ! 1)) ))
              (mem_FxBy gb, mem_FyBx gb, mem_FyBz gb, mem_FzBy gb, mem_FzBx gb, mem_FxBz gb)"
  have b1: "fst L1 = for_loop (stride st ! 1) (stride st ! 0 - stride st ! 1) 8
      (\<lambda>i M. M(i div 8 := ct_average Fx (6 + i) Fy (5 + i) (stride st ! 2) (stride st ! 1))) (mem_FxBy gb)"
    unfolding L1_def
    by (subst for_loop_component [where pr = "fst" and
          f = "\<lambda>i M. M(i div 8 := ct_average Fx (6 + i) Fy (5 + i) (stride st ! 2) (stride st ! 1))"])
       (simp_all add: split_def idx_defs)
  have b2: "(\<lambda>s. snd (snd (snd (snd (snd s))))) L1 = for_loop (stride st ! 1) (stride st ! 0 - stride st ! 1) 8
      (\<lambda>i M. M(i div 8 := ct_average Fx (7 + i) Fz (5 + i) (stride st ! 3) (stride st ! 1))) (mem_FxBz gb)"
    unfolding L1_def
    by (subst for_loop_component [where pr = "\<lambda>s. snd (snd (snd (snd (snd s))))" and
          f = "\<lambda>i M. M(i div 8 := ct_average Fx (7 + i) Fz (5 + i) (stride st ! 3) (stride st ! 1))"])
       (simp_all add: split_def idx_defs)
  have c: "constraint_transport_3d gb st Fx Fy Fz =
      for_loop 0 (stride st ! 0) 8
           (\<lambda>i (Fx, Fy, Fz).
              ( Fx(i + int Bx := 0, i + int By := fst L1 (i div 8), i + int Bz := (\<lambda>s. snd (snd (snd (snd (snd s))))) L1 (i div 8)),
                Fy(i + int Bx := (\<lambda>s. fst (snd s)) L1 (i div 8), i + int By := 0, i + int Bz := (\<lambda>s. fst (snd (snd s))) L1 (i div 8)),
                Fz(i + int Bx := (\<lambda>s. fst (snd (snd (snd (snd s))))) L1 (i div 8), i + int By := (\<lambda>s. fst (snd (snd (snd s)))) L1 (i div 8), i + int Bz := 0) ))
           (Fx, Fy, Fz)"
    unfolding constraint_transport_3d_def Let_def L1_def [symmetric] by (simp add: split_def)
  have "fst (constraint_transport_3d gb st Fx Fy Fz) =
      for_loop 0 (stride st ! 0) 8 (\<lambda>i A. A(i + 5 := (\<lambda>i. 0) i, i + 6 := (\<lambda>i. fst L1 (i div 8)) i, i + 7 := (\<lambda>i. (\<lambda>s. snd (snd (snd (snd (snd s))))) L1 (i div 8)) i)) Fx"
    unfolding c
    by (subst for_loop_component [where pr = "fst" and
          f = "\<lambda>i A. A(i + 5 := 0, i + 6 := fst L1 (i div 8), i + 7 := (\<lambda>s. snd (snd (snd (snd (snd s))))) L1 (i div 8))"])
       (simp_all add: split_def idx_defs)
  also have "\<dots> = (\<lambda>j. if (j mod 8 = 5 \<or> j mod 8 = 6 \<or> j mod 8 = 7) \<and> 0 \<le> j - j mod 8 \<and> j - j mod 8 < stride st ! 0
                then (if j mod 8 = 5 then 0
                      else if j mod 8 = 6 then fst L1 ((j - j mod 8) div 8)
                      else (\<lambda>s. snd (snd (snd (snd (snd s))))) L1 ((j - j mod 8) div 8))
                else Fx j)"
    by (rule for_loop_slots_3)
  finally show ?thesis
    unfolding b1 b2 ct_buffer [OF sx own_aligned] .
qed

lemma ct3d_y:
  assumes sx: "stride st ! 1 mod 8 = 0"
  shows "fst (snd (constraint_transport_3d gb st Fx Fy Fz)) =
           (\<lambda>j. if (j mod 8 = 5 \<or> j mod 8 = 6 \<or> j mod 8 = 7) \<and> 0 \<le> j - j mod 8 \<and> j - j mod 8 < stride st ! 0
                then (if j mod 8 = 5 then ct_value (mem_FyBx gb) Fy 5 Fx 6 (stride st ! 1) (stride st ! 2) st (j - j mod 8)
                      else if j mod 8 = 6 then 0
                      else ct_value (mem_FyBz gb) Fy 7 Fz 6 (stride st ! 3) (stride st ! 2) st (j - j mod 8))
                else Fy j)"
proof -
  define L1 where "L1 = for_loop (stride st ! 1) (stride st ! 0 - stride st ! 1) 8
              (\<lambda>i (FxBy, FyBx, FyBz, FzBy, FzBx, FxBz).
                 ( FxBy(i div 8 := ct_average Fx (int By + i) Fy (int Bx + i) (stride st ! 2) (stride st ! 1)),
                   FyBx(i div 8 := ct_average Fy (int Bx + i) Fx (int By + i) (stride st ! 1) (stride st ! 2)),
                   FyBz(i div 8 := ct_average Fy (int Bz + i) Fz (int By + i) (stride st ! 3) (stride st ! 2)),
                   FzBy(i div 8 := ct_average Fz (int By + i) Fy (int Bz + i) (stride st ! 2) (stride st ! 3)),
                   FzBx(i div 8 := ct_average Fz (int Bx + i) Fx (int Bz + i) (stride st ! 1) (stride st ! 3)),
                   FxBz(i div 8 := ct_average Fx (int Bz + i) Fz (int Bx + i) (stride st ! 3) (stride st ! 1)) ))
              (mem_FxBy gb, mem_FyBx gb, mem_FyBz gb, mem_FzBy gb, mem_FzBx gb, mem_FxBz gb)"
  have b1: "(\<lambda>s. fst (snd s)) L1 = for_loop (stride st ! 1) (stride st ! 0 - stride st ! 1) 8
      (\<lambda>i M. M(i div 8 := ct_average Fy (5 + i) Fx (6 + i) (stride st ! 1) (stride st ! 2))) (mem_FyBx gb)"
    unfolding L1_def
    by (subst for_loop_component [where pr = "\<lambda>s. fst (snd s)" and
          f = "\<lambda>i M. M(i div 8 := ct_average Fy (5 + i) Fx (6 + i) (stride st ! 1) (stride st ! 2))"])
       (simp_all add: split_def idx_defs)
  have b2: "(\<lambda>s. fst (snd (snd s))) L1 = for_loop (stride st ! 1) (stride st ! 0 - stride st ! 1) 8
      (\<lambda>i M. M(i div 8 := ct_average Fy (7 + i) Fz (6 + i) (stride st ! 3) (stride st ! 2))) (mem_FyBz gb)"
    unfolding L1_def
    by (subst for_loop_component [where pr = "\<lambda>s. fst (snd (snd s))" and
          f = "\<lambda>i M. M(i div 8 := ct_average Fy (7 + i) Fz (6 + i) (stride st ! 3) (stride st ! 2))"])
       (simp_all add: split_def idx_defs)
  have c: "constraint_transport_3d gb st Fx Fy Fz =
      for_loop 0 (stride st ! 0) 8
           (\<lambda>i (Fx, Fy, Fz).
              ( Fx(i + int Bx := 0, i + int By := fst L1 (i div 8), i + int Bz := (\<lambda>s. snd (snd (snd (snd (snd s))))) L1 (i div 8)),
                Fy(i + int Bx := (\<lambda>s. fst (snd s)) L1 (i div 8), i + int By := 0, i + int Bz := (\<lambda>s. fst (snd (snd s))) L1 (i div 8)),
                Fz(i + int Bx := (\<lambda>s. fst (snd (snd (snd (snd s))))) L1 (i div 8), i + int By := (\<lambda>s. fst (snd (snd (snd s)))) L1 (i div 8), i + int Bz := 0) ))
           (Fx, Fy, Fz)"
    unfolding constraint_transport_3d_def Let_def L1_def [symmetric] by (simp add: split_def)
  have "fst (snd (constraint_transport_3d gb st Fx Fy Fz)) =
      for_loop 0 (stride st ! 0) 8 (\<lambda>i A. A(i + 5 := (\<lambda>i. (\<lambda>s. fst (snd s)) L1 (i div 8)) i, i + 6 := (\<lambda>i. 0) i, i + 7 := (\<lambda>i. (\<lambda>s. fst (snd (snd s))) L1 (i div 8)) i)) Fy"
    unfolding c
    by (subst for_loop_component [where pr = "\<lambda>s. fst (snd s)" and
          f = "\<lambda>i A. A(i + 5 := (\<lambda>s. fst (snd s)) L1 (i div 8), i + 6 := 0, i + 7 := (\<lambda>s. fst (snd (snd s))) L1 (i div 8))"])
       (simp_all add: split_def idx_defs)
  also have "\<dots> = (\<lambda>j. if (j mod 8 = 5 \<or> j mod 8 = 6 \<or> j mod 8 = 7) \<and> 0 \<le> j - j mod 8 \<and> j - j mod 8 < stride st ! 0
                then (if j mod 8 = 5 then (\<lambda>s. fst (snd s)) L1 ((j - j mod 8) div 8)
                      else if j mod 8 = 6 then 0
                      else (\<lambda>s. fst (snd (snd s))) L1 ((j - j mod 8) div 8))
                else Fy j)"
    by (rule for_loop_slots_3)
  finally show ?thesis
    unfolding b1 b2 ct_buffer [OF sx own_aligned] .
qed

lemma ct3d_z:
  assumes sx: "stride st ! 1 mod 8 = 0"
  shows "snd (snd (constraint_transport_3d gb st Fx Fy Fz)) =
           (\<lambda>j. if (j mod 8 = 5 \<or> j mod 8 = 6 \<or> j mod 8 = 7) \<and> 0 \<le> j - j mod 8 \<and> j - j mod 8 < stride st ! 0
                then (if j mod 8 = 5 then ct_value (mem_FzBx gb) Fz 5 Fx 7 (stride st ! 1) (stride st ! 3) st (j - j mod 8)
                      else if j mod 8 = 6 then ct_value (mem_FzBy gb) Fz 6 Fy 7 (stride st ! 2) (stride st ! 3) st (j - j mod 8)
                      else 0)
                else Fz j)"
proof -
  define L1 where "L1 = for_loop (stride st ! 1) (stride st ! 0 - stride st ! 1) 8
              (\<lambda>i (FxBy, FyBx, FyBz, FzBy, FzBx, FxBz).
                 ( FxBy(i div 8 := ct_average Fx (int By + i) Fy (int Bx + i) (stride st ! 2) (stride st ! 1)),
                   FyBx(i div 8 := ct_average Fy (int Bx + i) Fx (int By + i) (stride st ! 1) (stride st ! 2)),
                   FyBz(i div 8 := ct_average Fy (int Bz + i) Fz (int By + i) (stride st ! 3) (stride st ! 2)),
                   FzBy(i div 8 := ct_average Fz (int By + i) Fy (int Bz + i) (stride st ! 2) (stride st ! 3)),
                   FzBx(i div 8 := ct_average Fz (int Bx + i) Fx (int Bz + i) (stride st ! 1) (stride st ! 3)),
                   FxBz(i div 8 := ct_average Fx (int Bz + i) Fz (int Bx + i) (stride st ! 3) (stride st ! 1)) ))
              (mem_FxBy gb, mem_FyBx gb, mem_FyBz gb, mem_FzBy gb, mem_FzBx gb, mem_FxBz gb)"
  have b1: "(\<lambda>s. fst (snd (snd (snd (snd s))))) L1 = for_loop (stride st ! 1) (stride st ! 0 - stride st ! 1) 8
      (\<lambda>i M. M(i div 8 := ct_average Fz (5 + i) Fx (7 + i) (stride st ! 1) (stride st ! 3))) (mem_FzBx gb)"
    unfolding L1_def
    by (subst for_loop_component [where pr = "\<lambda>s. fst (snd (snd (snd (snd s))))" and
          f = "\<lambda>i M. M(i div 8 := ct_average Fz (5 + i) Fx (7 + i) (stride st ! 1) (stride st ! 3))"])
       (simp_all add: split_def idx_defs)
  have b2: "(\<lambda>s. fst (snd (snd (snd s)))) L1 = for_loop (stride st ! 1) (stride st ! 0 - stride st ! 1) 8
      (\<lambda>i M. M(i div 8 := ct_average Fz (6 + i) Fy (7 + i) (stride st ! 2) (stride st ! 3))) (mem_FzBy gb)"
    unfolding L1_def
    by (subst for_loop_component [where pr = "\<lambda>s. fst (snd (snd (snd s)))" and
          f = "\<lambda>i M. M(i div 8 := ct_average Fz (6 + i) Fy (7 + i) (stride st ! 2) (stride st ! 3))"])
       (simp_all add: split_def idx_defs)
  have c: "constraint_transport_3d gb st Fx Fy Fz =
      for_loop 0 (stride st ! 0) 8
           (\<lambda>i (Fx, Fy, Fz).
              ( Fx(i + int Bx := 0, i + int By := fst L1 (i div 8), i + int Bz := (\<lambda>s. snd (snd (snd (snd (snd s))))) L1 (i div 8)),
                Fy(i + int Bx := (\<lambda>s. fst (snd s)) L1 (i div 8), i + int By := 0, i + int Bz := (\<lambda>s. fst (snd (snd s))) L1 (i div 8)),
                Fz(i + int Bx := (\<lambda>s. fst (snd (snd (snd (snd s))))) L1 (i div 8), i + int By := (\<lambda>s. fst (snd (snd (snd s)))) L1 (i div 8), i + int Bz := 0) ))
           (Fx, Fy, Fz)"
    unfolding constraint_transport_3d_def Let_def L1_def [symmetric] by (simp add: split_def)
  have "snd (snd (constraint_transport_3d gb st Fx Fy Fz)) =
      for_loop 0 (stride st ! 0) 8 (\<lambda>i A. A(i + 5 := (\<lambda>i. (\<lambda>s. fst (snd (snd (snd (snd s))))) L1 (i div 8)) i, i + 6 := (\<lambda>i. (\<lambda>s. fst (snd (snd (snd s)))) L1 (i div 8)) i, i + 7 := (\<lambda>i. 0) i)) Fz"
    unfolding c
    by (subst for_loop_component [where pr = "\<lambda>s. snd (snd s)" and
          f = "\<lambda>i A. A(i + 5 := (\<lambda>s. fst (snd (snd (snd (snd s))))) L1 (i div 8), i + 6 := (\<lambda>s. fst (snd (snd (snd s)))) L1 (i div 8), i + 7 := 0)"])
       (simp_all add: split_def idx_defs)
  also have "\<dots> = (\<lambda>j. if (j mod 8 = 5 \<or> j mod 8 = 6 \<or> j mod 8 = 7) \<and> 0 \<le> j - j mod 8 \<and> j - j mod 8 < stride st ! 0
                then (if j mod 8 = 5 then (\<lambda>s. fst (snd (snd (snd (snd s))))) L1 ((j - j mod 8) div 8)
                      else if j mod 8 = 6 then (\<lambda>s. fst (snd (snd (snd s)))) L1 ((j - j mod 8) div 8)
                      else 0)
                else Fz j)"
    by (rule for_loop_slots_3)
  finally show ?thesis
    unfolding b1 b2 ct_buffer [OF sx own_aligned] .
qed

lemma uniform_onD: "uniform_on A lo hi h \<Longrightarrow> lo \<le> j \<Longrightarrow> j < hi \<Longrightarrow> A j = h (j mod 8)"
  by (simp add: uniform_on_def)

lemma uniform_on_shift:
  assumes "uniform_on A lo hi h" "s mod 8 = 0" "lo \<le> j - s" "j < hi" "0 \<le> s"
  shows "A j = A (j - s)"
proof -
  have "A j = h (j mod 8)" using assms by (intro uniform_onD [OF assms(1)]) linarith+
  moreover have "A (j - s) = h ((j - s) mod 8)"
    using assms by (intro uniform_onD [OF assms(1)]) linarith+
  moreover have "(j - s) mod 8 = j mod 8" using assms(2) by presburger
  ultimately show ?thesis by simp
qed

lemma cell_bounds:
  fixes j :: int
  assumes "lo mod 8 = 0" "hi mod 8 = 0" "lo \<le> j" "j < hi"
  shows "lo \<le> j - j mod 8" "j - j mod 8 + 8 \<le> hi" "(j - j mod 8) mod 8 = 0"
  using assms by presburger+

lemma read_uniform:
  assumes "uniform_on A lo hi h" "i mod 8 = 0" "d mod 8 = 0" "0 \<le> k" "k < 8"
    and "lo \<le> i + d" "i + d + 8 \<le> hi"
  shows "A (k + i + d) = h k"
proof -
  have "(k + i + d) mod 8 = k" using assms(2-5) by presburger
  moreover have "lo \<le> k + i + d" "k + i + d < hi" using assms(4-7) by linarith+
  ultimately show ?thesis using uniform_onD [OF assms(1), of "k + i + d"] by simp
qed

lemma ct_average_uniform:
  assumes A: "uniform_on A la ha hA" and B: "uniform_on B lb hb hB"
    and al: "i mod 8 = 0" "a mod 8 = 0" "b mod 8 = 0"
    and k: "0 \<le> ka" "ka < 8" "0 \<le> kb" "kb < 8"
    and ra: "la \<le> i - a" "i + a + 8 \<le> ha" and rb: "lb \<le> i - a" "i + b + 8 \<le> hb"
    and pos: "0 \<le> a" "0 \<le> b"
  shows "ct_average A (ka + i) B (kb + i) a b = (4 * hA ka - 4 * hB kb) / 8"
proof -
  have ma: "(- a) mod 8 = 0" "(b - a) mod 8 = 0" "(0 :: int) mod 8 = 0" using al by presburger+
  have a1: "A (ka + i + 0) = hA ka"
    by (rule read_uniform [OF A al(1) ma(3) k(1,2)]) (use ra pos in linarith)+
  have a2: "A (ka + i + a) = hA ka"
    by (rule read_uniform [OF A al(1) al(2) k(1,2)]) (use ra pos in linarith)+
  have a3: "A (ka + i + (- a)) = hA ka"
    by (rule read_uniform [OF A al(1) ma(1) k(1,2)]) (use ra pos in linarith)+
  have b1: "B (kb + i + 0) = hB kb"
    by (rule read_uniform [OF B al(1) ma(3) k(3,4)]) (use rb pos in linarith)+
  have b2: "B (kb + i + b) = hB kb"
    by (rule read_uniform [OF B al(1) al(3) k(3,4)]) (use rb pos in linarith)+
  have b3: "B (kb + i + (- a)) = hB kb"
    by (rule read_uniform [OF B al(1) ma(1) k(3,4)]) (use rb pos in linarith)+
  have b4: "B (kb + i + (b - a)) = hB kb"
    by (rule read_uniform [OF B al(1) ma(2) k(3,4)]) (use rb pos in linarith)+
  have e: "ka + i - a = ka + i + (- a)" "kb + i - a = kb + i + (- a)"
    "kb + i + b - a = kb + i + (b - a)" "ka + i = ka + i + 0" "kb + i = kb + i + 0"
    by simp_all
  have "A (ka + i) = hA ka" "A (ka + i + a) = hA ka" "A (ka + i - a) = hA ka"
    "B (kb + i) = hB kb" "B (kb + i + b) = hB kb" "B (kb + i - a) = hB kb"
    "B (kb + i + b - a) = hB kb"
    using a1 a2 a3 b1 b2 b3 b4 unfolding e(1,2,3) by simp_all
  then show ?thesis unfolding ct_average_def by simp
qed

lemma ct_value_uniform:
  assumes A: "uniform_on A la ha hA" and B: "uniform_on B lb hb hB"
    and al: "i mod 8 = 0" "a mod 8 = 0" "b mod 8 = 0"
    and k: "0 \<le> ka" "ka < 8" "0 \<le> kb" "kb < 8"
    and ra: "la \<le> i - a" "i + a + 8 \<le> ha" and rb: "lb \<le> i - a" "i + b + 8 \<le> hb"
    and pos: "0 \<le> a" "0 \<le> b"
    and r: "stride st ! 1 \<le> i" "i < stride st ! 0 - stride st ! 1"
  shows "ct_value mem A ka B kb a b st i = (4 * hA ka - 4 * hB kb) / 8"
  unfolding ct_value_def using r ct_average_uniform [OF A B al k ra rb pos] by simp

lemma slots_uniform:
  assumes F: "uniform_on F lF hF h"
    and G: "G = (\<lambda>j. if K (j mod 8) \<and> 0 \<le> j - j mod 8 \<and> j - j mod 8 < n
                      then v (j mod 8) (j - j mod 8) else F j)"
    and al: "lo mod 8 = 0" "hi mod 8 = 0"
    and r: "0 \<le> lo" "hi \<le> n" "lF \<le> lo" "hi \<le> hF"
    and c: "\<And>k i. K k \<Longrightarrow> i mod 8 = 0 \<Longrightarrow> lo \<le> i \<Longrightarrow> i + 8 \<le> hi \<Longrightarrow> v k i = c k"
  shows "uniform_on G lo hi (\<lambda>k. if K k then c k else h k)"
  unfolding uniform_on_def
proof (intro allI impI)
  fix j assume j: "lo \<le> j \<and> j < hi"
  note b = cell_bounds [OF al, of j]
  have i: "lo \<le> j - j mod 8" "j - j mod 8 + 8 \<le> hi" "(j - j mod 8) mod 8 = 0"
    using b j by blast+
  show "G j = (if K (j mod 8) then c (j mod 8) else h (j mod 8))"
  proof (cases "K (j mod 8)")
    case True
    have "0 \<le> j - j mod 8 \<and> j - j mod 8 < n" using i r by linarith
    then have "G j = v (j mod 8) (j - j mod 8)" unfolding G using True by simp
    then show ?thesis using c [OF True i(3) i(1) i(2)] True by simp
  next
    case False
    have "G j = F j" unfolding G using False by simp
    moreover have "F j = h (j mod 8)" using j r by (intro uniform_onD [OF F]) linarith+
    ultimately show ?thesis using False by simp
  qed
qed

lemma ct2d_uniform:
  assumes al: "stride st ! 0 mod 8 = 0" "stride st ! 1 mod 8 = 0" "stride st ! 2 mod 8 = 0"
    and ord: "0 < stride st ! 2" "stride st ! 2 \<le> stride st ! 1"
    and Fx: "uniform_on Fx (stride st ! 1) (stride st ! 0 - 2 * stride st ! 1) hx"
    and Fy: "uniform_on Fy (stride st ! 2) (stride st ! 0 - 2 * stride st ! 2) hy"
  shows "\<exists>hx' hy'.
           uniform_on (fst (constraint_transport_2d gb st Fx Fy))
             (stride st ! 1 + stride st ! 2) (stride st ! 0 - 2 * stride st ! 1 - stride st ! 2) hx' \<and>
           uniform_on (snd (constraint_transport_2d gb st Fx Fy))
             (2 * stride st ! 1) (stride st ! 0 - 2 * stride st ! 1 - stride st ! 2) hy'"
proof -
  define s0 where "s0 = stride st ! 0"
  define sx where "sx = stride st ! 1"
  define sy where "sy = stride st ! 2"
  note d = s0_def [symmetric] sx_def [symmetric] sy_def [symmetric]
  note al' = al [unfolded d] and ord' = ord [unfolded d]
  note Fx' = Fx [unfolded d] and Fy' = Fy [unfolded d]
  have m: "(sx + sy) mod 8 = 0" "(s0 - 2 * sx - sy) mod 8 = 0" "(2 * sx) mod 8 = 0"
    using al' by presburger+
  have x: "uniform_on (fst (constraint_transport_2d gb st Fx Fy)) (sx + sy) (s0 - 2 * sx - sy)
      (\<lambda>k. if k = 5 \<or> k = 6 then (if k = 5 then 0 else (4 * hx 6 - 4 * hy 5) / 8) else hx k)"
  proof (rule slots_uniform [OF Fx', where K = "\<lambda>k. k = 5 \<or> k = 6" and n = s0 and
        v = "\<lambda>k i. if k = 5 then 0 else ct_value (mem_FxBy gb) Fx 6 Fy 5 sy sx st i"])
    show "fst (constraint_transport_2d gb st Fx Fy) =
        (\<lambda>j. if (j mod 8 = 5 \<or> j mod 8 = 6) \<and> 0 \<le> j - j mod 8 \<and> j - j mod 8 < s0
             then if j mod 8 = 5 then 0
                  else ct_value (mem_FxBy gb) Fx 6 Fy 5 sy sx st (j - j mod 8)
             else Fx j)"
      unfolding ct2d_fst [OF al(2)] d ..
  next
    fix k i :: int
    assume k: "k = 5 \<or> k = 6" and i: "i mod 8 = 0" "sx + sy \<le> i" "i + 8 \<le> s0 - 2 * sx - sy"
    have r: "stride st ! 1 \<le> i" "i < stride st ! 0 - stride st ! 1"
      unfolding d using i ord' by linarith+
    have "ct_value (mem_FxBy gb) Fx 6 Fy 5 sy sx st i = (4 * hx 6 - 4 * hy 5) / 8"
      by (rule ct_value_uniform [OF Fx' Fy' i(1) al'(3) al'(2) _ _ _ _ _ _ _ _ _ _ r])
         (use i ord' in simp_all)
    then show "(if k = 5 then 0 else ct_value (mem_FxBy gb) Fx 6 Fy 5 sy sx st i)
        = (if k = 5 then 0 else (4 * hx 6 - 4 * hy 5) / 8)" by simp
  qed (use m ord' in simp_all)
  have y: "uniform_on (snd (constraint_transport_2d gb st Fx Fy)) (2 * sx) (s0 - 2 * sx - sy)
      (\<lambda>k. if k = 5 \<or> k = 6 then (if k = 5 then (4 * hy 5 - 4 * hx 6) / 8 else 0) else hy k)"
  proof (rule slots_uniform [OF Fy', where K = "\<lambda>k. k = 5 \<or> k = 6" and n = s0 and
        v = "\<lambda>k i. if k = 5 then ct_value (mem_FyBx gb) Fy 5 Fx 6 sx sy st i else 0"])
    show "snd (constraint_transport_2d gb st Fx Fy) =
        (\<lambda>j. if (j mod 8 = 5 \<or> j mod 8 = 6) \<and> 0 \<le> j - j mod 8 \<and> j - j mod 8 < s0
             then if j mod 8 = 5
                  then ct_value (mem_FyBx gb) Fy 5 Fx 6 sx sy st (j - j mod 8) else 0
             else Fy j)"
      unfolding ct2d_snd [OF al(2)] d ..
  next
    fix k i :: int
    assume k: "k = 5 \<or> k = 6" and i: "i mod 8 = 0" "2 * sx \<le> i" "i + 8 \<le> s0 - 2 * sx - sy"
    have r: "stride st ! 1 \<le> i" "i < stride st ! 0 - stride st ! 1"
      unfolding d using i ord' by linarith+
    have "ct_value (mem_FyBx gb) Fy 5 Fx 6 sx sy st i = (4 * hy 5 - 4 * hx 6) / 8"
      by (rule ct_value_uniform [OF Fy' Fx' i(1) al'(2) al'(3) _ _ _ _ _ _ _ _ _ _ r])
         (use i ord' in simp_all)
    then show "(if k = 5 then ct_value (mem_FyBx gb) Fy 5 Fx 6 sx sy st i else 0)
        = (if k = 5 then (4 * hy 5 - 4 * hx 6) / 8 else 0)" by simp
  qed (use m ord' in simp_all)
  show ?thesis using x y unfolding d by blast
qed

lemma ct3d_uniform:
  assumes al: "stride st ! 0 mod 8 = 0" "stride st ! 1 mod 8 = 0" "stride st ! 2 mod 8 = 0"
      "stride st ! 3 mod 8 = 0"
    and ord: "0 < stride st ! 3" "stride st ! 3 \<le> stride st ! 2" "stride st ! 2 \<le> stride st ! 1"
    and Fx: "uniform_on Fx (stride st ! 1) (stride st ! 0 - 2 * stride st ! 1) hx"
    and Fy: "uniform_on Fy (stride st ! 2) (stride st ! 0 - 2 * stride st ! 2) hy"
    and Fz: "uniform_on Fz (stride st ! 3) (stride st ! 0 - 2 * stride st ! 3) hz"
  shows "\<exists>hx' hy' hz'.
           uniform_on (fst (constraint_transport_3d gb st Fx Fy Fz))
             (stride st ! 1 + stride st ! 2) (stride st ! 0 - 2 * stride st ! 1 - stride st ! 2) hx' \<and>
           uniform_on (fst (snd (constraint_transport_3d gb st Fx Fy Fz)))
             (2 * stride st ! 1) (stride st ! 0 - 2 * stride st ! 1 - stride st ! 2) hy' \<and>
           uniform_on (snd (snd (constraint_transport_3d gb st Fx Fy Fz)))
             (2 * stride st ! 1) (stride st ! 0 - 2 * stride st ! 1 - stride st ! 2) hz'"
proof -
  define s0 where "s0 = stride st ! 0"
  define sx where "sx = stride st ! 1"
  define sy where "sy = stride st ! 2"
  define sz where "sz = stride st ! 3"
  note d = s0_def [symmetric] sx_def [symmetric] sy_def [symmetric] sz_def [symmetric]
  note al' = al [unfolded d] and ord' = ord [unfolded d]
  note Fx' = Fx [unfolded d] and Fy' = Fy [unfolded d] and Fz' = Fz [unfolded d]
  have m: "(sx + sy) mod 8 = 0" "(s0 - 2 * sx - sy) mod 8 = 0" "(2 * sx) mod 8 = 0"
    using al' by presburger+
  have x: "uniform_on (fst (constraint_transport_3d gb st Fx Fy Fz)) (sx + sy) (s0 - 2 * sx - sy)
      (\<lambda>k. if k = 5 \<or> k = 6 \<or> k = 7 then (if k = 5 then 0 else if k = 6 then (4 * hx 6 - 4 * hy 5) / 8 else (4 * hx 7 - 4 * hz 5) / 8) else hx k)"
  proof (rule slots_uniform [OF Fx', where K = "\<lambda>k. k = 5 \<or> k = 6 \<or> k = 7" and n = s0 and
        v = "\<lambda>k i. (if k = 5 then 0 else if k = 6 then ct_value (mem_FxBy gb) Fx 6 Fy 5 sy sx st i else ct_value (mem_FxBz gb) Fx 7 Fz 5 sz sx st i)"])
    show "fst (constraint_transport_3d gb st Fx Fy Fz) =
        (\<lambda>j. if (j mod 8 = 5 \<or> j mod 8 = 6 \<or> j mod 8 = 7) \<and> 0 \<le> j - j mod 8 \<and> j - j mod 8 < s0
             then (if j mod 8 = 5 then 0 else if j mod 8 = 6 then ct_value (mem_FxBy gb) Fx 6 Fy 5 sy sx st (j - j mod 8) else ct_value (mem_FxBz gb) Fx 7 Fz 5 sz sx st (j - j mod 8))
             else Fx j)"
      unfolding ct3d_x [OF al(2)] d ..
  next
    fix k i :: int
    assume k: "k = 5 \<or> k = 6 \<or> k = 7" and i: "i mod 8 = 0" "sx + sy \<le> i" "i + 8 \<le> s0 - 2 * sx - sy"
    have r: "stride st ! 1 \<le> i" "i < stride st ! 0 - stride st ! 1"
      unfolding d using i ord' by linarith+
    have c1: "ct_value (mem_FxBy gb) Fx 6 Fy 5 sy sx st i = (4 * hx 6 - 4 * hy 5) / 8"
      by (rule ct_value_uniform [OF Fx' Fy' i(1) al'(3) al'(2) _ _ _ _ _ _ _ _ _ _ r])
         (use i ord' in simp_all)
    have c2: "ct_value (mem_FxBz gb) Fx 7 Fz 5 sz sx st i = (4 * hx 7 - 4 * hz 5) / 8"
      by (rule ct_value_uniform [OF Fx' Fz' i(1) al'(4) al'(2) _ _ _ _ _ _ _ _ _ _ r])
         (use i ord' in simp_all)
    show "(if k = 5 then 0 else if k = 6 then ct_value (mem_FxBy gb) Fx 6 Fy 5 sy sx st i else ct_value (mem_FxBz gb) Fx 7 Fz 5 sz sx st i)
        = (if k = 5 then 0 else if k = 6 then (4 * hx 6 - 4 * hy 5) / 8 else (4 * hx 7 - 4 * hz 5) / 8)"
      unfolding c1 c2 ..
  qed (use m ord' in simp_all)
  have y: "uniform_on (fst (snd (constraint_transport_3d gb st Fx Fy Fz))) (2 * sx) (s0 - 2 * sx - sy)
      (\<lambda>k. if k = 5 \<or> k = 6 \<or> k = 7 then (if k = 5 then (4 * hy 5 - 4 * hx 6) / 8 else if k = 6 then 0 else (4 * hy 7 - 4 * hz 6) / 8) else hy k)"
  proof (rule slots_uniform [OF Fy', where K = "\<lambda>k. k = 5 \<or> k = 6 \<or> k = 7" and n = s0 and
        v = "\<lambda>k i. (if k = 5 then ct_value (mem_FyBx gb) Fy 5 Fx 6 sx sy st i else if k = 6 then 0 else ct_value (mem_FyBz gb) Fy 7 Fz 6 sz sy st i)"])
    show "fst (snd (constraint_transport_3d gb st Fx Fy Fz)) =
        (\<lambda>j. if (j mod 8 = 5 \<or> j mod 8 = 6 \<or> j mod 8 = 7) \<and> 0 \<le> j - j mod 8 \<and> j - j mod 8 < s0
             then (if j mod 8 = 5 then ct_value (mem_FyBx gb) Fy 5 Fx 6 sx sy st (j - j mod 8) else if j mod 8 = 6 then 0 else ct_value (mem_FyBz gb) Fy 7 Fz 6 sz sy st (j - j mod 8))
             else Fy j)"
      unfolding ct3d_y [OF al(2)] d ..
  next
    fix k i :: int
    assume k: "k = 5 \<or> k = 6 \<or> k = 7" and i: "i mod 8 = 0" "2 * sx \<le> i" "i + 8 \<le> s0 - 2 * sx - sy"
    have r: "stride st ! 1 \<le> i" "i < stride st ! 0 - stride st ! 1"
      unfolding d using i ord' by linarith+
    have c1: "ct_value (mem_FyBx gb) Fy 5 Fx 6 sx sy st i = (4 * hy 5 - 4 * hx 6) / 8"
      by (rule ct_value_uniform [OF Fy' Fx' i(1) al'(2) al'(3) _ _ _ _ _ _ _ _ _ _ r])
         (use i ord' in simp_all)
    have c2: "ct_value (mem_FyBz gb) Fy 7 Fz 6 sz sy st i = (4 * hy 7 - 4 * hz 6) / 8"
      by (rule ct_value_uniform [OF Fy' Fz' i(1) al'(4) al'(3) _ _ _ _ _ _ _ _ _ _ r])
         (use i ord' in simp_all)
    show "(if k = 5 then ct_value (mem_FyBx gb) Fy 5 Fx 6 sx sy st i else if k = 6 then 0 else ct_value (mem_FyBz gb) Fy 7 Fz 6 sz sy st i)
        = (if k = 5 then (4 * hy 5 - 4 * hx 6) / 8 else if k = 6 then 0 else (4 * hy 7 - 4 * hz 6) / 8)"
      unfolding c1 c2 ..
  qed (use m ord' in simp_all)
  have z: "uniform_on (snd (snd (constraint_transport_3d gb st Fx Fy Fz))) (2 * sx) (s0 - 2 * sx - sy)
      (\<lambda>k. if k = 5 \<or> k = 6 \<or> k = 7 then (if k = 5 then (4 * hz 5 - 4 * hx 7) / 8 else if k = 6 then (4 * hz 6 - 4 * hy 7) / 8 else 0) else hz k)"
  proof (rule slots_uniform [OF Fz', where K = "\<lambda>k. k = 5 \<or> k = 6 \<or> k = 7" and n = s0 and
        v = "\<lambda>k i. (if k = 5 then ct_value (mem_FzBx gb) Fz 5 Fx 7 sx sz st i else if k = 6 then ct_value (mem_FzBy gb) Fz 6 Fy 7 sy sz st i else 0)"])
    show "snd (snd (constraint_transport_3d gb st Fx Fy Fz)) =
        (\<lambda>j. if (j mod 8 = 5 \<or> j mod 8 = 6 \<or> j mod 8 = 7) \<and> 0 \<le> j - j mod 8 \<and> j - j mod 8 < s0
             then (if j mod 8 = 5 then ct_value (mem_FzBx gb) Fz 5 Fx 7 sx sz st (j - j mod 8) else if j mod 8 = 6 then ct_value (mem_FzBy gb) Fz 6 Fy 7 sy sz st (j - j mod 8) else 0)
             else Fz j)"
      unfolding ct3d_z [OF al(2)] d ..
  next
    fix k i :: int
    assume k: "k = 5 \<or> k = 6 \<or> k = 7" and i: "i mod 8 = 0" "2 * sx \<le> i" "i + 8 \<le> s0 - 2 * sx - sy"
    have r: "stride st ! 1 \<le> i" "i < stride st ! 0 - stride st ! 1"
      unfolding d using i ord' by linarith+
    have c1: "ct_value (mem_FzBx gb) Fz 5 Fx 7 sx sz st i = (4 * hz 5 - 4 * hx 7) / 8"
      by (rule ct_value_uniform [OF Fz' Fx' i(1) al'(2) al'(4) _ _ _ _ _ _ _ _ _ _ r])
         (use i ord' in simp_all)
    have c2: "ct_value (mem_FzBy gb) Fz 6 Fy 7 sy sz st i = (4 * hz 6 - 4 * hy 7) / 8"
      by (rule ct_value_uniform [OF Fz' Fy' i(1) al'(3) al'(4) _ _ _ _ _ _ _ _ _ _ r])
         (use i ord' in simp_all)
    show "(if k = 5 then ct_value (mem_FzBx gb) Fz 5 Fx 7 sx sz st i else if k = 6 then ct_value (mem_FzBy gb) Fz 6 Fy 7 sy sz st i else 0)
        = (if k = 5 then (4 * hz 5 - 4 * hx 7) / 8 else if k = 6 then (4 * hz 6 - 4 * hy 7) / 8 else 0)"
      unfolding c1 c2 ..
  qed (use m ord' in simp_all)
  show ?thesis using x y z unfolding d by blast
qed

subsection \<open>The entry points on a uniform field\<close>

text \<open>
  Each entry point on a uniform field whose inversion succeeds, and the two grids used as
  examples.
\<close>

lemma Fiph_uniform_on:
  assumes g: "uniform_grid st P q" and al: "stride_dim st mod 8 = 0" "0 < stride_dim st"
  shows "\<exists>m F' h. Fiph ext gb st P F = Inr (lam st m, F') \<and>
           uniform_on F' (stride_dim st) (stride st ! 0 - 2 * stride_dim st) h"
proof -
  obtain m F' g' where r: "Fiph ext gb st P F = Inr (lam st m, F')"
    and u: "\<forall>j. stride_dim st \<le> j \<and> j < stride st ! 0 - 2 * stride_dim st \<longrightarrow>
                  F' j = g' ! nat (j mod 8)"
    using Fiph_uniform_grid [OF g al, of ext gb F] by blast
  have "uniform_on F' (stride_dim st) (stride st ! 0 - 2 * stride_dim st) (\<lambda>k. g' ! nat k)"
    unfolding uniform_on_def using u by blast
  with r show ?thesis by blast
qed

lemma dUdt_1d_uniform:
  assumes alive: "libopstate st = LibraryOperation_Alive"
    and hll: "mode_riemann_solver (lib_state st) = RiemannSolver_HLL"
    and lt: "limiter_total st"
    and al: "stride st ! 0 mod 8 = 0" "stride st ! 1 mod 8 = 0" "0 < stride st ! 1"
    and dx: "dx st \<noteq> 0"
    and U: "\<And>c. 0 \<le> c \<Longrightarrow> 8 * c < stride st ! 0 \<Longrightarrow> cell U (8 * c) = u"
    and G: "\<And>c. 0 \<le> c \<Longrightarrow> 8 * c < stride st ! 0 \<Longrightarrow> cell (PrimitiveArray st) (8 * c) = p0"
    and ok: "cons_to_prim_point st u p0 = Inr (0, q, st')"
  shows "failures_of (dUdt_1d ext gb st U L) = Some 0 \<and>
         (\<forall>j. 2 * stride st ! 1 \<le> j \<and> j < stride st ! 0 - 2 * stride st ! 1 \<longrightarrow>
                output_at (dUdt_1d ext gb st U L) j = Some 0)"
proof -
  obtain P st1 where a: "cons_to_prim_array st U None (stride st ! 0 div 8) = Inr (0, P, st1)"
    and u1: "uniform_grid st1 P q" and s1: "stride st1 = stride st" "dx st1 = dx st"
    using uniform_pass [OF U G ok hll lt al(1) alive] by blast
  define stx where "stx = st1\<lparr>dimension := Dim1\<rparr>"
  have sx: "stride stx = stride st" "stride_dim stx = stride st ! 1" "uniform_grid stx P q"
    "dx stx = dx st"
    using s1 u1 by (simp_all add: stx_def)
  obtain m F h where b: "Fiph ext gb stx P (FluxInterArray_x st1) = Inr (lam stx m, F)"
    and F: "uniform_on F (stride st ! 1) (stride st ! 0 - 2 * stride st ! 1) h"
    using Fiph_uniform_on [OF sx(3), of ext gb "FluxInterArray_x st1"] al(2,3)
    unfolding sx(1,2) by blast
  have alive': "libopstate st \<noteq> LibraryOperation_Dead" using alive by simp
  note r = dUdt_1d_steps [OF alive' a b [unfolded stx_def], folded stx_def]
  have z: "output_at (dUdt_1d ext gb st U L) j = Some 0"
    if j: "2 * stride st ! 1 \<le> j" "j < stride st ! 0 - 2 * stride st ! 1" for j
  proof -
    have e: "F j = F (j - stride st ! 1)"
      by (rule uniform_on_shift [OF F al(2)]) (use j al(3) in linarith)+
    have in_range: "stride st ! 1 \<le> j \<and> j < stride st ! 0" using j al(3) by linarith
    have "output_at (dUdt_1d ext gb st U L) j =
            (if stride st ! 1 \<le> j \<and> j < stride st ! 0
             then (if dx st = 0 then None else Some (- (F j - F (j - stride st ! 1)) / dx st))
             else Some (L j))"
      unfolding r output_at_simps by (simp only: lam_fields stride_dim_lam sx)
    also have "\<dots> = Some 0" using in_range dx e by simp
    finally show ?thesis .
  qed
  have "failures_of (dUdt_1d ext gb st U L) = Some 0" unfolding r by simp
  with z show ?thesis by blast
qed

lemma dUdt_2d_uniform:
  assumes alive: "libopstate st = LibraryOperation_Alive"
    and hll: "mode_riemann_solver (lib_state st) = RiemannSolver_HLL"
    and lt: "limiter_total st"
    and al: "stride st ! 0 mod 8 = 0" "stride st ! 1 mod 8 = 0" "stride st ! 2 mod 8 = 0"
    and ord: "0 < stride st ! 2" "stride st ! 2 \<le> stride st ! 1"
    and dx: "dx st \<noteq> 0" "dy st \<noteq> 0"
    and U: "\<And>c. 0 \<le> c \<Longrightarrow> 8 * c < stride st ! 0 \<Longrightarrow> cell U (8 * c) = u"
    and G: "\<And>c. 0 \<le> c \<Longrightarrow> 8 * c < stride st ! 0 \<Longrightarrow> cell (PrimitiveArray st) (8 * c) = p0"
    and ok: "cons_to_prim_point st u p0 = Inr (0, q, st')"
  shows "failures_of (dUdt_2d ext gb st U L) = Some 0 \<and>
         (\<forall>j. 2 * stride st ! 1 + stride st ! 2 \<le> j \<and>
               j < stride st ! 0 - 2 * stride st ! 1 - stride st ! 2 \<longrightarrow>
                output_at (dUdt_2d ext gb st U L) j = Some 0)"
proof -
  obtain P st1 where a: "cons_to_prim_array st U None (stride st ! 0 div 8) = Inr (0, P, st1)"
    and u1: "uniform_grid st1 P q" and s1: "stride st1 = stride st" "dx st1 = dx st"
      "dy st1 = dy st"
    using uniform_pass [OF U G ok hll lt al(1) alive] by blast
  have pos: "0 < stride st ! 1" using ord by linarith
  define stx where "stx = st1\<lparr>dimension := Dim1\<rparr>"
  have sx: "stride stx = stride st" "stride_dim stx = stride st ! 1" "uniform_grid stx P q"
    using s1 u1 by (simp_all add: stx_def)
  obtain m F hx where b0: "Fiph ext gb stx P (FluxInterArray_x st1) = Inr (lam stx m, F)"
    and F: "uniform_on F (stride st ! 1) (stride st ! 0 - 2 * stride st ! 1) hx"
    using Fiph_uniform_on [OF sx(3), of ext gb "FluxInterArray_x st1"] al(2) pos
    unfolding sx(1,2) by blast
  define st2 where "st2 = lam stx m"
  note b = b0 [folded st2_def, unfolded stx_def]
  define sty where "sty = st2\<lparr>dimension := Dim2\<rparr>"
  have sy: "stride sty = stride st" "stride_dim sty = stride st ! 2" "uniform_grid sty P q"
    using sx by (simp_all add: sty_def st2_def)
  obtain m' G' hy where c0: "Fiph ext gb sty P (FluxInterArray_y st2) = Inr (lam sty m', G')"
    and G': "uniform_on G' (stride st ! 2) (stride st ! 0 - 2 * stride st ! 2) hy"
    using Fiph_uniform_on [OF sy(3), of ext gb "FluxInterArray_y st2"] al(3) ord(1)
    unfolding sy(1,2) by blast
  define st3 where "st3 = lam sty m'"
  note c = c0 [folded st3_def, unfolded sty_def]
  have s3: "stride st3 = stride st" "dx st3 = dx st" "dy st3 = dy st"
    using s1 by (simp_all add: st3_def sty_def st2_def stx_def)
  have alive': "libopstate st \<noteq> LibraryOperation_Dead" using alive by simp
  define Fx where "Fx = fst (constraint_transport_2d gb st3 F G')"
  define Fy where "Fy = snd (constraint_transport_2d gb st3 F G')"
  have r: "dUdt_2d ext gb st U L =
      Inr (0, (\<lambda>j. if stride st ! 1 \<le> j \<and> j < stride st3 ! 0
                   then (if dx st3 = 0 \<or> dy st3 = 0 then None
                         else Some (- (Fx j - Fx (j - stride st ! 1)) / dx st3
                                    - (Fy j - Fy (j - stride st ! 2)) / dy st3))
                   else Some (L j)),
           Some (st3\<lparr>FluxInterArray_x := Fx, FluxInterArray_y := Fy\<rparr>))"
    unfolding dUdt_2d_after_pass [OF alive' a] b sweep_simps prod.case c Fx_def Fy_def ..
  obtain hx' hy' where
    X: "uniform_on Fx (stride st ! 1 + stride st ! 2)
          (stride st ! 0 - 2 * stride st ! 1 - stride st ! 2) hx'"
    and Y: "uniform_on Fy (2 * stride st ! 1)
          (stride st ! 0 - 2 * stride st ! 1 - stride st ! 2) hy'"
    using ct2d_uniform [of st3 F hx G' hy gb] al ord F G' unfolding s3 Fx_def Fy_def by blast
  have z: "output_at (dUdt_2d ext gb st U L) j = Some 0"
    if j: "2 * stride st ! 1 + stride st ! 2 \<le> j"
      "j < stride st ! 0 - 2 * stride st ! 1 - stride st ! 2" for j
  proof -
    have e1: "Fx j = Fx (j - stride st ! 1)"
      by (rule uniform_on_shift [OF X al(2)]) (use j ord in linarith)+
    have e2: "Fy j = Fy (j - stride st ! 2)"
      by (rule uniform_on_shift [OF Y al(3)]) (use j ord in linarith)+
    have in_range: "stride st ! 1 \<le> j \<and> j < stride st ! 0" using j ord by linarith
    have "output_at (dUdt_2d ext gb st U L) j =
            (if stride st ! 1 \<le> j \<and> j < stride st ! 0
             then (if dx st = 0 \<or> dy st = 0 then None
                   else Some (- (Fx j - Fx (j - stride st ! 1)) / dx st
                              - (Fy j - Fy (j - stride st ! 2)) / dy st))
             else Some (L j))"
      unfolding r output_at_simps s3 ..
    also have "\<dots> = Some 0" using in_range dx e1 e2 by simp
    finally show ?thesis .
  qed
  have "failures_of (dUdt_2d ext gb st U L) = Some 0" unfolding r by simp
  with z show ?thesis by blast
qed

lemma dUdt_3d_uniform:
  assumes alive: "libopstate st = LibraryOperation_Alive"
    and hll: "mode_riemann_solver (lib_state st) = RiemannSolver_HLL"
    and lt: "limiter_total st"
    and al: "stride st ! 0 mod 8 = 0" "stride st ! 1 mod 8 = 0" "stride st ! 2 mod 8 = 0"
      "stride st ! 3 mod 8 = 0"
    and ord: "0 < stride st ! 3" "stride st ! 3 \<le> stride st ! 2" "stride st ! 2 \<le> stride st ! 1"
    and dx: "dx st \<noteq> 0" "dy st \<noteq> 0" "dz st \<noteq> 0"
    and U: "\<And>c. 0 \<le> c \<Longrightarrow> 8 * c < stride st ! 0 \<Longrightarrow> cell U (8 * c) = u"
    and G: "\<And>c. 0 \<le> c \<Longrightarrow> 8 * c < stride st ! 0 \<Longrightarrow> cell (PrimitiveArray st) (8 * c) = p0"
    and ok: "cons_to_prim_point st u p0 = Inr (0, q, st')"
  shows "failures_of (dUdt_3d ext gb st U L) = Some 0 \<and>
         (\<forall>j. 2 * stride st ! 1 + stride st ! 2 \<le> j \<and>
               j < stride st ! 0 - 2 * stride st ! 1 - stride st ! 2 \<longrightarrow>
                output_at (dUdt_3d ext gb st U L) j = Some 0)"
proof -
  obtain P st1 where a: "cons_to_prim_array st U None (stride st ! 0 div 8) = Inr (0, P, st1)"
    and u1: "uniform_grid st1 P q" and s1: "stride st1 = stride st" "dx st1 = dx st"
      "dy st1 = dy st" "dz st1 = dz st"
    using uniform_pass [OF U G ok hll lt al(1) alive] by blast
  have pos: "0 < stride st ! 1" "0 < stride st ! 2" using ord by linarith+
  define stx where "stx = st1\<lparr>dimension := Dim1\<rparr>"
  have sx: "stride stx = stride st" "stride_dim stx = stride st ! 1" "uniform_grid stx P q"
    using s1 u1 by (simp_all add: stx_def)
  obtain m F hx where b0: "Fiph ext gb stx P (FluxInterArray_x st1) = Inr (lam stx m, F)"
    and F: "uniform_on F (stride st ! 1) (stride st ! 0 - 2 * stride st ! 1) hx"
    using Fiph_uniform_on [OF sx(3), of ext gb "FluxInterArray_x st1"] al(2) pos(1)
    unfolding sx(1,2) by blast
  define st2 where "st2 = lam stx m"
  note b = b0 [folded st2_def, unfolded stx_def]
  define sty where "sty = st2\<lparr>dimension := Dim2\<rparr>"
  have sy: "stride sty = stride st" "stride_dim sty = stride st ! 2" "uniform_grid sty P q"
    using sx by (simp_all add: sty_def st2_def)
  obtain m' G' hy where c0: "Fiph ext gb sty P (FluxInterArray_y st2) = Inr (lam sty m', G')"
    and G': "uniform_on G' (stride st ! 2) (stride st ! 0 - 2 * stride st ! 2) hy"
    using Fiph_uniform_on [OF sy(3), of ext gb "FluxInterArray_y st2"] al(3) pos(2)
    unfolding sy(1,2) by blast
  define st3 where "st3 = lam sty m'"
  note c = c0 [folded st3_def, unfolded sty_def]
  define stz where "stz = st3\<lparr>dimension := Dim3\<rparr>"
  have sz: "stride stz = stride st" "stride_dim stz = stride st ! 3" "uniform_grid stz P q"
    using sy by (simp_all add: stz_def st3_def)
  obtain m'' H hz where d0: "Fiph ext gb stz P (FluxInterArray_z st3) = Inr (lam stz m'', H)"
    and H: "uniform_on H (stride st ! 3) (stride st ! 0 - 2 * stride st ! 3) hz"
    using Fiph_uniform_on [OF sz(3), of ext gb "FluxInterArray_z st3"] al(4) ord(1)
    unfolding sz(1,2) by blast
  define st4 where "st4 = lam stz m''"
  note d = d0 [folded st4_def, unfolded stz_def]
  have s4: "stride st4 = stride st" "dx st4 = dx st" "dy st4 = dy st" "dz st4 = dz st"
    using s1 by (simp_all add: st4_def stz_def st3_def sty_def st2_def stx_def)
  have alive': "libopstate st \<noteq> LibraryOperation_Dead" using alive by simp
  define Fx where "Fx = fst (constraint_transport_3d gb st4 F G' H)"
  define Fy where "Fy = fst (snd (constraint_transport_3d gb st4 F G' H))"
  define Fz where "Fz = snd (snd (constraint_transport_3d gb st4 F G' H))"
  have r: "dUdt_3d ext gb st U L =
      Inr (0, (\<lambda>j. if stride st ! 1 \<le> j \<and> j < stride st4 ! 0
                   then (if dx st4 = 0 \<or> dy st4 = 0 \<or> dz st4 = 0 then None
                         else Some (- (Fx j - Fx (j - stride st ! 1)) / dx st4
                                    - (Fy j - Fy (j - stride st ! 2)) / dy st4
                                    - (Fz j - Fz (j - stride st ! 3)) / dz st4))
                   else Some (L j)),
           Some (st4\<lparr>FluxInterArray_x := Fx, FluxInterArray_y := Fy, FluxInterArray_z := Fz\<rparr>))"
    unfolding dUdt_3d_after_pass [OF alive' a] b sweep_simps prod.case c d Fx_def Fy_def Fz_def ..
  obtain hx' hy' hz' where
    X: "uniform_on Fx (stride st ! 1 + stride st ! 2)
          (stride st ! 0 - 2 * stride st ! 1 - stride st ! 2) hx'"
    and Y: "uniform_on Fy (2 * stride st ! 1)
          (stride st ! 0 - 2 * stride st ! 1 - stride st ! 2) hy'"
    and Z: "uniform_on Fz (2 * stride st ! 1)
          (stride st ! 0 - 2 * stride st ! 1 - stride st ! 2) hz'"
    using ct3d_uniform [of st4 F hx G' hy H hz gb] al ord F G' H
    unfolding s4 Fx_def Fy_def Fz_def by blast
  have z: "output_at (dUdt_3d ext gb st U L) j = Some 0"
    if j: "2 * stride st ! 1 + stride st ! 2 \<le> j"
      "j < stride st ! 0 - 2 * stride st ! 1 - stride st ! 2" for j
  proof -
    have e1: "Fx j = Fx (j - stride st ! 1)"
      by (rule uniform_on_shift [OF X al(2)]) (use j ord in linarith)+
    have e2: "Fy j = Fy (j - stride st ! 2)"
      by (rule uniform_on_shift [OF Y al(3)]) (use j ord in linarith)+
    have e3: "Fz j = Fz (j - stride st ! 3)"
      by (rule uniform_on_shift [OF Z al(4)]) (use j ord in linarith)+
    have in_range: "stride st ! 1 \<le> j \<and> j < stride st ! 0" using j ord by linarith
    have "output_at (dUdt_3d ext gb st U L) j =
            (if stride st ! 1 \<le> j \<and> j < stride st ! 0
             then (if dx st = 0 \<or> dy st = 0 \<or> dz st = 0 then None
                   else Some (- (Fx j - Fx (j - stride st ! 1)) / dx st
                              - (Fy j - Fy (j - stride st ! 2)) / dy st
                              - (Fz j - Fz (j - stride st ! 3)) / dz st))
             else Some (L j))"
      unfolding r output_at_simps s4 ..
    also have "\<dots> = Some 0" using in_range dx e1 e2 e3 by simp
    finally show ?thesis .
  qed
  have "failures_of (dUdt_3d ext gb st U L) = Some 0" unfolding r by simp
  with z show ?thesis by blast
qed

lemma newton_loop_lib_state:
  assumes "lib_state st' = lib_state st"
  shows "newton_loop st' U P = newton_loop st U P"
proof -
  have u: "newton_update st' U s = newton_update st U s" for s
    by (simp only: newton_update_def assms)
  have w: "newton_W_start st' U P = newton_W_start st U P"
    by (simp only: newton_W_start_def assms)
  have z: "newton_Z_start st' U P = newton_Z_start st U P"
    by (simp only: newton_Z_start_def w assms)
  have b: "newton_body st' U P = newton_body st U P"
    by (rule ext) (simp only: newton_body_def u w z)
  show ?thesis by (simp only: newton_loop_def b newton_start_def w z)
qed

lemma cell_uniform_field:
  assumes "length q = 8"
  shows "cell (uniform_field q) (8 * c) = q"
proof (rule nth_equalityI)
  show "length (cell (uniform_field q) (8 * c)) = length q" using assms by simp
next
  fix k assume "k < length (cell (uniform_field q) (8 * c))"
  then have k: "k < 8" by simp
  then have "(8 * c + int k) mod 8 = int k" by simp
  then show "cell (uniform_field q) (8 * c) ! k = q ! k"
    using k by (simp add: uniform_field_def)
qed

lemma uniform_cells_uniform_field:
  "length q = 8 \<Longrightarrow> uniform_cells (uniform_field q) n q"
  by (simp add: uniform_cells_def cell_uniform_field)

lemma hot_grid_fields [simp]:
  "stride hot_grid = [112, 8, 8, 8]"
  "libopstate hot_grid = LibraryOperation_Alive"
  "slope_limiter hot_grid = Some Ptr_plm_minmod"
  "lib_state hot_grid = lib_state est_state"
  by (simp_all add: hot_grid_def initialize_def est_state_def set_state_def engine_start_def
      lib_state_init_def)

lemma hot_grid_inversion: "fst (invert hot_grid hot_cons P) = 1"
proof -
  have "newton_loop hot_grid hot_cons P = Some ((stuck True 26)\<lparr>returned := True\<rparr>)"
    unfolding newton_loop_lib_state [of hot_grid est_state, OF hot_grid_fields(4)] hot_loop ..
  then show ?thesis by (simp add: invert_def cons_to_prim_point_def)
qed

lemma hot_grid_failures:
  "\<exists>P st1. cons_to_prim_array hot_grid hot_field None (stride hot_grid ! 0 div 8)
      = Inr (14, P, st1) \<and> (\<exists>it w ux uy uz. st1 = (touch hot_grid it w ux uy uz)\<lparr>PrimitiveArray := P\<rparr>)"
proof -
  obtain f P it w ux uy uz where
    a: "cons_to_prim_array hot_grid hot_field None (stride hot_grid ! 0 div 8)
          = Inr (f, P, (touch hot_grid it w ux uy uz)\<lparr>PrimitiveArray := P\<rparr>)"
    and f: "f = (\<Sum>c = 0..<nat (stride hot_grid ! 0 div 8).
                  fst (invert hot_grid (cell hot_field (8 * int c))
                        (cell (array_guess hot_grid None) (8 * int c))))"
    using cons_to_prim_array_returns [of hot_grid hot_field None "stride hot_grid ! 0 div 8"]
    by auto
  have c: "cell hot_field (8 * int c) = hot_cons" for c
    unfolding hot_field_def hot_cons by (rule cell_uniform_field) (simp add: hot_cons_def static_cons_def)
  have "f = 14" unfolding f c hot_grid_inversion by simp
  then show ?thesis using a by blast
qed

lemma prim_to_cons_point_lib_state:
  "lib_state st' = lib_state st \<Longrightarrow> prim_to_cons_point st' P = prim_to_cons_point st P"
  by (simp only: prim_to_cons_point_def)

lemma rest_grid_uniform:
  "uniform_cells rest_cons (stride rest_grid ! 0) (prim_to_cons_point est_state rest_state)"
  "uniform_cells (PrimitiveArray rest_grid) (stride rest_grid ! 0) rest_state"
proof -
  show "uniform_cells rest_cons (stride rest_grid ! 0) (prim_to_cons_point est_state rest_state)"
    unfolding rest_cons_def by (rule uniform_cells_uniform_field) simp
  have l: "length rest_state = 8" by (simp add: rest_state_def)
  show "uniform_cells (PrimitiveArray rest_grid) (stride rest_grid ! 0) rest_state"
    unfolding uniform_cells_def
  proof (intro allI impI)
    fix c :: int
    assume c: "0 \<le> c \<and> 8 * c < stride rest_grid ! 0"
    have "cell (PrimitiveArray rest_grid) (8 * c) = cell (uniform_field rest_state) (8 * c)"
    proof (rule cell_cong)
      fix k :: nat assume "k < 8"
      then have "0 \<le> 8 * c + int k \<and> 8 * c + int k < 112" using c by simp
      then show "PrimitiveArray rest_grid (8 * c + int k) = uniform_field rest_state (8 * c + int k)"
        by (simp add: rest_grid_def initialize_def)
    qed
    then show "cell (PrimitiveArray rest_grid) (8 * c) = rest_state"
      by (simp only: cell_uniform_field [OF l])
  qed
qed

lemma rest_grid_inversion:
  "cons_to_prim_point rest_grid (prim_to_cons_point est_state rest_state) rest_state
     = Inr (0, rest_state,
            rest_grid\<lparr> lib_state := (lib_state rest_grid)
                           \<lparr>cons_to_prim_iter := cons_to_prim_iter (lib_state rest_grid) + 2\<rparr>,
                       cons_to_prim_last_W := 1 \<rparr>)"
proof -
  have e: "lib_state rest_grid = lib_state est_state"
    by (simp add: est_state_def set_state_def)
  have "cons_to_prim_point rest_grid (prim_to_cons_point rest_grid [1, 1, 0, 0, 0, 0, 0, 0]) rest_state
     = Inr (0, [1, 1, 0, 0, 0, 0, 0, 0],
            rest_grid\<lparr> lib_state := (lib_state rest_grid)
                           \<lparr>cons_to_prim_iter := cons_to_prim_iter (lib_state rest_grid) + 2\<rparr>,
                       cons_to_prim_last_W := 1 \<rparr>)"
    by (rule static_round_trip)
       (simp_all add: lib_state_init_def PRES_FLOOR_def bigZ_def ERROR_TOLR_def)
  then show ?thesis
    unfolding prim_to_cons_point_lib_state [OF e] rest_state_def .
qed

lemma rest_grid_spacing: "dy rest_grid \<noteq> 0" "dz rest_grid \<noteq> 0"
  "mode_riemann_solver (lib_state rest_grid) = RiemannSolver_HLL"
  by (simp_all add: rest_grid_def initialize_def est_state_def set_state_def lib_state_init_def)

subsection \<open>The derivative of a uniform field\<close>




end
